(* ===== verification/Prelude.thy ===== *)
theory Prelude
  imports Main "HOL-Library.Word"
begin

text \<open>
  Shared vocabulary of the development: the machine types of the C code, the ghost
  notions used in several components (writing into a byte buffer, the relation between
  a singly linked list in memory and the HOL list it represents) and the generic lemmas
  about them.

  The collections: \<open>os_simps\<close> holds the effect of the system calls on the fields of the
  operating system state, \<open>client_simps\<close> and \<open>server_simps\<close> the frame facts of the client
  and of the server operations, \<open>input_simps\<close> the facts about the input buffer.
\<close>

named_theorems os_simps
named_theorems input_simps
named_theorems client_simps
named_theorems server_simps

section \<open>Machine types\<close>

type_synonym byte = "8 word"
type_synonym u16 = "16 word"
type_synonym u32 = "32 word"

text \<open>File descriptors are C \<open>int\<close>s; \<open>-1\<close> stands for no descriptor.\<close>

type_synonym fd = int

text \<open>
  \<open>size_t\<close> values are \<open>nat\<close>; the one subtraction of the code whose operands are given by
  the caller wraps around at 64 bits.
\<close>

definition size_sub :: "nat \<Rightarrow> nat \<Rightarrow> nat" where
  "size_sub a b = (a + 2 ^ 64 - b) mod 2 ^ 64"

lemma size_sub_eq [simp]: "b \<le> a \<Longrightarrow> a < 2 ^ 64 \<Longrightarrow> size_sub a b = a - b"
  by (simp add: size_sub_def mod_if)

section \<open>Byte buffers\<close>

text \<open>
  \<open>buf_write off bs buf\<close> is memory after \<open>bs\<close> has been stored at offset \<open>off\<close>. When the
  bytes do not fit, the list grows: the callers record that case as an overrun.
\<close>

definition buf_write :: "nat \<Rightarrow> 'a list \<Rightarrow> 'a list \<Rightarrow> 'a list" where
  "buf_write off bs buf = take off buf @ bs @ drop (off + length bs) buf"

lemma buf_write_Nil [simp]: "buf_write off [] buf = buf"
  by (simp add: buf_write_def)

lemma length_buf_write [simp]:
  "off + length bs \<le> length buf \<Longrightarrow> length (buf_write off bs buf) = length buf"
  by (simp add: buf_write_def)

lemma buf_write_append:
  assumes "off \<le> length buf"
  shows "buf_write (off + length xs) ys (buf_write off xs buf) = buf_write off (xs @ ys) buf"
  using assms by (simp add: buf_write_def min_def add.commute add.left_commute)

lemma take_buf_write_0 [simp]: "take (length bs) (buf_write 0 bs buf) = bs"
  by (simp add: buf_write_def)

lemma buf_write_0_prefix:
  "n \<le> length bs \<Longrightarrow> take n (buf_write 0 bs buf) = take n bs"
  by (simp add: buf_write_def)

lemma take_buf_write_end [simp]:
  "off \<le> length buf \<Longrightarrow> take (off + length bs) (buf_write off bs buf) = take off buf @ bs"
  by (simp add: buf_write_def min_def)

lemma take_drop_buf_write_0:
  "drop n (take (n + m) (buf_write 0 (xs @ ys) buf)) = ys"
  if "n = length xs" "m = length ys"
  using that by (simp add: buf_write_def)

lemma sorted_hd_le: "sorted xs \<Longrightarrow> x \<in> set xs \<Longrightarrow> hd xs \<le> x"
  by (cases xs) auto

section \<open>Linked lists in memory\<close>

text \<open>
  A pointer to an element of an array is \<open>Some i\<close>, \<open>NULL\<close> is \<open>None\<close>.
  \<open>lseg nxt p xs\<close>: following \<open>nxt\<close> from \<open>p\<close> visits exactly \<open>xs\<close> and ends in \<open>NULL\<close>.
\<close>

type_synonym ptr = "nat option"

fun lseg :: "(nat \<Rightarrow> ptr) \<Rightarrow> ptr \<Rightarrow> nat list \<Rightarrow> bool" where
  "lseg nxt p [] \<longleftrightarrow> p = None"
| "lseg nxt p (x # xs) \<longleftrightarrow> p = Some x \<and> lseg nxt (nxt x) xs"

lemma lseg_None [simp]: "lseg nxt None xs \<longleftrightarrow> xs = []"
  by (cases xs) auto

lemma lseg_Some: "lseg nxt (Some x) xs \<longleftrightarrow> (\<exists>ys. xs = x # ys \<and> lseg nxt (nxt x) ys)"
  by (cases xs) auto

lemma lseg_cong:
  "(\<And>x. x \<in> set xs \<Longrightarrow> f x = g x) \<Longrightarrow> lseg f p xs \<longleftrightarrow> lseg g p xs"
  by (induction xs arbitrary: p) auto

lemma lseg_upd [simp]: "x \<notin> set xs \<Longrightarrow> lseg (nxt(x := q)) p xs \<longleftrightarrow> lseg nxt p xs"
  by (rule lseg_cong) auto

lemma lseg_unique: "lseg nxt p xs \<Longrightarrow> lseg nxt p ys \<Longrightarrow> xs = ys"
  by (induction xs arbitrary: p ys) (auto simp: lseg_Some)

text \<open>
  The consecutive pairs of a list: \<open>(a, b)\<close> with \<open>b\<close> right after \<open>a\<close>. The \<open>prev_p\<close> field
  of a doubly linked list is specified through them.
\<close>

fun pairs :: "'a list \<Rightarrow> ('a \<times> 'a) list" where
  "pairs (x # y # xs) = (x, y) # pairs (y # xs)"
| "pairs _ = []"

lemma pairs_in_set: "(a, b) \<in> set (pairs xs) \<Longrightarrow> a \<in> set xs \<and> b \<in> set xs"
  by (induction xs rule: pairs.induct) auto

lemma pairs_snd_in_tl: "(a, b) \<in> set (pairs xs) \<Longrightarrow> b \<in> set (tl xs)"
  by (induction xs rule: pairs.induct) (auto dest: pairs_in_set)

lemma pairs_Cons: "pairs (x # xs) = (case xs of [] \<Rightarrow> [] | y # ys \<Rightarrow> (x, y) # pairs xs)"
  by (cases xs) auto

lemma pairs_append:
  "xs \<noteq> [] \<Longrightarrow> ys \<noteq> [] \<Longrightarrow> pairs (xs @ ys) = pairs xs @ (last xs, hd ys) # pairs ys"
  by (induction xs rule: pairs.induct) (auto simp: pairs_Cons split: list.splits)

end
