(* ===== verification/Messi.thy ===== *)
theory Messi
  imports Prelude
begin

unbundle bit_operations_syntax

text \<open>
  The library \<open>lib/\<close> that every generated client and server links: the message header
  (\<open>struct messi_header_t\<close>, its setter and getter), the URI parser
  \<open>messi_parse_tcp_uri\<close> with the parts of the C library it uses (\<open>strncmp\<close>, \<open>strchr\<close>,
  \<open>strncpy\<close>, \<open>atoi\<close>) and the disconnect reasons with their texts.
\<close>

section \<open>Message types\<close>

definition MESSI_MESSAGE_TYPE_CLIENT_TO_SERVER_USER :: byte where
  "MESSI_MESSAGE_TYPE_CLIENT_TO_SERVER_USER = 1"

definition MESSI_MESSAGE_TYPE_SERVER_TO_CLIENT_USER :: byte where
  "MESSI_MESSAGE_TYPE_SERVER_TO_CLIENT_USER = 2"

definition MESSI_MESSAGE_TYPE_PING :: byte where
  "MESSI_MESSAGE_TYPE_PING = 3"

definition MESSI_MESSAGE_TYPE_PONG :: byte where
  "MESSI_MESSAGE_TYPE_PONG = 4"

lemmas message_type_defs =
  MESSI_MESSAGE_TYPE_CLIENT_TO_SERVER_USER_def
  MESSI_MESSAGE_TYPE_SERVER_TO_CLIENT_USER_def
  MESSI_MESSAGE_TYPE_PING_def
  MESSI_MESSAGE_TYPE_PONG_def

section \<open>The header\<close>

text \<open>
  \<open>struct messi_header_t\<close>: one byte of type and the three bytes of \<open>size\<close>, packed, so its
  size is four and its bytes in memory are \<open>type\<close>, \<open>size[0]\<close>, \<open>size[1]\<close>, \<open>size[2]\<close>.
\<close>

record messi_header =
  header_type :: byte
  size0 :: byte
  size1 :: byte
  size2 :: byte

definition header_sizeof :: nat where
  "header_sizeof = 4"

definition messi_header_set_size :: "messi_header \<Rightarrow> u32 \<Rightarrow> messi_header" where
  "messi_header_set_size h sz =
     h\<lparr>size0 := ucast (drop_bit 16 sz), size1 := ucast (drop_bit 8 sz),
       size2 := ucast (drop_bit 0 sz)\<rparr>"

definition messi_header_get_size :: "messi_header \<Rightarrow> u32" where
  "messi_header_get_size h =
     push_bit 16 (ucast (size0 h)) OR push_bit 8 (ucast (size1 h)) OR push_bit 0 (ucast (size2 h))"

definition messi_header_create :: "messi_header \<Rightarrow> byte \<Rightarrow> u32 \<Rightarrow> messi_header" where
  "messi_header_create h message_type sz =
     messi_header_set_size (h\<lparr>header_type := message_type\<rparr>) sz"

text \<open>The header as it lies in memory, and read back by a pointer cast.\<close>

definition header_bytes :: "messi_header \<Rightarrow> byte list" where
  "header_bytes h = [header_type h, size0 h, size1 h, size2 h]"

definition header_at :: "byte list \<Rightarrow> messi_header" where
  "header_at buf =
     \<lparr>header_type = buf ! 0, size0 = buf ! 1, size1 = buf ! 2, size2 = buf ! 3\<rparr>"

lemma length_header_bytes [simp]: "length (header_bytes h) = header_sizeof"
  by (simp add: header_bytes_def header_sizeof_def)

lemma header_at_bytes [simp]: "header_at (header_bytes h @ rest) = h"
  by (cases h) (simp add: header_at_def header_bytes_def)

lemma header_at_buf_write [simp]: "header_at (buf_write 0 (header_bytes h @ bs) buf) = h"
  by (simp add: buf_write_def)

lemma byte_high_bit [simp]: "8 \<le> n \<Longrightarrow> \<not> bit (b :: byte) n"
  using bit_imp_le_length [of b n] by auto

lemma get_set_size_mod:
  "messi_header_get_size (messi_header_set_size h sz) = take_bit 24 sz"
proof (rule bit_word_eqI)
  fix n
  show "bit (messi_header_get_size (messi_header_set_size h sz)) n = bit (take_bit 24 sz) n"
    by (cases "n < 8"; cases "n < 16"; cases "n < 24")
      (auto simp: messi_header_get_size_def messi_header_set_size_def bit_simps)
qed

lemma get_create_size_mod:
  "messi_header_get_size (messi_header_create h t sz) = take_bit 24 sz"
  by (simp add: messi_header_create_def get_set_size_mod)

lemma header_type_create [simp]: "header_type (messi_header_create h t sz) = t"
  by (simp add: messi_header_create_def messi_header_set_size_def)

lemma unat_get_size_less: "unat (messi_header_get_size h) < 2 ^ 24"
proof -
  have "messi_header_get_size h = take_bit 24 (messi_header_get_size h)"
  proof (rule bit_word_eqI)
    fix n
    show "bit (messi_header_get_size h) n = bit (take_bit 24 (messi_header_get_size h)) n"
      by (cases "n < 24") (simp_all add: messi_header_get_size_def bit_simps)
  qed
  then have "unat (messi_header_get_size h) = take_bit 24 (unat (messi_header_get_size h))"
    by (metis unsigned_take_bit_eq)
  then show ?thesis
    by (metis take_bit_nat_less_exp)
qed

lemma unat_get_create_size:
  assumes "n < 2 ^ 24"
  shows "unat (messi_header_get_size (messi_header_create h t (of_nat n))) = n"
proof -
  have "unat (take_bit 24 (of_nat n :: u32)) = take_bit 24 (take_bit 32 n)"
    by (simp add: unsigned_take_bit_eq unsigned_of_nat)
  also have "\<dots> = n"
    using assms by (simp add: take_bit_nat_eq_self)
  finally show ?thesis
    by (simp add: get_create_size_mod)
qed

lemma create_get_size:
  "messi_header_create h (header_type g) (messi_header_get_size g) = g"
proof -
  have "ucast (drop_bit 16 (messi_header_get_size g)) = size0 g"
    "ucast (drop_bit 8 (messi_header_get_size g)) = size1 g"
    "ucast (drop_bit 0 (messi_header_get_size g)) = size2 g"
    by (rule bit_word_eqI, simp add: messi_header_get_size_def bit_simps)+
  then show ?thesis
    by (simp add: messi_header_create_def messi_header_set_size_def)
qed

section \<open>Parsing \<open>tcp://<host>:<port>\<close>\<close>

text \<open>
  C strings are HOL strings without the terminating NUL. \<open>strtol_value\<close> is the number at the
  start of a string: white space is skipped, then an optional sign and digits up to the first
  other character are read; without a digit it is 0. \<open>atoi\<close> is what the C library of Linux
  makes of it, \<open>(int)strtol(s, NULL, 10)\<close>: \<open>strtol\<close> saturates at the bounds of a 64 bit
  \<open>long\<close>, and the cast keeps the low 32 bits (\<open>c_int\<close>).
\<close>

definition isspace :: "char \<Rightarrow> bool" where
  "isspace ch \<longleftrightarrow> ch \<in> {CHR '' '', CHR 0x09, CHR 0x0A, CHR 0x0B, CHR 0x0C, CHR 0x0D}"

definition isdigit :: "char \<Rightarrow> bool" where
  "isdigit ch \<longleftrightarrow> 48 \<le> (of_char ch :: nat) \<and> (of_char ch :: nat) \<le> 57"

definition digit_val :: "char \<Rightarrow> nat" where
  "digit_val ch = of_char ch - 48"

definition c_int :: "int \<Rightarrow> int" where
  "c_int n = sint (word_of_int n :: 32 word)"

fun atoi_digits :: "int \<Rightarrow> string \<Rightarrow> int" where
  "atoi_digits acc [] = acc"
| "atoi_digits acc (ch # cs) =
     (if isdigit ch then atoi_digits (acc * 10 + int (digit_val ch)) cs else acc)"

fun strtol_value :: "string \<Rightarrow> int" where
  "strtol_value [] = 0"
| "strtol_value (ch # cs) =
     (if isspace ch then strtol_value cs
      else if ch = CHR ''-'' then - atoi_digits 0 cs
      else if ch = CHR ''+'' then atoi_digits 0 cs
      else atoi_digits 0 (ch # cs))"

definition atoi :: "string \<Rightarrow> int" where
  "atoi s = c_int (max (- (2 ^ 63)) (min (2 ^ 63 - 1) (strtol_value s)))"

text \<open>\<open>strncmp(s, t, n) != 0\<close> and \<open>strchr(s, c) - s\<close>.\<close>

definition strncmp_differs :: "string \<Rightarrow> string \<Rightarrow> nat \<Rightarrow> bool" where
  "strncmp_differs s t n \<longleftrightarrow> take n s \<noteq> take n t"

fun strchr :: "string \<Rightarrow> char \<Rightarrow> nat option" where
  "strchr [] ch = None"
| "strchr (x # xs) ch = (if x = ch then Some 0 else map_option Suc (strchr xs ch))"

text \<open>
  \<open>messi_parse_tcp_uri\<close>: \<open>None\<close> for the return value \<open>-1\<close>, otherwise what the code stores
  through \<open>host_p\<close> and \<open>port_p\<close>.
\<close>

definition messi_parse_tcp_uri :: "string \<Rightarrow> nat \<Rightarrow> (string \<times> int) option" where
  "messi_parse_tcp_uri uri host_size =
     (if strncmp_differs uri ''tcp://'' 6 then None
      else
        let uri' = drop 6 uri
        in case strchr uri' (CHR '':'') of
             None \<Rightarrow> None
           | Some sz \<Rightarrow>
               if sz + 1 > host_size then None
               else Some (take sz uri', atoi (drop (sz + 1) uri')))"

text \<open>The decimal notation of a number, as reference for the round trip.\<close>

fun decimal :: "nat \<Rightarrow> string" where
  "decimal n = (if n < 10 then [char_of (48 + n)] else decimal (n div 10) @ [char_of (48 + n mod 10)])"

declare decimal.simps [simp del]

lemma digit_char:
  assumes "d < 10"
  shows "isdigit (char_of (48 + d))" and "digit_val (char_of (48 + d)) = d"
  using assms by (simp_all add: isdigit_def digit_val_def)

lemma atoi_digits_append:
  "\<forall>ch \<in> set xs. isdigit ch \<Longrightarrow> atoi_digits acc (xs @ ys) = atoi_digits (atoi_digits acc xs) ys"
  by (induction xs arbitrary: acc) auto

lemma decimal_digits: "ch \<in> set (decimal n) \<Longrightarrow> isdigit ch"
proof (induction n rule: decimal.induct)
  case (1 n)
  then show ?case
    by (subst (asm) (2) decimal.simps) (auto simp: digit_char split: if_splits)
qed

lemma decimal_nonempty: "decimal n \<noteq> []"
  by (subst decimal.simps) simp

lemma atoi_digits_decimal: "atoi_digits 0 (decimal n) = int n"
proof (induction n rule: decimal.induct)
  case (1 n)
  show ?case
  proof (cases "n < 10")
    case True
    then show ?thesis by (subst decimal.simps) (simp add: digit_char)
  next
    case False
    with 1 have "atoi_digits 0 (decimal (n div 10)) = int (n div 10)" by simp
    with False show ?thesis
      by (subst decimal.simps)
        (simp add: atoi_digits_append decimal_digits digit_char zdiv_int zmod_int)
  qed
qed

lemma digit_not_special:
  "isdigit ch \<Longrightarrow> \<not> isspace ch \<and> ch \<noteq> CHR ''-'' \<and> ch \<noteq> CHR ''+''"
  by (auto simp: isdigit_def isspace_def)

lemma c_int_id: "- (2 ^ 31) \<le> n \<Longrightarrow> n < 2 ^ 31 \<Longrightarrow> c_int n = n"
  by (simp add: c_int_def signed_of_int signed_take_bit_int_eq_self)

lemma c_int_bounds: "- (2 ^ 31) \<le> c_int n \<and> c_int n < 2 ^ 31"
  using sint_ge [of "word_of_int n :: 32 word"] sint_lt [of "word_of_int n :: 32 word"]
  by (simp add: c_int_def)

lemma atoi_bounds: "- (2 ^ 31) \<le> atoi s \<and> atoi s < 2 ^ 31"
  unfolding atoi_def by (rule c_int_bounds)

lemma atoi_no_digits:
  assumes "\<forall>ch \<in> set s. \<not> isdigit ch"
  shows "atoi s = 0"
proof -
  have "atoi_digits 0 cs = 0" if "\<forall>ch \<in> set cs. \<not> isdigit ch" for cs
    using that by (cases cs) auto
  then have "strtol_value s = 0"
    using assms by (induction s) auto
  then show ?thesis
    by (simp add: atoi_def c_int_id)
qed

lemma strtol_value_decimal: "strtol_value (decimal n) = int n"
proof -
  obtain ch cs where dec: "decimal n = ch # cs"
    using decimal_nonempty by (cases "decimal n") auto
  then have "isdigit ch"
    using decimal_digits [of ch n] by simp
  then show ?thesis
    using dec atoi_digits_decimal [of n] digit_not_special [of ch] by simp
qed

lemma atoi_decimal: "n < 2 ^ 31 \<Longrightarrow> atoi (decimal n) = int n"
  by (simp add: atoi_def strtol_value_decimal c_int_id)

lemma strchr_None: "strchr s ch = None \<longleftrightarrow> ch \<notin> set s"
  by (induction s) auto

lemma strchr_append: "ch \<notin> set s \<Longrightarrow> strchr (s @ ch # t) ch = Some (length s)"
  by (induction s) auto

lemma strchr_Some:
  "strchr s ch = Some n \<longleftrightarrow> n < length s \<and> s ! n = ch \<and> ch \<notin> set (take n s)"
proof (induction s arbitrary: n)
  case Nil
  then show ?case by simp
next
  case (Cons x xs)
  then show ?case by (cases n) auto
qed

section \<open>Disconnect reasons\<close>

text \<open>
  \<open>enum messi_disconnect_reason_t\<close> in the order of the header, so \<open>reason_code\<close> is the
  numeric value of each enumerator.
\<close>

datatype disconnect_reason =
    Message_encode_error
  | Message_decode_error
  | Connection_closed
  | Keep_alive_timeout
  | General_error
  | Message_too_big

fun reason_code :: "disconnect_reason \<Rightarrow> nat" where
  "reason_code Message_encode_error = 0"
| "reason_code Message_decode_error = 1"
| "reason_code Connection_closed = 2"
| "reason_code Keep_alive_timeout = 3"
| "reason_code General_error = 4"
| "reason_code Message_too_big = 5"

text \<open>The enumerators are ordered by their values, as comparison in C orders them.\<close>

instantiation disconnect_reason :: linorder
begin

definition less_eq_disconnect_reason :: "disconnect_reason \<Rightarrow> disconnect_reason \<Rightarrow> bool" where
  "less_eq_disconnect_reason a b \<longleftrightarrow> reason_code a \<le> reason_code b"

definition less_disconnect_reason :: "disconnect_reason \<Rightarrow> disconnect_reason \<Rightarrow> bool" where
  "less_disconnect_reason a b \<longleftrightarrow> reason_code a < reason_code b"

instance
proof
  fix a b :: disconnect_reason
  show "a \<le> b \<Longrightarrow> b \<le> a \<Longrightarrow> a = b"
    by (cases a; cases b) (simp_all add: less_eq_disconnect_reason_def)
qed (auto simp: less_eq_disconnect_reason_def less_disconnect_reason_def)

end

text \<open>
  The argument of \<open>messi_disconnect_reason_string\<close> is any value of the enum's integer
  type, so the model takes the number.
\<close>

definition messi_disconnect_reason_string :: "nat \<Rightarrow> string" where
  "messi_disconnect_reason_string n =
     (if n = 0 then ''Message encode error.''
      else if n = 1 then ''Message decode error.''
      else if n = 2 then ''Connection closed.''
      else if n = 3 then ''Keep alive timeout.''
      else if n = 4 then ''General error.''
      else if n = 5 then ''Message too big.''
      else ''*** Unknown ***'')"

section \<open>Properties\<close>

text \<open>C30: A header made by \<open>messi_header_create\<close> and laid out in memory is read back with the
  same type and size, for every size that fits into its three bytes, whatever follows it.\<close>

theorem header_roundtrip:
  assumes "n < 2 ^ 24"
  shows "header_type (header_at (header_bytes (messi_header_create h t (of_nat n)) @ rest)) = t \<and>
    unat (messi_header_get_size (header_at (header_bytes (messi_header_create h t (of_nat n)) @ rest))) = n"
  by (simp add: unat_get_create_size [OF assms])

theorem header_roundtrip_witness:
  "header_type (header_at (header_bytes
      (messi_header_create (header_at [0, 0, 0, 0]) 1 (of_nat 66051)) @ [7])) = 1 \<and>
   unat (messi_header_get_size (header_at (header_bytes
      (messi_header_create (header_at [0, 0, 0, 0]) 1 (of_nat 66051)) @ [7]))) = 66051"
  by (rule header_roundtrip) simp

text \<open>The size that can be read from a header is below \<open>2 ^ 24\<close>; a larger size given to
  \<open>messi_header_create\<close> is silently reduced modulo \<open>2 ^ 24\<close>, and every header is the result
  of \<open>messi_header_create\<close> on its own type and size.\<close>

theorem header_size_bounds:
  "unat (messi_header_get_size g) < 2 ^ 24 \<and>
   unat (messi_header_get_size (messi_header_create h t sz)) = unat sz mod 2 ^ 24 \<and>
   messi_header_create h (header_type g) (messi_header_get_size g) = g"
proof -
  have "unat (take_bit 24 sz) = unat sz mod 2 ^ 24"
    unfolding take_bit_eq_mod [symmetric] by (rule unsigned_take_bit_eq)
  then show ?thesis
    using unat_get_size_less [of g] by (simp only: get_create_size_mod create_get_size)
qed

text \<open>C31: \<open>messi_parse_tcp_uri\<close> succeeds exactly on \<open>tcp://<host>:<rest>\<close> where the host has no
  colon and fits into the given buffer together with its terminating NUL; it then returns the
  host and what \<open>atoi\<close> makes of the rest, a C \<open>int\<close>. It fails on everything else. Any rest is
  accepted, also one without a number, although the header documents \<open>tcp://<host>:<port>\<close>:
  then the port is 0.\<close>

theorem parse_tcp_uri_iff:
  "messi_parse_tcp_uri uri host_size = Some (host, prt) \<longleftrightarrow>
     (\<exists>rest. uri = ''tcp://'' @ host @ '':'' @ rest \<and> CHR '':'' \<notin> set host \<and>
        length host + 1 \<le> host_size \<and> prt = atoi rest \<and> - (2 ^ 31) \<le> prt \<and> prt < 2 ^ 31)"
proof
  assume "messi_parse_tcp_uri uri host_size = Some (host, prt)"
  then obtain n where n: "take 6 uri = ''tcp://''" "strchr (drop 6 uri) (CHR '':'') = Some n"
    "n + 1 \<le> host_size" "host = take n (drop 6 uri)" "prt = atoi (drop (n + 1) (drop 6 uri))"
    by (auto simp: messi_parse_tcp_uri_def strncmp_differs_def Let_def split: if_splits option.splits)
  then have "n < length (drop 6 uri)" "drop 6 uri ! n = CHR '':''" "CHR '':'' \<notin> set host"
    by (simp_all add: strchr_Some)
  define rest where "rest = drop (n + 1) (drop 6 uri)"
  have "drop 6 uri = host @ '':'' @ rest"
    using \<open>n < _\<close> \<open>_ ! n = _\<close> n(4) id_take_nth_drop [of n "drop 6 uri"]
    by (simp add: rest_def)
  then have "uri = ''tcp://'' @ host @ '':'' @ rest"
    using append_take_drop_id [of 6 uri] by (simp add: n(1) del: append_take_drop_id)
  then show "\<exists>rest. uri = ''tcp://'' @ host @ '':'' @ rest \<and> CHR '':'' \<notin> set host \<and>
      length host + 1 \<le> host_size \<and> prt = atoi rest \<and> - (2 ^ 31) \<le> prt \<and> prt < 2 ^ 31"
    using n(3-5) atoi_bounds [of rest] \<open>CHR '':'' \<notin> set host\<close> \<open>n < _\<close> unfolding rest_def [symmetric] by auto
next
  assume "\<exists>rest. uri = ''tcp://'' @ host @ '':'' @ rest \<and> CHR '':'' \<notin> set host \<and>
      length host + 1 \<le> host_size \<and> prt = atoi rest \<and> - (2 ^ 31) \<le> prt \<and> prt < 2 ^ 31"
  then show "messi_parse_tcp_uri uri host_size = Some (host, prt)"
    by (auto simp: messi_parse_tcp_uri_def strncmp_differs_def strchr_append)
qed

text \<open>A URI without a port number is not refused.\<close>

lemma parse_tcp_uri_without_port:
  assumes "CHR '':'' \<notin> set host" "length host < host_size" "\<forall>ch \<in> set rest. \<not> isdigit ch"
  shows "messi_parse_tcp_uri (''tcp://'' @ host @ '':'' @ rest) host_size = Some (host, 0)"
  using assms
  by (simp add: messi_parse_tcp_uri_def strncmp_differs_def strchr_append atoi_no_digits)

text \<open>C32: A URI written with a host without colon and the decimal notation of a port that fits a
  C \<open>int\<close> is parsed into exactly that host and port, when the host fits its memory.\<close>

theorem parse_tcp_uri_roundtrip:
  assumes "CHR '':'' \<notin> set host" "length host < host_size" "n < 2 ^ 31"
  shows "messi_parse_tcp_uri (''tcp://'' @ host @ '':'' @ decimal n) host_size = Some (host, int n)"
  using assms by (simp add: messi_parse_tcp_uri_def strncmp_differs_def strchr_append atoi_decimal)

theorem parse_tcp_uri_roundtrip_witness:
  "messi_parse_tcp_uri (''tcp://'' @ ''127.0.0.1'' @ '':'' @ decimal 6000) 16 =
     Some (''127.0.0.1'', int 6000)"
  by (rule parse_tcp_uri_roundtrip) simp_all

text \<open>The six disconnect reasons have six different texts, and any other value of the enum's
  type has the text for unknown reasons.\<close>

theorem disconnect_reason_texts:
  "(messi_disconnect_reason_string (reason_code r) = messi_disconnect_reason_string (reason_code r')
      \<longleftrightarrow> r = r') \<and>
   (messi_disconnect_reason_string n = ''*** Unknown ***'' \<longleftrightarrow> n \<notin> range reason_code)"
proof
  show "messi_disconnect_reason_string (reason_code r) = messi_disconnect_reason_string (reason_code r')
      \<longleftrightarrow> r = r'"
    by (cases r; cases r') (simp_all add: messi_disconnect_reason_string_def)
  have "\<exists>r. n = reason_code r" if "n < 6"
  proof -
    from that have "n = 0 \<or> n = 1 \<or> n = 2 \<or> n = 3 \<or> n = 4 \<or> n = 5" by arith
    then show ?thesis by (metis reason_code.simps)
  qed
  moreover have "reason_code r < 6" for r by (cases r) simp_all
  ultimately have "n \<in> range reason_code \<longleftrightarrow> n < 6" by auto
  then show "messi_disconnect_reason_string n = ''*** Unknown ***'' \<longleftrightarrow> n \<notin> range reason_code"
    by (auto simp: messi_disconnect_reason_string_def)
qed

end
