(* ===== verification/Os.thy ===== *)
theory Os
  imports Messi
begin

unbundle bit_operations_syntax

text \<open>
  The operating system as the linux clients and servers use it: descriptors (sockets and
  timers), the epoll interest list, timers, the bytes accepted by each socket, and the
  outcome of every call that may fail. The outcomes are data of the state: \<open>outcomes\<close> lists
  the outcomes of the calls that succeed or fail, in the order the calls are made (success
  once the list is used up), \<open>wscript\<close> the results of the calls of \<open>write\<close>. A theorem about
  every state is therefore a theorem about every behaviour of the system.

  The bytes (or errors) that arrive on a descriptor are handed to the operation that
  handles the event as a list of \<open>arrival\<close>s, see \<open>sys_read\<close>.

  Also here: the wrappers of \<open>lib/\<close> around system calls, \<open>messi_epoll_ctl_default\<close> and
  \<open>messi_make_non_blocking\<close>.
\<close>

section \<open>State\<close>

datatype errno = EAGAIN | EBADF | EPIPE | EIO

text \<open>
  One element per piece of data the kernel hands out in one go; an empty piece is what a
  read after the end of the stream returns.
\<close>

datatype arrival = Chunk "byte list" | Arrival_error errno

datatype write_result = Accept nat | Write_error errno

record os =
  outcomes :: "bool list"
  wscript :: "write_result list"
  fds :: "fd list"
  interest :: "fd \<Rightarrow> u32 option"
  armed :: "fd \<Rightarrow> nat option"
  fdflags :: "fd \<Rightarrow> u32"
  tx :: "fd \<Rightarrow> byte list"
  peer :: "fd \<Rightarrow> (u32 \<times> u16) option"
  aton :: "string \<Rightarrow> u32 option"
  mallocs :: "bool list"

definition EPOLLIN :: u32 where "EPOLLIN = 1"

definition EPOLLOUT :: u32 where "EPOLLOUT = 4"

definition O_NONBLOCK :: u32 where "O_NONBLOCK = 0x800"

section \<open>System calls\<close>

text \<open>The outcome of a call that may fail.\<close>

definition sys_try :: "os \<Rightarrow> bool \<times> os" where
  "sys_try os = (case outcomes os of [] \<Rightarrow> (True, os) | b # bs \<Rightarrow> (b, os\<lparr>outcomes := bs\<rparr>))"

text \<open>A new descriptor gets the lowest number that is not open.\<close>

definition lowest_free :: "fd list \<Rightarrow> fd" where
  "lowest_free xs = int (hd (filter (\<lambda>n. int n \<notin> set xs) [0..<Suc (length xs)]))"

definition sys_new_fd :: "os \<Rightarrow> fd \<times> os" where
  "sys_new_fd os =
     (let (ok, os1) = sys_try os; n = lowest_free (fds os1)
      in if ok
         then (n, os1\<lparr>fds := n # fds os1, interest := (interest os1)(n := None),
                      armed := (armed os1)(n := None), fdflags := (fdflags os1)(n := 0),
                      tx := (tx os1)(n := []), peer := (peer os1)(n := None)\<rparr>)
         else (- 1, os1))"

definition sys_socket :: "os \<Rightarrow> fd \<times> os" where
  "sys_socket os = sys_new_fd os"

definition sys_accept :: "fd \<Rightarrow> os \<Rightarrow> fd \<times> os" where
  "sys_accept listener os = (if listener \<in> set (fds os) then sys_new_fd os else (- 1, os))"

definition sys_timerfd_create :: "os \<Rightarrow> fd \<times> os" where
  "sys_timerfd_create os = sys_new_fd os"

text \<open>A call on a descriptor that only succeeds or fails, with its effect on success.\<close>

definition sys_on_fd :: "fd \<Rightarrow> (os \<Rightarrow> os) \<Rightarrow> os \<Rightarrow> int \<times> os" where
  "sys_on_fd d f os =
     (if d \<in> set (fds os)
      then (let (ok, os1) = sys_try os in if ok then (0, f os1) else (- 1, os1))
      else (- 1, os))"

definition sys_connect :: "fd \<Rightarrow> u32 \<Rightarrow> u16 \<Rightarrow> os \<Rightarrow> int \<times> os" where
  "sys_connect d ip prt os = sys_on_fd d (\<lambda>os. os\<lparr>peer := (peer os)(d := Some (ip, prt))\<rparr>) os"

definition sys_bind :: "fd \<Rightarrow> u32 \<Rightarrow> u16 \<Rightarrow> os \<Rightarrow> int \<times> os" where
  "sys_bind d ip prt os = sys_on_fd d (\<lambda>os. os\<lparr>peer := (peer os)(d := Some (ip, prt))\<rparr>) os"

definition sys_listen :: "fd \<Rightarrow> os \<Rightarrow> int \<times> os" where
  "sys_listen d os = sys_on_fd d (\<lambda>os. os) os"

definition sys_setsockopt :: "fd \<Rightarrow> os \<Rightarrow> int \<times> os" where
  "sys_setsockopt d os = sys_on_fd d (\<lambda>os. os) os"

text \<open>\<open>timerfd_settime\<close> with a relative one-shot timeout in seconds.\<close>

definition sys_timerfd_settime :: "fd \<Rightarrow> nat \<Rightarrow> os \<Rightarrow> int \<times> os" where
  "sys_timerfd_settime d seconds os =
     sys_on_fd d (\<lambda>os. os\<lparr>armed := (armed os)(d := Some seconds)\<rparr>) os"

definition sys_fcntl_getfl :: "fd \<Rightarrow> os \<Rightarrow> u32 \<times> os" where
  "sys_fcntl_getfl d os =
     (if d \<in> set (fds os)
      then (let (ok, os1) = sys_try os in (if ok then fdflags os1 d else - 1, os1))
      else (- 1, os))"

definition sys_fcntl_setfl :: "fd \<Rightarrow> u32 \<Rightarrow> os \<Rightarrow> int \<times> os" where
  "sys_fcntl_setfl d fl os = sys_on_fd d (\<lambda>os. os\<lparr>fdflags := (fdflags os)(d := fl)\<rparr>) os"

text \<open>Closing a descriptor also removes it from the epoll interest list.\<close>

definition sys_close :: "fd \<Rightarrow> os \<Rightarrow> os" where
  "sys_close d os =
     (if d \<in> set (fds os)
      then os\<lparr>fds := removeAll d (fds os), interest := (interest os)(d := None),
              armed := (armed os)(d := None)\<rparr>
      else os)"

datatype epoll_op = EPOLL_CTL_ADD | EPOLL_CTL_DEL | EPOLL_CTL_MOD

definition sys_epoll_ctl :: "fd \<Rightarrow> epoll_op \<Rightarrow> fd \<Rightarrow> u32 \<Rightarrow> os \<Rightarrow> int \<times> os" where
  "sys_epoll_ctl epfd eop d events os =
     (case eop of
        EPOLL_CTL_DEL \<Rightarrow>
          (if interest os d = None then (- 1, os)
           else (0, os\<lparr>interest := (interest os)(d := None)\<rparr>))
      | _ \<Rightarrow> sys_on_fd d (\<lambda>os. os\<lparr>interest := (interest os)(d := Some events)\<rparr>) os)"

text \<open>
  \<open>write\<close>: the bytes the kernel accepts are appended to \<open>tx\<close>. \<open>Inl e\<close> stands for the
  return value \<open>-1\<close> with \<open>errno = e\<close>, \<open>Inr n\<close> for \<open>n\<close>.
\<close>

definition sys_write :: "fd \<Rightarrow> byte list \<Rightarrow> os \<Rightarrow> (errno + nat) \<times> os" where
  "sys_write d bs os =
     (if d \<notin> set (fds os) then (Inl EBADF, os)
      else case wscript os of
        [] \<Rightarrow> (Inr (length bs), os\<lparr>tx := (tx os)(d := tx os d @ bs)\<rparr>)
      | Accept n # ws \<Rightarrow>
          (Inr (min n (length bs)),
           os\<lparr>wscript := ws, tx := (tx os)(d := tx os d @ take n bs)\<rparr>)
      | Write_error e # ws \<Rightarrow> (Inl e, os\<lparr>wscript := ws\<rparr>))"

text \<open>
  \<open>read\<close> of at most \<open>n\<close> bytes from a non-blocking descriptor on which the arrivals \<open>as\<close>
  wait: \<open>Inl e\<close> for \<open>-1\<close> with \<open>errno = e\<close>, otherwise the bytes, and the arrivals that are
  left. What does not fit into \<open>n\<close> bytes stays for the next read.
\<close>

fun take_arrival :: "nat \<Rightarrow> arrival list \<Rightarrow> (errno + byte list) \<times> arrival list" where
  "take_arrival n [] = (Inl EAGAIN, [])"
| "take_arrival n (Chunk bs # as) =
     (Inr (take n bs), if length bs \<le> n then as else Chunk (drop n bs) # as)"
| "take_arrival n (Arrival_error e # as) = (Inl e, as)"

definition sys_read :: "fd \<Rightarrow> nat \<Rightarrow> arrival list \<Rightarrow> os \<Rightarrow> (errno + byte list) \<times> arrival list" where
  "sys_read d n as os = (if d \<in> set (fds os) then take_arrival n as else (Inl EBADF, as))"

text \<open>
  What a loop of reads gets from the arrivals: the bytes up to the first read that returns
  nothing or fails, and whether that read only says that there is nothing to read yet.
\<close>

fun arrived :: "arrival list \<Rightarrow> byte list" where
  "arrived [] = []"
| "arrived (Chunk bs # as) = (if bs = [] then [] else bs @ arrived as)"
| "arrived (Arrival_error e # as) = []"

fun try_again :: "arrival list \<Rightarrow> bool" where
  "try_again [] = True"
| "try_again (Chunk bs # as) = (bs \<noteq> [] \<and> try_again as)"
| "try_again (Arrival_error e # as) = (e = EAGAIN)"

fun arrivals_size :: "arrival list \<Rightarrow> nat" where
  "arrivals_size [] = 0"
| "arrivals_size (Chunk bs # as) = Suc (length bs) + arrivals_size as"
| "arrivals_size (Arrival_error e # as) = Suc (arrivals_size as)"

lemma take_arrival_decreases:
  "take_arrival n as = (Inr bs, as') \<Longrightarrow> bs \<noteq> [] \<Longrightarrow> arrivals_size as' < arrivals_size as"
  by (induction n as rule: take_arrival.induct) (auto split: if_splits)

lemma sys_read_decreases:
  "sys_read d n as os = (Inr bs, as') \<Longrightarrow> bs \<noteq> [] \<Longrightarrow> arrivals_size as' < arrivals_size as"
  by (auto simp: sys_read_def dest: take_arrival_decreases split: if_splits)

text \<open>\<open>malloc\<close> may fail; success once the list of outcomes is used up.\<close>

definition sys_malloc :: "os \<Rightarrow> bool \<times> os" where
  "sys_malloc os = (case mallocs os of [] \<Rightarrow> (True, os) | b # bs \<Rightarrow> (b, os\<lparr>mallocs := bs\<rparr>))"

section \<open>The wrappers of the library\<close>

definition messi_epoll_ctl_default :: "fd \<Rightarrow> epoll_op \<Rightarrow> fd \<Rightarrow> u32 \<Rightarrow> os \<Rightarrow> int \<times> os" where
  "messi_epoll_ctl_default epoll_fd eop d events os = sys_epoll_ctl epoll_fd eop d events os"

definition messi_make_non_blocking :: "fd \<Rightarrow> os \<Rightarrow> int \<times> os" where
  "messi_make_non_blocking d os =
     (let (fl, os1) = sys_fcntl_getfl d os in sys_fcntl_setfl d (fl OR O_NONBLOCK) os1)"

text \<open>
  The function pointer \<open>messi_epoll_ctl_t\<close>: the default, or a function of the user, of
  which the code only sees the result.
\<close>

datatype epoll_ctl_fn = Epoll_default | Epoll_user "fd \<Rightarrow> epoll_op \<Rightarrow> fd \<Rightarrow> u32 \<Rightarrow> int"

fun call_epoll_ctl :: "epoll_ctl_fn \<Rightarrow> fd \<Rightarrow> epoll_op \<Rightarrow> fd \<Rightarrow> u32 \<Rightarrow> os \<Rightarrow> int \<times> os" where
  "call_epoll_ctl Epoll_default epfd eop d events os = messi_epoll_ctl_default epfd eop d events os"
| "call_epoll_ctl (Epoll_user f) epfd eop d events os = (f epfd eop d events, os)"

section \<open>Effect on the fields\<close>

lemma sys_try_simps [os_simps]:
  "fds (snd (sys_try os)) = fds os" "interest (snd (sys_try os)) = interest os"
  "armed (snd (sys_try os)) = armed os" "fdflags (snd (sys_try os)) = fdflags os"
  "tx (snd (sys_try os)) = tx os" "peer (snd (sys_try os)) = peer os"
  "aton (snd (sys_try os)) = aton os" "wscript (snd (sys_try os)) = wscript os"
  "mallocs (snd (sys_try os)) = mallocs os"
  by (auto simp: sys_try_def split: list.splits)

lemma sys_try_Nil [os_simps]: "outcomes os = [] \<Longrightarrow> sys_try os = (True, os)"
  by (simp add: sys_try_def)

lemma sys_on_fd_snd:
  "snd (sys_on_fd d f os) \<in> {os, snd (sys_try os), f (snd (sys_try os))}"
  by (auto simp: sys_on_fd_def Let_def split: prod.splits)

lemma sys_on_fd_fst: "fst (sys_on_fd d f os) = 0 \<or> fst (sys_on_fd d f os) = - 1"
  by (auto simp: sys_on_fd_def Let_def split: prod.splits)

lemma sys_on_fd_ok:
  assumes "outcomes os = []" "d \<in> set (fds os)"
  shows "sys_on_fd d f os = (0, f os)"
  using assms by (simp add: sys_on_fd_def os_simps)

lemma fds_sys_on_fd:
  assumes "\<And>os. fds (f os) = fds os"
  shows "fds (snd (sys_on_fd d f os)) = fds os"
  using sys_on_fd_snd [of d f os] assms by (auto simp: os_simps)

lemma fds_sys_calls [os_simps]:
  "fds (snd (sys_connect d ip prt os)) = fds os"
  "fds (snd (sys_bind d ip prt os)) = fds os"
  "fds (snd (sys_listen d os)) = fds os"
  "fds (snd (sys_setsockopt d os)) = fds os"
  "fds (snd (sys_timerfd_settime d n os)) = fds os"
  "fds (snd (sys_fcntl_setfl d fl os)) = fds os"
  by (simp_all add: sys_connect_def sys_bind_def sys_listen_def sys_setsockopt_def
      sys_timerfd_settime_def sys_fcntl_setfl_def fds_sys_on_fd)

lemma fds_sys_fcntl_getfl [os_simps]: "fds (snd (sys_fcntl_getfl d os)) = fds os"
  by (auto simp: sys_fcntl_getfl_def Let_def os_simps split: prod.splits)
    (metis snd_conv sys_try_simps(1))+

lemma fds_make_non_blocking [os_simps]: "fds (snd (messi_make_non_blocking d os)) = fds os"
  by (simp add: messi_make_non_blocking_def os_simps split: prod.splits)
    (metis fds_sys_calls(6) fds_sys_fcntl_getfl snd_conv)

lemma fds_call_epoll_ctl [os_simps]: "fds (snd (call_epoll_ctl f epfd eop d ev os)) = fds os"
  by (cases f; cases eop)
    (auto simp: messi_epoll_ctl_default_def sys_epoll_ctl_def fds_sys_on_fd)

lemma fds_sys_write [os_simps]: "fds (snd (sys_write d bs os)) = fds os"
  by (auto simp: sys_write_def split: list.splits write_result.splits)

lemma fds_sys_close [os_simps]: "fds (sys_close d os) = removeAll d (fds os)"
  by (simp add: sys_close_def)

lemma sys_read_closed [os_simps]: "d \<notin> set (fds os) \<Longrightarrow> sys_read d n as os = (Inl EBADF, as)"
  by (simp add: sys_read_def)

lemma sys_write_closed [os_simps]: "d \<notin> set (fds os) \<Longrightarrow> sys_write d bs os = (Inl EBADF, os)"
  by (simp add: sys_write_def)

text \<open>A new descriptor is not open and is not \<open>-1\<close>.\<close>

lemma lowest_free_exists: "filter (\<lambda>n. int n \<notin> set xs) [0..<Suc (length xs)] \<noteq> []"
proof
  assume "filter (\<lambda>n. int n \<notin> set xs) [0..<Suc (length xs)] = []"
  then have "int ` {0..<Suc (length xs)} \<subseteq> set xs"
      by (auto simp: filter_empty_conv simp del: upt_Suc)
  then have "card (int ` {0..<Suc (length xs)}) \<le> card (set xs)"
    by (rule card_mono [rotated]) simp
  moreover have "card (int ` {0..<Suc (length xs)}) = Suc (length xs)"
    by (subst card_image) (auto simp: inj_on_def)
  ultimately show False
    using card_length [of xs] by simp
qed

lemma lowest_free: "lowest_free xs \<notin> set xs" "0 \<le> lowest_free xs"
proof -
  let ?ns = "filter (\<lambda>n. int n \<notin> set xs) [0..<Suc (length xs)]"
  have "?ns \<noteq> []" by (rule lowest_free_exists)
  then have "hd ?ns \<in> set ?ns" by (rule hd_in_set)
  then show "lowest_free xs \<notin> set xs" by (simp add: lowest_free_def del: upt_Suc)
  show "0 \<le> lowest_free xs" by (simp add: lowest_free_def)
qed

lemma lowest_free_least:
  assumes "0 \<le> d" "d \<notin> set xs"
  shows "lowest_free xs \<le> d"
proof -
  let ?ns = "filter (\<lambda>n. int n \<notin> set xs) [0..<Suc (length xs)]"
  have ne: "?ns \<noteq> []" by (rule lowest_free_exists)
  then have hd: "hd ?ns \<in> set ?ns" by (rule hd_in_set)
  have "sorted ?ns" by (intro sorted_wrt_filter) (simp del: upt_Suc)
  note least = sorted_hd_le [OF this]
  have "int (hd ?ns) \<le> d"
  proof (cases "nat d < Suc (length xs)")
    case True
    then have "nat d \<in> set ?ns" using assms by (simp del: upt_Suc)
    then have "hd ?ns \<le> nat d" by (rule least)
    then show ?thesis using assms by linarith
  next
    case False
    then show ?thesis using hd by (auto simp del: upt_Suc)
  qed
  then show ?thesis by (simp add: lowest_free_def)
qed

lemma lowest_free_cong: "set xs = set ys \<Longrightarrow> lowest_free xs = lowest_free ys"
  by (metis antisym lowest_free lowest_free_least)

lemma sys_new_fd_cases:
  obtains (failed) "fst (sys_new_fd os) = - 1" "snd (sys_new_fd os) = snd (sys_try os)"
  | (ok) "fst (sys_new_fd os) = lowest_free (fds os)"
      "fst (sys_new_fd os) \<notin> set (fds os)" "0 \<le> fst (sys_new_fd os)"
      "fds (snd (sys_new_fd os)) = fst (sys_new_fd os) # fds os"
proof -
  obtain b os1 where "sys_try os = (b, os1)" by (cases "sys_try os")
  moreover from this have "fds os1 = fds os" using sys_try_simps(1) [of os] by simp
  ultimately show ?thesis
    using that lowest_free [of "fds os"] by (cases b) (auto simp: sys_new_fd_def Let_def)
qed

text \<open>The same facts, for calls whose result is given as a pair.\<close>

lemma fds_results:
  "sys_socket os = (d, os1) \<Longrightarrow> d = - 1 \<and> fds os1 = fds os \<or>
     d = lowest_free (fds os) \<and> fds os1 = d # fds os"
  "sys_timerfd_create os = (d, os1) \<Longrightarrow> d = - 1 \<and> fds os1 = fds os \<or>
     d = lowest_free (fds os) \<and> fds os1 = d # fds os"
  "sys_connect e ip prt os = (res, os1) \<Longrightarrow> fds os1 = fds os"
  "messi_make_non_blocking e os = (res, os1) \<Longrightarrow> fds os1 = fds os"
  "call_epoll_ctl f epfd eop e ev os = (res, os1) \<Longrightarrow> fds os1 = fds os"
  "sys_timerfd_settime e n os = (res, os1) \<Longrightarrow> fds os1 = fds os"
  "sys_write e bs os = (wres, os1) \<Longrightarrow> fds os1 = fds os"
proof -
  have new: "d = - 1 \<and> fds os1 = fds os \<or> d = lowest_free (fds os) \<and> fds os1 = d # fds os"
    if "sys_new_fd os = (d, os1)"
    using that by (cases rule: sys_new_fd_cases [of os]) (auto simp: sys_try_simps)
  show "sys_socket os = (d, os1) \<Longrightarrow> d = - 1 \<and> fds os1 = fds os \<or>
      d = lowest_free (fds os) \<and> fds os1 = d # fds os"
    by (rule new) (simp add: sys_socket_def)
  show "sys_timerfd_create os = (d, os1) \<Longrightarrow> d = - 1 \<and> fds os1 = fds os \<or>
      d = lowest_free (fds os) \<and> fds os1 = d # fds os"
    by (rule new) (simp add: sys_timerfd_create_def)
qed (use os_simps in \<open>metis snd_conv\<close>)+

lemma lowest_free_Cons_greater:
  assumes "\<forall>d \<in> set xs. 0 \<le> d"
  shows "lowest_free xs < lowest_free (lowest_free xs # xs)"
proof -
  let ?d = "lowest_free (lowest_free xs # xs)"
  have "?d \<notin> set (lowest_free xs # xs)" "0 \<le> ?d"
    using lowest_free [of "lowest_free xs # xs"] by auto
  then have "lowest_free xs \<le> ?d" "?d \<noteq> lowest_free xs"
    using lowest_free_least [of ?d xs] by auto
  then show ?thesis by simp
qed

text \<open>What a call of \<open>write\<close> on an open descriptor does to the system.\<close>

lemma sys_write_Inr:
  assumes "sys_write d bs os = (Inr m, os')"
  shows "m \<le> length bs" "os' = os\<lparr>wscript := tl (wscript os), tx := (tx os)(d := tx os d @ take m bs)\<rparr>"
    "wscript os = [] \<Longrightarrow> m = length bs"
  using assms by (auto simp: sys_write_def min_def split: if_splits list.splits write_result.splits)

lemma sys_write_Inl:
  assumes "sys_write d bs os = (Inl e, os')" "d \<in> set (fds os)"
  shows "os' = os\<lparr>wscript := tl (wscript os)\<rparr>" "\<exists>ws. wscript os = Write_error e # ws"
  using assms by (auto simp: sys_write_def split: if_splits list.splits write_result.splits)

text \<open>A result after which the connection can be kept: some bytes, or \<open>EAGAIN\<close>.\<close>

fun soft_result :: "write_result \<Rightarrow> bool" where
  "soft_result (Accept n) = (0 < n)"
| "soft_result (Write_error e) = (e = EAGAIN)"

definition soft_writes :: "os \<Rightarrow> bool" where
  "soft_writes os \<longleftrightarrow> (\<forall>w \<in> set (wscript os). soft_result w)"

lemma soft_writes_tl: "soft_writes os \<Longrightarrow> soft_writes (os\<lparr>wscript := tl (wscript os), tx := t\<rparr>)"
  "soft_writes os \<Longrightarrow> soft_writes (os\<lparr>wscript := tl (wscript os)\<rparr>)"
  by (auto simp: soft_writes_def dest: list.set_sel(2) [rotated] split: list.split)
    (metis list.sel(2) list.set_sel(2) list.set(1) empty_iff)+

lemma soft_writes_result:
  assumes "soft_writes os" "d \<in> set (fds os)" "bs \<noteq> []"
  shows "sys_write d bs os = (Inr m, os') \<Longrightarrow> 0 < m" "sys_write d bs os = (Inl e, os') \<Longrightarrow> e = EAGAIN"
  using assms
  by (auto simp: sys_write_def soft_writes_def split: list.splits write_result.splits)

text \<open>No call but those that return a new descriptor adds to what the system has in store.\<close>

definition os_shrinks :: "os \<Rightarrow> os \<Rightarrow> bool" where
  "os_shrinks os os' \<longleftrightarrow> set (fds os') \<subseteq> set (fds os) \<and> set (wscript os') \<subseteq> set (wscript os) \<and>
     set (mallocs os') \<subseteq> set (mallocs os)"

lemma os_shrinks_refl [simp]: "os_shrinks os os"
  by (simp add: os_shrinks_def)

lemma os_shrinks_trans: "os_shrinks os os' \<Longrightarrow> os_shrinks os' os'' \<Longrightarrow> os_shrinks os os''"
  by (auto simp: os_shrinks_def)

lemma os_shrinks_fds: "os_shrinks os os' \<Longrightarrow> d \<in> set (fds os') \<Longrightarrow> d \<in> set (fds os)"
  by (auto simp: os_shrinks_def)

lemma os_shrinks_fields:
  "fds os' = fds os \<Longrightarrow> wscript os' = wscript os \<Longrightarrow> mallocs os' = mallocs os \<Longrightarrow> os_shrinks os os'"
  by (simp add: os_shrinks_def)

lemma set_tl_subset: "set (tl xs) \<subseteq> set xs"
  by (cases xs) auto

lemma sys_write_shrinks: "sys_write d bs os = (res, os') \<Longrightarrow> os_shrinks os os'"
  by (auto simp: sys_write_def os_shrinks_def split: if_splits list.splits write_result.splits)

lemma sys_malloc_shrinks: "sys_malloc os = (ok, os') \<Longrightarrow> os_shrinks os os'"
  by (auto simp: sys_malloc_def os_shrinks_def split: list.splits)

lemma sys_on_fd_shrinks:
  assumes "\<And>os. fds (f os) = fds os \<and> wscript (f os) = wscript os \<and> mallocs (f os) = mallocs os"
  shows "os_shrinks os (snd (sys_on_fd d f os))"
  using sys_on_fd_snd [of d f os] assms by (auto simp: os_shrinks_def sys_try_simps)

lemma sys_close_shrinks: "os_shrinks os (sys_close d os)"
  by (auto simp: sys_close_def os_shrinks_def)

lemma call_epoll_ctl_shrinks: "os_shrinks os (snd (call_epoll_ctl f epfd eop d ev os))"
proof (cases f)
  case Epoll_default
  then show ?thesis
    by (cases eop) (simp_all add: messi_epoll_ctl_default_def sys_epoll_ctl_def sys_on_fd_shrinks os_shrinks_fields)
qed simp

lemma sys_timerfd_settime_shrinks: "os_shrinks os (snd (sys_timerfd_settime d n os))"
  by (simp add: sys_timerfd_settime_def sys_on_fd_shrinks)

text \<open>Nothing that the system has in store makes a connection break or memory run out.\<close>

definition smooth :: "os \<Rightarrow> bool" where
  "smooth os \<longleftrightarrow> soft_writes os \<and> (\<forall>b \<in> set (mallocs os). b)"

lemma smooth_shrinks: "os_shrinks os os' \<Longrightarrow> smooth os \<Longrightarrow> smooth os'"
  unfolding smooth_def os_shrinks_def soft_writes_def by blast

lemma smooth_malloc: "smooth os \<Longrightarrow> fst (sys_malloc os)"
  by (auto simp: smooth_def sys_malloc_def split: list.split)

end
