(* ===== verification/Input.thy ===== *)
theory Input
  imports Os
begin

text \<open>
  The input buffer that clients and servers keep for one connection: the \<open>input.encoded\<close>
  part of \<open>struct NAME_client_t\<close> and the \<open>input\<close> part of \<open>struct NAME_server_client_t\<close>. A
  message is read in two rounds, first the header (state \<open>Header\<close>), then as many bytes as
  the header says (state \<open>Payload\<close>).

  The loops that read from a socket are defined with the client and with the server. What
  they have in common is stated here as the interface \<open>frame_receiver\<close>, for which it is
  proved once that the way the byte stream is cut into pieces does not matter and that a
  stream of well-formed frames is handed over frame by frame.
\<close>

section \<open>State\<close>

datatype in_state = Header | Payload

text \<open>
  \<open>i_buf\<close> is the memory at \<open>data.buf_p\<close> and \<open>i_cap\<close> is \<open>data.size\<close>. The ghost \<open>i_overrun\<close>
  records that bytes were stored outside of that memory.
\<close>

record input =
  i_buf :: "byte list"
  i_cap :: nat
  i_size :: nat
  i_left :: nat
  i_state :: in_state
  i_overrun :: bool

text \<open>\<open>reset_input_encoded\<close> and \<open>client_reset_input\<close> are this assignment.\<close>

definition input_reset :: "input \<Rightarrow> input" where
  "input_reset i = i\<lparr>i_state := Header, i_size := 0, i_left := header_sizeof\<rparr>"

text \<open>\<open>bs\<close> was read into the buffer at offset \<open>size\<close>; \<open>size\<close> and \<open>left\<close> are adjusted.\<close>

definition input_read :: "byte list \<Rightarrow> input \<Rightarrow> input" where
  "input_read bs i =
     i\<lparr>i_buf := buf_write (i_size i) bs (i_buf i),
       i_size := i_size i + length bs, i_left := i_left i - length bs,
       i_overrun := (i_overrun i \<or> length (i_buf i) < i_size i + length bs)\<rparr>"

definition input_header :: "input \<Rightarrow> messi_header" where
  "input_header i = header_at (i_buf i)"

text \<open>
  What the loops do once \<open>left\<close> is zero: after the header, \<open>left\<close> becomes the size of the
  payload, which must fit behind the header; a complete message is ready to be handled.
\<close>

datatype progress = Too_big input | More input | Ready input

definition input_complete :: "input \<Rightarrow> progress" where
  "input_complete i =
     (if i_state i = Header
      then (let i1 = i\<lparr>i_left := unat (messi_header_get_size (input_header i))\<rparr>
            in if i_left i1 + header_sizeof > i_cap i1 then Too_big i1
               else (let i2 = i1\<lparr>i_state := Payload\<rparr>
                     in if i_left i2 = 0 then Ready i2 else More i2))
      else Ready i)"

section \<open>Invariant\<close>

definition input_ok :: "input \<Rightarrow> bool" where
  "input_ok i \<longleftrightarrow>
     length (i_buf i) = i_cap i \<and> header_sizeof \<le> i_cap i \<and> \<not> i_overrun i \<and> 0 < i_left i \<and>
     (case i_state i of
        Header \<Rightarrow> i_size i + i_left i = header_sizeof
      | Payload \<Rightarrow>
          header_sizeof \<le> i_size i \<and> i_size i + i_left i \<le> i_cap i \<and>
          i_size i + i_left i =
            header_sizeof + unat (messi_header_get_size (input_header i)))"

definition input_fresh :: "input \<Rightarrow> bool" where
  "input_fresh i \<longleftrightarrow> input_ok i \<and> i_state i = Header \<and> i_size i = 0"

lemma input_reset_simps [simp]:
  "i_buf (input_reset i) = i_buf i" "i_cap (input_reset i) = i_cap i"
  "i_size (input_reset i) = 0" "i_left (input_reset i) = header_sizeof"
  "i_state (input_reset i) = Header" "i_overrun (input_reset i) = i_overrun i"
  by (simp_all add: input_reset_def)

lemma input_read_simps [simp]:
  "i_cap (input_read bs i) = i_cap i"
  "i_size (input_read bs i) = i_size i + length bs"
  "i_left (input_read bs i) = i_left i - length bs"
  "i_state (input_read bs i) = i_state i"
  "i_buf (input_read bs i) = buf_write (i_size i) bs (i_buf i)"
  by (simp_all add: input_read_def)

lemma header_sizeof_pos [simp]: "0 < header_sizeof"
  by (simp add: header_sizeof_def)

lemma input_reset_fresh:
  assumes "length (i_buf i) = i_cap i" "header_sizeof \<le> i_cap i" "\<not> i_overrun i"
  shows "input_fresh (input_reset i)"
  using assms by (simp add: input_fresh_def input_ok_def)

lemma input_read_Nil [simp]: "input_read [] i = i \<longleftrightarrow> (length (i_buf i) < i_size i \<longrightarrow> i_overrun i)"
  by (cases i) (auto simp: input_read_def)

lemma input_read_append:
  assumes "i_size i \<le> length (i_buf i)"
  shows "input_read (xs @ ys) i = input_read ys (input_read xs i)"
  using assms by (cases i) (auto simp: input_read_def buf_write_append buf_write_def ac_simps)

text \<open>A buffer in order has room for what is left to read.\<close>

lemma input_ok_room: "input_ok i \<Longrightarrow> i_size i + i_left i \<le> length (i_buf i)"
  by (auto simp: input_ok_def split: in_state.splits)

lemma header_at_buf_write_high:
  assumes "header_sizeof \<le> off" "off \<le> length buf"
  shows "header_at (buf_write off bs buf) = header_at buf"
  using assms by (simp add: header_at_def buf_write_def nth_append header_sizeof_def)

lemma input_read_ok:
  assumes "input_ok i" "length bs < i_left i"
  shows "input_ok (input_read bs i)"
proof -
  have room: "i_size i + length bs \<le> length (i_buf i)"
    using input_ok_room [OF assms(1)] assms(2) by simp
  have "i_state i = Payload \<Longrightarrow> input_header (input_read bs i) = input_header i"
    using assms room
    by (auto simp: input_header_def input_ok_def intro!: header_at_buf_write_high)
  then show ?thesis
    using assms room
    by (auto simp: input_ok_def input_read_def input_header_def split: in_state.splits)
qed

lemma input_read_no_overrun:
  assumes "input_ok i" "length bs \<le> i_left i"
  shows "\<not> i_overrun (input_read bs i)" "length (i_buf (input_read bs i)) = i_cap i"
proof -
  have room: "i_size i + length bs \<le> length (i_buf i)"
    using input_ok_room [OF assms(1)] assms(2) by simp
  then show "\<not> i_overrun (input_read bs i)"
    using assms(1) by (simp add: input_read_def input_ok_def)
  show "length (i_buf (input_read bs i)) = i_cap i"
    using room assms(1) by (simp add: input_ok_def)
qed

text \<open>The memory of a buffer of \<open>n\<close> bytes, also when no message is being read into it.\<close>

definition input_mem :: "nat \<Rightarrow> input \<Rightarrow> bool" where
  "input_mem n i \<longleftrightarrow> length (i_buf i) = n \<and> i_cap i = n \<and> \<not> i_overrun i"

lemma input_mem_reset [simp]: "input_mem n (input_reset i) = input_mem n i"
  by (simp add: input_mem_def)

lemma input_mem_fresh: "input_mem n i \<Longrightarrow> header_sizeof \<le> n \<Longrightarrow> input_fresh (input_reset i)"
  by (auto simp: input_mem_def intro: input_reset_fresh)

lemma input_mem_read:
  assumes "input_ok i" "length bs \<le> i_left i" "input_mem n i"
  shows "input_mem n (input_read bs i)"
  using input_read_no_overrun [OF assms(1,2)] assms(3) by (simp add: input_mem_def)

lemma input_mem_complete:
  "input_complete i = Too_big j \<Longrightarrow> input_mem n j = input_mem n i"
  "input_complete i = More j \<Longrightarrow> input_mem n j = input_mem n i"
  "input_complete i = Ready j \<Longrightarrow> input_mem n j = input_mem n i"
  by (auto simp: input_complete_def input_mem_def Let_def split: if_splits)

section \<open>Frames\<close>

text \<open>A frame on the wire: the header that \<open>messi_header_create\<close> makes, then the payload.\<close>

definition frame :: "byte \<times> byte list \<Rightarrow> byte list" where
  "frame f =
     header_bytes (messi_header_create (header_at (replicate 4 0)) (fst f) (of_nat (length (snd f))))
     @ snd f"

text \<open>The input buffer once the frame \<open>f\<close> is complete.\<close>

definition input_loaded :: "byte \<times> byte list \<Rightarrow> input \<Rightarrow> input" where
  "input_loaded f i =
     i\<lparr>i_buf := buf_write 0 (frame f) (i_buf i), i_size := length (frame f), i_left := 0,
       i_state := Payload\<rparr>"

text \<open>The input buffer after the header of a frame that is too long for it.\<close>

definition input_oversized :: "byte \<times> byte list \<Rightarrow> input \<Rightarrow> input" where
  "input_oversized f i =
     i\<lparr>i_buf := buf_write 0 (take header_sizeof (frame f)) (i_buf i),
       i_size := header_sizeof, i_left := length (snd f)\<rparr>"

lemma length_frame [simp]: "length (frame f) = header_sizeof + length (snd f)"
  by (simp add: frame_def)

lemma take_frame [simp]:
  "take header_sizeof (frame f) =
     header_bytes (messi_header_create (header_at (replicate 4 0)) (fst f) (of_nat (length (snd f))))"
  by (simp add: frame_def)

lemma drop_frame [simp]: "drop header_sizeof (frame f) = snd f"
  by (simp add: frame_def)

lemma frame_split: "frame f = take header_sizeof (frame f) @ snd f"
  by (metis append_take_drop_id drop_frame)

lemma header_at_frame [simp]:
  "header_at (buf_write 0 (frame f) buf) =
     messi_header_create (header_at (replicate 4 0)) (fst f) (of_nat (length (snd f)))"
  by (simp add: frame_def)

lemma frame_payload_size:
  assumes "length (snd f) < 2 ^ 24"
  shows "unat (messi_header_get_size (header_at (buf_write 0 (frame f) buf))) = length (snd f)"
  using assms by (simp add: unat_get_create_size)

lemma input_loaded_simps [simp]:
  "i_cap (input_loaded f i) = i_cap i" "i_overrun (input_loaded f i) = i_overrun i"
  "i_size (input_loaded f i) = header_sizeof + length (snd f)" "i_left (input_loaded f i) = 0"
  "i_state (input_loaded f i) = Payload"
  "i_buf (input_loaded f i) = buf_write 0 (frame f) (i_buf i)"
  by (simp_all add: input_loaded_def)

lemma input_loaded_payload:
  "take (i_size (input_loaded f i) - header_sizeof)
     (drop header_sizeof (i_buf (input_loaded f i))) = snd f"
  by (simp add: buf_write_def)

lemma input_loaded_type: "header_type (input_header (input_loaded f i)) = fst f"
  by (simp add: input_header_def)

lemma input_complete_header:
  assumes "input_fresh i" "length (snd f) < 2 ^ 24"
  shows "input_complete (input_read (take header_sizeof (frame f)) i) =
     (if i_cap i < header_sizeof + length (snd f) then Too_big (input_oversized f i)
      else if snd f = [] then Ready (input_loaded f i)
      else More ((input_oversized f i)\<lparr>i_state := Payload\<rparr>))"
proof -
  have fits: "header_sizeof \<le> length (i_buf i)" and ov: "\<not> i_overrun i"
    and st: "i_state i = Header" "i_size i = 0"
    using assms(1) by (auto simp: input_fresh_def input_ok_def)
  have rd: "input_read (take header_sizeof (frame f)) i =
      i\<lparr>i_buf := buf_write 0 (take header_sizeof (frame f)) (i_buf i),
        i_size := header_sizeof, i_left := i_left i - header_sizeof\<rparr>"
    using fits ov st by (simp add: input_read_def)
  have hd: "input_header (input_read (take header_sizeof (frame f)) i) =
      messi_header_create (header_at (replicate 4 0)) (fst f) (of_nat (length (snd f)))"
    using header_at_buf_write [of _ "[]"] by (simp add: input_header_def st)
  have sz: "unat (messi_header_get_size (input_header (input_read (take header_sizeof (frame f)) i))) =
      length (snd f)"
    by (simp only: hd unat_get_create_size [OF assms(2)])
  show ?thesis
    unfolding input_complete_def Let_def sz
    unfolding rd
    by (simp add: st input_oversized_def input_loaded_def del: take_frame)
qed

lemma input_complete_payload:
  assumes "input_fresh i" "length (snd f) < 2 ^ 24" "header_sizeof + length (snd f) \<le> i_cap i"
  shows "input_read (snd f) ((input_oversized f i)\<lparr>i_state := Payload\<rparr>) = input_loaded f i"
proof -
  have "header_sizeof \<le> length (i_buf i)" "\<not> i_overrun i" "length (i_buf i) = i_cap i"
    using assms(1) by (auto simp: input_fresh_def input_ok_def)
  moreover from this have "buf_write header_sizeof (snd f)
      (buf_write 0 (take header_sizeof (frame f)) (i_buf i)) = buf_write 0 (frame f) (i_buf i)"
    using buf_write_append [of 0 "i_buf i" "take header_sizeof (frame f)" "snd f"]
    by (simp add: frame_split [symmetric] del: take_frame)
  ultimately show ?thesis
    using assms(3) by (simp add: input_read_def input_oversized_def input_loaded_def)
qed

text \<open>Whatever was read last, completing a message keeps the buffer in order.\<close>

lemma input_complete_ok:
  assumes "input_ok i" "length bs = i_left i"
  shows "input_complete (input_read bs i) = More j \<Longrightarrow> input_ok j"
    and "input_complete (input_read bs i) = Ready j \<Longrightarrow> input_fresh (input_reset j)"
    and "input_complete (input_read bs i) = Too_big j \<Longrightarrow> \<not> i_overrun j"
  using assms input_read_no_overrun [OF assms(1), of bs]
  by (auto simp: input_complete_def input_ok_def input_header_def Let_def
      intro!: input_reset_fresh split: if_splits in_state.splits)

section \<open>The interface of a receiving loop\<close>

text \<open>
  A receiver of frames: \<open>inp\<close> and \<open>set_inp\<close> give access to its input buffer, \<open>inv\<close>
  is what it relies on, \<open>alive\<close> says that it may still read, \<open>too_big\<close> is what it does when a
  frame does not fit and \<open>dispatch\<close> how it handles a complete message (afterwards it is ready for
  the next header, or gone).
\<close>

fun push_back :: "nat \<Rightarrow> byte list \<Rightarrow> arrival list \<Rightarrow> arrival list" where
  "push_back n bs as = (if length bs \<le> n then as else Chunk (drop n bs) # as)"

locale frame_machine =
  fixes inp :: "'s \<Rightarrow> input"
    and set_inp :: "input \<Rightarrow> 's \<Rightarrow> 's"
    and inv :: "'s \<Rightarrow> bool"
    and alive :: "'s \<Rightarrow> bool"
    and too_big :: "'s \<Rightarrow> 's"
    and dispatch :: "'s \<Rightarrow> 's"
  assumes inp_set: "inp (set_inp i s) = i"
    and set_set: "set_inp i (set_inp j s) = set_inp i s"
    and set_inp_inp: "set_inp (inp s) s = s"
    and alive_set: "alive (set_inp i s) = alive s"
    and inv_set: "inv (set_inp i s) = inv s"
    and inv_dispatch: "inv s \<Longrightarrow> inv (dispatch s)"
    and inp_too_big: "inp (too_big s) = inp s"
    and dead_too_big: "inv s \<Longrightarrow> \<not> alive (too_big s)"
    and inp_dispatch: "inp (dispatch s) = inp s \<or> inp (dispatch s) = input_reset (inp s)"
    and alive_dispatch: "inv s \<Longrightarrow> alive (dispatch s) \<Longrightarrow> inp (dispatch s) = input_reset (inp s)"
begin

definition complete :: "'s \<Rightarrow> 's" where
  "complete s =
     (case input_complete (inp s) of
        Too_big i \<Rightarrow> too_big (set_inp i s)
      | More i \<Rightarrow> set_inp i s
      | Ready i \<Rightarrow> dispatch (set_inp i s))"

text \<open>The receiver as a machine that takes one byte at a time.\<close>

definition feed :: "byte \<Rightarrow> 's \<Rightarrow> 's" where
  "feed b s =
     (if alive s
      then (let s1 = set_inp (input_read [b] (inp s)) s
            in if 0 < i_left (inp s1) then s1 else complete s1)
      else s)"

text \<open>The receiver as a machine that takes one frame at a time.\<close>

definition deliver :: "byte \<times> byte list \<Rightarrow> 's \<Rightarrow> 's" where
  "deliver f s =
     (if \<not> alive s then s
      else if i_cap (inp s) < header_sizeof + length (snd f)
           then too_big (set_inp (input_oversized f (inp s)) s)
           else dispatch (set_inp (input_loaded f (inp s)) s))"

lemma fold_feed_dead: "\<not> alive s \<Longrightarrow> fold feed bs s = s"
  by (induction bs) (simp_all add: feed_def)

lemma fold_deliver_dead: "\<not> alive s \<Longrightarrow> fold deliver fs s = s"
  by (induction fs) (simp_all add: deliver_def)

text \<open>A piece that does not go beyond the current round, fed byte by byte.\<close>

lemma fold_feed_piece:
  assumes "alive s" "input_ok (inp s)" "bs \<noteq> []" "length bs \<le> i_left (inp s)"
  shows "fold feed bs s =
    (let s1 = set_inp (input_read bs (inp s)) s
     in if 0 < i_left (inp s1) then s1 else complete s1)"
  using assms
proof (induction bs arbitrary: s)
  case Nil
  then show ?case by simp
next
  case (Cons b bs)
  show ?case
  proof (cases "bs = []")
    case True
    then show ?thesis using Cons.prems by (simp add: feed_def)
  next
    case False
    let ?s = "set_inp (input_read [b] (inp s)) s"
    have lt: "length [b] < i_left (inp s)"
      using Cons.prems(4) False by (cases bs) auto
    have sz: "i_size (inp s) \<le> length (i_buf (inp s))"
      using input_ok_room [OF Cons.prems(2)] by simp
    have "feed b s = ?s"
      using Cons.prems(1) lt by (simp add: feed_def inp_set)
    moreover have "input_ok (inp ?s)"
      using input_read_ok [OF Cons.prems(2) lt] by (simp add: inp_set)
    moreover have "alive ?s" "length bs \<le> i_left (inp ?s)"
      using Cons.prems lt by (simp_all add: alive_set inp_set)
    moreover have "input_read bs (inp ?s) = input_read (b # bs) (inp s)"
      using input_read_append [OF sz, of "[b]" bs] by (simp add: inp_set)
    ultimately show ?thesis
      using Cons.IH [of ?s] False by (simp add: set_set)
  qed
qed

text \<open>While the receiver is alive its buffer stays in order.\<close>

lemma complete_ok:
  assumes "input_ok i" "length bs = i_left i" "inp s = input_read bs i" "inv s"
  shows "alive (complete s) \<Longrightarrow> input_ok (inp (complete s))"
    and "\<not> i_overrun (inp (complete s))"
proof -
  note ok = input_complete_ok [OF assms(1,2)]
  have Ready: "input_ok (input_reset j)" "\<not> i_overrun j" if "input_complete (inp s) = Ready j" for j
    using ok(2) [of j] that assms(3) by (simp_all add: input_fresh_def input_ok_def)
  show "alive (complete s) \<Longrightarrow> input_ok (inp (complete s))"
    using ok(1) Ready assms(3,4) dead_too_big alive_dispatch inv_set
    by (auto simp: complete_def inp_set split: progress.splits)
  have disp: "\<not> i_overrun (inp (dispatch (set_inp j s)))" if "\<not> i_overrun j" for j
    using inp_dispatch [of "set_inp j s"] that by (auto simp: inp_set)
  show "\<not> i_overrun (inp (complete s))"
    using ok(1,3) Ready(2) disp assms(3)
    by (auto simp: complete_def inp_set inp_too_big input_ok_def split: progress.splits)
qed

lemma inv_complete: "inv s \<Longrightarrow> alive (complete s) \<Longrightarrow> inv (complete s)"
  by (auto simp: complete_def inv_set inv_dispatch dead_too_big split: progress.splits)

lemma inv_feed: "inv s \<Longrightarrow> alive (feed b s) \<Longrightarrow> inv (feed b s)"
  by (auto simp: feed_def inv_set inv_complete Let_def split: if_splits)

lemma feed_ok:
  assumes "alive s" "input_ok (inp s)" "inv s"
  shows "alive (feed b s) \<Longrightarrow> input_ok (inp (feed b s))" and "\<not> i_overrun (inp (feed b s))"
proof -
  let ?s = "set_inp (input_read [b] (inp s)) s"
  have full: "length [b] = i_left (inp s)" if "\<not> 0 < i_left (inp ?s)"
    using that assms(2) by (auto simp: inp_set input_ok_def)
  note c = complete_ok [OF assms(2) full, of ?s]
  have inv: "inv ?s" using assms(3) by (simp add: inv_set)
  show "alive (feed b s) \<Longrightarrow> input_ok (inp (feed b s))"
    using c(1) input_read_ok [OF assms(2), of "[b]"] assms(1) inv
    by (auto simp: feed_def inp_set Let_def split: if_splits)
  show "\<not> i_overrun (inp (feed b s))"
    using c(2) input_read_ok [OF assms(2), of "[b]"] assms(1) inv
    by (auto simp: feed_def inp_set Let_def input_ok_def split: if_splits)
qed

text \<open>What holds before and after every byte.\<close>

definition sound :: "'s \<Rightarrow> bool" where
  "sound s \<longleftrightarrow> (alive s \<longrightarrow> input_ok (inp s) \<and> inv s) \<and> \<not> i_overrun (inp s)"

lemma fold_feed_ok:
  assumes "sound s"
  shows "sound (fold feed bs s)"
  using assms
proof (induction bs arbitrary: s)
  case Nil
  then show ?case by simp
next
  case (Cons b bs)
  have "sound (feed b s)"
    using Cons.prems feed_ok [of s b] inv_feed [of s b]
    by (cases "alive s") (auto simp: feed_def sound_def)
  then show ?case using Cons.IH [of "feed b s"] by simp
qed

text \<open>The memory of the buffer stays what it is, whether the receiver is alive or not.\<close>

lemma feed_mem:
  assumes "sound s" "input_mem n (inp s)"
  shows "input_mem n (inp (feed b s))"
proof (cases "alive s")
  case True
  then have ok: "input_ok (inp s)" using assms(1) by (simp add: sound_def)
  then have "length [b] \<le> i_left (inp s)" by (auto simp: input_ok_def)
  note m = input_mem_read [OF ok this assms(2)]
  have disp: "input_mem n (inp (dispatch (set_inp j t))) = input_mem n j" for j t
    using inp_dispatch [of "set_inp j t"] by (auto simp: inp_set)
  show ?thesis
    using True m input_mem_complete [of "input_read [b] (inp s)"]
    by (auto simp: feed_def complete_def inp_set inp_too_big disp Let_def split: progress.split)
qed (simp add: feed_def assms(2))

lemma fold_feed_mem: "sound s \<Longrightarrow> input_mem n (inp s) \<Longrightarrow> input_mem n (inp (fold feed bs s))"
proof (induction bs arbitrary: s)
  case (Cons b bs)
  then show ?case using feed_mem [of s n b] fold_feed_ok [of s "[b]"] by simp
qed simp

end

context frame_machine
begin

lemma deliver_fresh:
  assumes "alive (deliver f s)" "input_fresh (inp s)" "inv s"
  shows "input_fresh (inp (deliver f s))" and "inv (deliver f s)"
proof -
  have fit: "header_sizeof + length (snd f) \<le> i_cap (inp s)" "alive s"
    using assms(1,3) dead_too_big by (auto simp: deliver_def inv_set split: if_splits)
  then show "inv (deliver f s)"
    using assms(3) by (simp add: deliver_def inv_dispatch inv_set)
  from fit have "inp (deliver f s) = input_reset (input_loaded f (inp s))"
    using assms(1,3) alive_dispatch by (auto simp: deliver_def inp_set inv_set split: if_splits)
  then show "input_fresh (inp (deliver f s))"
    using assms(2) fit by (auto simp: input_fresh_def input_ok_def intro!: input_reset_fresh)
qed

lemma fold_feed_frame:
  assumes "alive s" "input_fresh (inp s)" "length (snd f) < 2 ^ 24" "inv s"
  shows "fold feed (frame f) s = deliver f s"
proof -
  have ok: "input_ok (inp s)" and left: "i_left (inp s) = header_sizeof"
    using assms(2) by (auto simp: input_fresh_def input_ok_def)
  let ?h = "take header_sizeof (frame f)"
  let ?s = "set_inp (input_read ?h (inp s)) s"
  let ?m = "(input_oversized f (inp s))\<lparr>i_state := Payload\<rparr>"
  have len: "length ?h = header_sizeof" "?h \<noteq> []"
    by (auto simp: header_sizeof_def header_bytes_def frame_def)
  have hdr: "fold feed ?h s = complete ?s"
    using fold_feed_piece [OF assms(1) ok len(2)] len left
    by (simp add: inp_set del: take_frame)
  note ic = input_complete_header [OF assms(2,3)]
  have split: "fold feed (frame f) s = fold feed (snd f) (complete ?s)"
    by (subst frame_split) (simp add: hdr del: take_frame)
  show ?thesis
  proof (cases "i_cap (inp s) < header_sizeof + length (snd f) \<or> snd f = []")
    case True
    then show ?thesis
      using assms(1,4) unfolding split
      by (auto simp: complete_def inp_set inv_set ic deliver_def set_set dead_too_big fold_feed_dead
          simp del: take_frame)
  next
    case False
    then have fit: "header_sizeof + length (snd f) \<le> i_cap (inp s)" and ne: "snd f \<noteq> []" by auto
    have m: "complete ?s = set_inp ?m s"
      using False by (simp add: complete_def inp_set ic set_set del: take_frame)
    have mok: "input_ok ?m"
      using input_complete_ok(1) [OF ok, of ?h ?m] False len left by (simp add: ic del: take_frame)
    have ml: "length (snd f) = i_left ?m" by (simp add: input_oversized_def)
    have "fold feed (snd f) (set_inp ?m s) = complete (set_inp (input_loaded f (inp s)) s)"
      using fold_feed_piece [of "set_inp ?m s" "snd f"] assms(1) mok ne ml
        input_complete_payload [OF assms(2,3) fit]
      by (simp add: alive_set inp_set set_set)
    then show ?thesis
      using assms(1) fit unfolding split m
      by (simp add: complete_def inp_set input_complete_def deliver_def set_set)
  qed
qed

theorem fold_feed_frames:
  assumes "alive s \<Longrightarrow> input_fresh (inp s) \<and> inv s" "\<forall>f \<in> set fs. length (snd f) < 2 ^ 24"
  shows "fold feed (concat (map frame fs)) s = fold deliver fs s"
  using assms
proof (induction fs arbitrary: s)
  case Nil
  then show ?case by simp
next
  case (Cons f fs)
  show ?case
  proof (cases "alive s")
    case False
    then show ?thesis
      using fold_deliver_dead [OF False, of "f # fs"] by (simp add: fold_feed_dead)
  next
    case True
    then have fresh: "input_fresh (inp s)" "inv s" using Cons.prems(1) by auto
    have "fold feed (frame f) s = deliver f s"
      using True fresh Cons.prems(2) by (intro fold_feed_frame) auto
    then show ?thesis
      using Cons.IH [of "deliver f s"] deliver_fresh [OF _ fresh] Cons.prems(2) by simp
  qed
qed

end

section \<open>Loops that read a socket\<close>

text \<open>
  A loop that reads until the socket would block, is closed or fails: the frame machine of a
  connection, and what the loop does for each of the ways a read may end.
\<close>

locale frame_receiver = frame_machine +
  fixes closed :: "'a \<Rightarrow> 'a"
    and loop :: "arrival list \<Rightarrow> 'a \<Rightarrow> 'a"
  assumes inp_closed: "inp (closed s) = inp s"
    and closed_too_big: "closed (too_big s) = too_big s"
    and loop_dead: "\<not> alive s \<Longrightarrow> loop as s = closed s"
    and loop_nil: "alive s \<Longrightarrow> loop [] s = s"
    and loop_eof: "alive s \<Longrightarrow> loop (Chunk [] # as) s = closed s"
    and loop_error: "alive s \<Longrightarrow>
      loop (Arrival_error e # as) s = (if e = EAGAIN then s else closed s)"
    and loop_chunk: "inv s \<Longrightarrow> alive s \<Longrightarrow> bs \<noteq> [] \<Longrightarrow> 0 < i_left (inp s) \<Longrightarrow> n = min (i_left (inp s)) (length bs) \<Longrightarrow>
      s1 = set_inp (input_read (take n bs) (inp s)) s \<Longrightarrow>
      loop (Chunk bs # as) s =
        (if 0 < i_left (inp s1) then loop (push_back n bs as) s1
         else case input_complete (inp s1) of
             Too_big i \<Rightarrow> too_big (set_inp i s1)
           | More i \<Rightarrow> loop (push_back n bs as) (set_inp i s1)
           | Ready i \<Rightarrow> loop (push_back n bs as) (dispatch (set_inp i s1)))"
begin

text \<open>
  The end of a call of the loop: a read that finds nothing yet, or one that finds the end of
  the stream, an error or no descriptor.
\<close>

definition finish :: "bool \<Rightarrow> 'a \<Rightarrow> 'a" where
  "finish again s = (if alive s \<and> again then s else closed s)"

text \<open>
  One step of the loop is a step of the byte machine: with a first piece \<open>bs\<close>, the loop
  goes on with what follows from the bytes it has taken.
\<close>

lemma loop_step:
  assumes "alive s" "input_ok (inp s)" "inv s" "bs \<noteq> []" "n = min (i_left (inp s)) (length bs)"
  shows "loop (Chunk bs # as) s =
    (let s1 = fold feed (take n bs) s in
     if alive s1 then loop (push_back n bs as) s1
     else (if closed s1 = s1 then s1 else loop (push_back n bs as) s1))"
proof -
  have n: "0 < i_left (inp s)" "take n bs \<noteq> []" "length (take n bs) \<le> i_left (inp s)"
    using assms by (auto simp: input_ok_def)
  let ?s = "set_inp (input_read (take n bs) (inp s)) s"
  have f: "fold feed (take n bs) s = (if 0 < i_left (inp ?s) then ?s else complete ?s)"
    using fold_feed_piece [OF assms(1,2) n(2,3)] by (simp add: Let_def)
  have l: "loop (Chunk bs # as) s =
      (if 0 < i_left (inp ?s) then loop (push_back n bs as) ?s
       else case input_complete (inp ?s) of
           Too_big i \<Rightarrow> too_big (set_inp i ?s)
         | More i \<Rightarrow> loop (push_back n bs as) (set_inp i ?s)
         | Ready i \<Rightarrow> loop (push_back n bs as) (dispatch (set_inp i ?s)))"
    by (rule loop_chunk [OF assms(3,1,4) n(1) assms(5) refl])
  show ?thesis
    unfolding l f using assms(1,3)
    by (auto simp: complete_def alive_set inv_set dead_too_big closed_too_big loop_dead Let_def
        split: progress.splits)
qed

text \<open>
  The loop, completely: whatever arrives in whatever pieces, it does what the byte machine
  does with the bytes, and ends as the last read tells it to.
\<close>

theorem loop_feed:
  assumes "sound s"
  shows "loop as s = finish (try_again as) (fold feed (arrived as) s)"
  using assms
proof (induction "arrivals_size as" arbitrary: as s rule: less_induct)
  case less
  show ?case
  proof (cases "alive s \<and> (\<exists>bs as'. as = Chunk bs # as' \<and> bs \<noteq> [])")
    case False
    then show ?thesis
      by (cases "alive s"; cases as rule: arrived.cases)
        (auto simp: finish_def loop_dead loop_nil loop_eof loop_error fold_feed_dead)
  next
    case True
    then obtain bs as' where as: "as = Chunk bs # as'" and bs: "bs \<noteq> []" by auto
    have alive: "alive s" and ok: "input_ok (inp s)" "inv s"
      using True less.prems by (auto simp: sound_def)
    define n where "n = min (i_left (inp s)) (length bs)"
    have "0 < n" using ok bs by (auto simp: n_def input_ok_def)
    let ?s = "fold feed (take n bs) s"
    have short: "arrivals_size (push_back n bs as') < arrivals_size as"
      using \<open>0 < n\<close> bs by (auto simp: as)
    have IH: "loop (push_back n bs as') ?s =
        finish (try_again (push_back n bs as')) (fold feed (arrived (push_back n bs as')) ?s)"
      by (rule less.hyps [OF short fold_feed_ok [OF less.prems]])
    have "arrived (push_back n bs as') = drop n bs @ arrived as'"
      and again: "try_again (push_back n bs as') = try_again as"
      using bs by (auto simp: as)
    then have "fold feed (arrived (push_back n bs as')) ?s = fold feed (arrived as) s"
      using fold_append [of feed "take n bs" "drop n bs"] bs by (simp add: as)
    then show ?thesis
      unfolding as loop_step [OF alive ok bs n_def] IH Let_def
      using bs by (auto simp: finish_def fold_feed_dead as again)
  qed
qed

text \<open>
  A stream of frames, in any pieces: the loop handles the frames in their order, each as a
  whole.
\<close>

corollary loop_frames:
  assumes "alive s" "input_fresh (inp s)" "inv s" "\<forall>f \<in> set fs. length (snd f) < 2 ^ 24"
    "arrived as = concat (map frame fs)"
  shows "loop as s = finish (try_again as) (fold deliver fs s)"
proof -
  have "sound s"
    using assms(2,3) by (auto simp: input_fresh_def input_ok_def sound_def)
  then show ?thesis
    using loop_feed fold_feed_frames [of s fs] assms by simp
qed

text \<open>The pieces do not matter, and no byte is stored outside of the buffer.\<close>

corollary loop_chunking:
  assumes "sound s" "arrived as = arrived bs" "try_again as = try_again bs"
  shows "loop as s = loop bs s"
  using assms by (simp add: loop_feed)

corollary loop_no_overrun:
  assumes "sound s"
  shows "\<not> i_overrun (inp (loop as s))"
  using fold_feed_ok [OF assms, of "arrived as"]
  by (auto simp: loop_feed [OF assms] finish_def sound_def inp_closed)

corollary loop_mem:
  assumes "sound s" "input_mem n (inp s)"
  shows "input_mem n (inp (loop as s))"
  using fold_feed_mem [OF assms] by (simp add: loop_feed [OF assms(1)] finish_def inp_closed)

corollary loop_ends:
  assumes "sound s"
  shows "sound (loop as s) \<or> (\<exists>t. loop as s = closed t)"
  using fold_feed_ok [OF assms, of "arrived as"] by (auto simp: loop_feed [OF assms] finish_def)

text \<open>Two calls of the loop, one after the other, see one stream.\<close>

corollary loop_loop:
  assumes "sound s" "try_again as" "alive (fold feed (arrived as) s)"
  shows "loop bs (loop as s) = finish (try_again bs) (fold feed (arrived as @ arrived bs) s)"
proof -
  have "loop as s = fold feed (arrived as) s"
    using assms by (simp add: loop_feed finish_def)
  then show ?thesis
    using loop_feed [OF fold_feed_ok [OF assms(1), of "arrived as"]] by simp
qed

end

section \<open>Receivers that tell an application\<close>

text \<open>
  A receiver that makes callbacks: \<open>log\<close> are the callbacks so far and \<open>events s f\<close> those for a
  frame \<open>f\<close>. A frame is told once, unless it ends the connection.
\<close>

locale frame_teller = frame_machine +
  fixes log :: "'a \<Rightarrow> 'e list"
    and events :: "'a \<Rightarrow> byte \<times> byte list \<Rightarrow> 'e list"
  assumes inv_too_big: "inv s \<Longrightarrow> inv (too_big s)"
    and events_deliver: "events (deliver f s) = events s"
    and log_deliver: "inv s \<Longrightarrow> alive s \<Longrightarrow>
      log (deliver f s) = log s @ events s f \<or> log (deliver f s) = log s \<and> \<not> alive (deliver f s)"
begin

lemma inv_deliver: "inv s \<Longrightarrow> inv (deliver f s)"
  by (simp add: deliver_def inv_dispatch inv_too_big inv_set)

lemma inv_fold_deliver: "inv s \<Longrightarrow> inv (fold deliver fs s)"
  by (induction fs arbitrary: s) (simp_all add: inv_deliver)

lemma fold_deliver_log:
  assumes "inv s" "alive s"
  shows "\<exists>n \<le> length fs. log (fold deliver fs s) = log s @ concat (map (events s) (take n fs)) \<and>
    (alive (fold deliver fs s) \<longrightarrow> n = length fs)"
  using assms
proof (induction fs arbitrary: s)
  case Nil
  then show ?case by simp
next
  case (Cons f fs)
  show ?case
  proof (cases "alive (deliver f s)")
    case True
    obtain n where "n \<le> length fs" "log (fold deliver fs (deliver f s)) = log (deliver f s) @
        concat (map (events s) (take n fs))" "alive (fold deliver fs (deliver f s)) \<longrightarrow> n = length fs"
      using Cons.IH [OF inv_deliver [OF Cons.prems(1)] True] by (auto simp: events_deliver)
    then show ?thesis
      using log_deliver [OF Cons.prems, of f] True by (intro exI [of _ "Suc n"]) auto
  next
    case False
    then show ?thesis
      using log_deliver [OF Cons.prems, of f]
      by (auto simp: fold_deliver_dead intro: exI [of _ 0] exI [of _ "Suc 0"])
  qed
qed

lemma fold_deliver_fresh:
  assumes "input_fresh (inp s)" "inv s" "alive (fold deliver fs s)"
  shows "input_fresh (inp (fold deliver fs s))"
  using assms
proof (induction fs arbitrary: s)
  case (Cons f fs)
  then have "alive (fold deliver fs (deliver f s))" by simp
  then have "alive (deliver f s)" using fold_deliver_dead by metis
  then show ?case using Cons deliver_fresh [of f s] by simp
qed simp

end

locale frame_logger =
  frame_receiver inp set_inp inv alive too_big dispatch closed loop +
  frame_teller inp set_inp inv alive too_big dispatch log events
  for inp :: "'s \<Rightarrow> input" and set_inp inv alive too_big dispatch closed loop
    and log :: "'s \<Rightarrow> 'e list" and events +
  assumes dead_closed: "inv s \<Longrightarrow> \<not> alive (closed s)"
    and log_closed: "log (closed s) = log s"
begin

text \<open>
  Frames are told in their order, each at most once, up to some point of the stream, and all of
  them when the connection survives. Then the receiver is ready for the next header.
\<close>

theorem loop_log:
  assumes "alive s" "input_fresh (inp s)" "inv s" "\<forall>f \<in> set fs. length (snd f) < 2 ^ 24"
    "arrived as = concat (map frame fs)"
  shows "\<exists>n \<le> length fs. log (loop as s) = log s @ concat (map (events s) (take n fs)) \<and>
    (alive (loop as s) \<longrightarrow> n = length fs \<and> input_fresh (inp (loop as s)) \<and> inv (loop as s))"
proof -
  let ?d = "fold deliver fs s"
  have l: "loop as s = finish (try_again as) ?d" by (rule loop_frames [OF assms])
  have "\<not> alive (closed ?d)" by (rule dead_closed [OF inv_fold_deliver [OF assms(3)]])
  then have "alive (loop as s) \<Longrightarrow> loop as s = ?d" "log (loop as s) = log ?d"
    by (auto simp: l finish_def log_closed split: if_splits)
  then show ?thesis
    using fold_deliver_log [OF assms(3,1), of fs] fold_deliver_fresh [OF assms(2,3), of fs]
      inv_fold_deliver [OF assms(3), of fs] by auto
qed

end

end
