(* ===== verification/Codec.thy ===== *)
theory Codec
  imports Input
begin

text \<open>
  The protocol buffers code of an application is generated by another project (pbtools). What
  messi uses of it is collected in a record, an argument of the functions that call it.
\<close>

section \<open>The generated protocol code\<close>

text \<open>
  \<open>in_new\<close> and \<open>in_decode\<close> are \<open>NAME_server_to_client_new\<close> and \<open>_decode\<close>, \<open>in_choice\<close> is
  \<open>messages.choice\<close>, \<open>out_new\<close> and \<open>out_encode\<close> are \<open>NAME_client_to_server_new\<close> and
  \<open>_encode\<close> (for the server the other way around). \<open>None\<close> is \<open>NULL\<close>, respectively a
  negative result of the encoder, whose second argument is the space it may use.
\<close>

record ('i, 'o) codec =
  in_new :: "nat \<Rightarrow> 'i option"
  in_decode :: "'i \<Rightarrow> byte list \<Rightarrow> int \<times> 'i"
  in_choice :: "'i \<Rightarrow> nat"
  out_new :: "nat \<Rightarrow> 'o option"
  out_encode :: "'o option \<Rightarrow> nat \<Rightarrow> byte list option"

text \<open>The encoder does not write more than it is told to.\<close>

definition codec_fits :: "('i, 'o) codec \<Rightarrow> bool" where
  "codec_fits k \<longleftrightarrow> (\<forall>m n bs. out_encode k m n = Some bs \<longrightarrow> length bs \<le> n)"

end
