(* ===== verification/LinuxClient.thy ===== *)
theory LinuxClient
  imports Codec
begin

unbundle bit_operations_syntax

text \<open>
  The linux client: \<open>struct NAME_client_t\<close> of \<open>templates/linux/client.h\<close> and every function
  of \<open>templates/linux/client.c\<close>, in the order of the file except that the functions an
  application may call from a callback (\<open>NAME_client_send\<close>, \<open>NAME_client_stop\<close> and the
  \<open>init\<close> functions) come before the callbacks are called.

  The protocol buffers code is generated by another project: it is the argument
  \<open>codec\<close> of the functions that use it, see \<open>Codec\<close>. The application is a state \<open>'u\<close> and callbacks;
  a callback maps its argument and the application's state to the new state and the calls
  of the client's functions it makes, in order.
\<close>

section \<open>State\<close>

text \<open>
  What an application can do in a callback: prepare a message (\<open>NAME_client_init_<message>\<close>
  followed by assignments to its fields), send the prepared message, stop the client.
\<close>

datatype 'o client_request = Init_message "'o \<Rightarrow> 'o" | Client_send | Client_stop

text \<open>The callbacks that were called, for the specifications.\<close>

datatype 'i client_event = Connected | Disconnected disconnect_reason | Received nat 'i

text \<open>
  \<open>c_on_message\<close> maps the choice of each message of the protocol to its callback. The last
  four fields are not part of the struct: the state of the application, the system, the
  callbacks called so far, and a ghost that records a write outside of the output buffer or
  through a \<open>NULL\<close> pointer.
\<close>

record ('u, 'i, 'o) client =
  c_address :: string
  c_port :: int
  c_disconnect_reason :: disconnect_reason
  c_on_connected :: "'u \<Rightarrow> 'u \<times> 'o client_request list"
  c_on_disconnected :: "disconnect_reason \<Rightarrow> 'u \<Rightarrow> 'u \<times> 'o client_request list"
  c_on_message :: "nat \<Rightarrow> ('i \<Rightarrow> 'u \<Rightarrow> 'u \<times> 'o client_request list) option"
  c_epoll_fd :: fd
  c_epoll_ctl :: epoll_ctl_fn
  c_server_fd :: fd
  c_keep_alive_timer_fd :: fd
  c_reconnect_timer_fd :: fd
  c_pong_received :: bool
  c_pending_disconnect :: bool
  c_in_message :: "'i option"
  c_in_workspace_size :: nat
  c_input :: input
  c_out_message :: "'o option"
  c_out_workspace_size :: nat
  c_out_buf :: "byte list"
  c_out_size :: nat
  c_app :: 'u
  c_sys :: os
  c_log :: "'i client_event list"
  c_fault :: bool

section \<open>Descriptors\<close>

definition cl_epoll_ctl_add :: "fd \<Rightarrow> ('u, 'i, 'o) client \<Rightarrow> int \<times> ('u, 'i, 'o) client" where
  "cl_epoll_ctl_add d c =
     (let (res, os) = call_epoll_ctl (c_epoll_ctl c) (c_epoll_fd c) EPOLL_CTL_ADD d EPOLLIN (c_sys c)
      in (res, c\<lparr>c_sys := os\<rparr>))"

definition cl_epoll_ctl_del :: "fd \<Rightarrow> ('u, 'i, 'o) client \<Rightarrow> ('u, 'i, 'o) client" where
  "cl_epoll_ctl_del d c =
     c\<lparr>c_sys := snd (call_epoll_ctl (c_epoll_ctl c) (c_epoll_fd c) EPOLL_CTL_DEL d 0 (c_sys c))\<rparr>"

definition cl_close :: "fd \<Rightarrow> ('u, 'i, 'o) client \<Rightarrow> ('u, 'i, 'o) client" where
  "cl_close d c = c\<lparr>c_sys := sys_close d (c_sys c)\<rparr>"

definition cl_close_fd :: "fd \<Rightarrow> ('u, 'i, 'o) client \<Rightarrow> ('u, 'i, 'o) client" where
  "cl_close_fd d c = cl_close d (cl_epoll_ctl_del d c)"

definition cl_reset_input_encoded :: "('u, 'i, 'o) client \<Rightarrow> ('u, 'i, 'o) client" where
  "cl_reset_input_encoded c =
     c\<lparr>c_input := (c_input c)\<lparr>i_state := Header, i_size := 0, i_left := header_sizeof\<rparr>\<rparr>"

definition cl_pending_disconnect ::
    "disconnect_reason \<Rightarrow> ('u, 'i, 'o) client \<Rightarrow> ('u, 'i, 'o) client" where
  "cl_pending_disconnect reason c =
     (if c_pending_disconnect c then c
      else
        (let c1 = c\<lparr>c_disconnect_reason := reason\<rparr>;
             c2 = cl_close_fd (c_server_fd c1) c1
         in c2\<lparr>c_server_fd := - 1, c_pending_disconnect := True\<rparr>))"

definition cl_disconnect :: "('u, 'i, 'o) client \<Rightarrow> ('u, 'i, 'o) client" where
  "cl_disconnect c =
     (let c1 = cl_pending_disconnect Message_encode_error c;
          c2 = cl_close_fd (c_keep_alive_timer_fd c1) c1
      in c2\<lparr>c_keep_alive_timer_fd := - 1, c_pending_disconnect := False\<rparr>)"

section \<open>What the application calls\<close>

definition client_new_output_message ::
    "('i, 'o) codec \<Rightarrow> ('u, 'i, 'o) client \<Rightarrow> ('u, 'i, 'o) client" where
  "client_new_output_message k c = c\<lparr>c_out_message := out_new k (c_out_workspace_size c)\<rparr>"

text \<open>
  \<open>NAME_client_init_<message>\<close>: a new message, then its \<open>alloc\<close> function, which selects the
  message; \<open>alloc\<close> also stands for the assignments the application makes to the fields.
\<close>

definition client_init_message ::
    "('i, 'o) codec \<Rightarrow> ('o \<Rightarrow> 'o) \<Rightarrow> ('u, 'i, 'o) client \<Rightarrow> ('u, 'i, 'o) client" where
  "client_init_message k alloc c =
     (let c1 = client_new_output_message k c
      in case c_out_message c1 of
           None \<Rightarrow> c1\<lparr>c_fault := True\<rparr>
         | Some m \<Rightarrow> c1\<lparr>c_out_message := Some (alloc m)\<rparr>)"

definition client_send :: "('i, 'o) codec \<Rightarrow> ('u, 'i, 'o) client \<Rightarrow> ('u, 'i, 'o) client" where
  "client_send k c =
     (case out_encode k (c_out_message c) (size_sub (c_out_size c) header_sizeof) of
        None \<Rightarrow> cl_pending_disconnect Message_encode_error c
      | Some payload \<Rightarrow>
          (let res = length payload;
               buf1 = buf_write header_sizeof payload (c_out_buf c);
               header = messi_header_create (header_at buf1)
                          MESSI_MESSAGE_TYPE_CLIENT_TO_SERVER_USER (of_nat res);
               buf2 = buf_write 0 (header_bytes header) buf1;
               c1 = c\<lparr>c_out_buf := buf2,
                      c_fault := (c_fault c \<or> length (c_out_buf c) < header_sizeof + res)\<rparr>;
               (r, os) = sys_write (c_server_fd c1) (take (res + header_sizeof) buf2) (c_sys c1);
               c2 = c1\<lparr>c_sys := os\<rparr>
           in if r \<noteq> Inr (res + header_sizeof)
              then cl_pending_disconnect Connection_closed c2 else c2))"

definition client_stop :: "('u, 'i, 'o) client \<Rightarrow> ('u, 'i, 'o) client" where
  "client_stop c =
     (let c1 = cl_disconnect c
      in if c_reconnect_timer_fd c1 \<noteq> - 1
         then (cl_close_fd (c_reconnect_timer_fd c1) c1)\<lparr>c_reconnect_timer_fd := - 1\<rparr>
         else c1)"

fun client_call :: "('i, 'o) codec \<Rightarrow> 'o client_request \<Rightarrow> ('u, 'i, 'o) client \<Rightarrow> ('u, 'i, 'o) client" where
  "client_call k (Init_message alloc) c = client_init_message k alloc c"
| "client_call k Client_send c = client_send k c"
| "client_call k Client_stop c = client_stop c"

text \<open>A callback runs: its new state is stored, then its calls are made.\<close>

definition run_callback ::
    "('i, 'o) codec \<Rightarrow> ('u \<Rightarrow> 'u \<times> 'o client_request list) \<Rightarrow> 'i client_event \<Rightarrow>
     ('u, 'i, 'o) client \<Rightarrow> ('u, 'i, 'o) client" where
  "run_callback k cb ev c =
     (let (u, calls) = cb (c_app c)
      in fold (client_call k) calls (c\<lparr>c_app := u, c_log := c_log c @ [ev]\<rparr>))"

section \<open>Messages from the server\<close>

definition cl_handle_message_user ::
    "('i, 'o) codec \<Rightarrow> ('u, 'i, 'o) client \<Rightarrow> ('u, 'i, 'o) client" where
  "cl_handle_message_user k c =
     (let c1 = c\<lparr>c_in_message := in_new k (c_in_workspace_size c)\<rparr>
      in case c_in_message c1 of
           None \<Rightarrow> c1
         | Some message \<Rightarrow>
             (let payload_size = i_size (c_input c1) - header_sizeof;
                  payload = take payload_size (drop header_sizeof (i_buf (c_input c1)));
                  (res, message) = in_decode k message payload;
                  c2 = c1\<lparr>c_in_message := Some message\<rparr>
              in if res \<noteq> int payload_size
                 then cl_pending_disconnect Message_decode_error c2
                 else case c_on_message c2 (in_choice k message) of
                     None \<Rightarrow> c2
                   | Some cb \<Rightarrow>
                       run_callback k (cb message) (Received (in_choice k message) message) c2))"

definition cl_handle_message_pong :: "('u, 'i, 'o) client \<Rightarrow> ('u, 'i, 'o) client" where
  "cl_handle_message_pong c = c\<lparr>c_pong_received := True\<rparr>"

definition cl_handle_message ::
    "('i, 'o) codec \<Rightarrow> byte \<Rightarrow> ('u, 'i, 'o) client \<Rightarrow> ('u, 'i, 'o) client" where
  "cl_handle_message k ty c =
     (if ty = MESSI_MESSAGE_TYPE_SERVER_TO_CLIENT_USER then cl_handle_message_user k c
      else if ty = MESSI_MESSAGE_TYPE_PONG then cl_handle_message_pong c
      else c)"

section \<open>Timers\<close>

definition cl_start_timer :: "fd \<Rightarrow> nat \<Rightarrow> ('u, 'i, 'o) client \<Rightarrow> int \<times> ('u, 'i, 'o) client" where
  "cl_start_timer d seconds c =
     (let (res, os) = sys_timerfd_settime d seconds (c_sys c) in (res, c\<lparr>c_sys := os\<rparr>))"

definition cl_start_keep_alive_timer :: "('u, 'i, 'o) client \<Rightarrow> int \<times> ('u, 'i, 'o) client" where
  "cl_start_keep_alive_timer c = cl_start_timer (c_keep_alive_timer_fd c) 2 c"

definition cl_start_reconnect_timer :: "('u, 'i, 'o) client \<Rightarrow> int \<times> ('u, 'i, 'o) client" where
  "cl_start_reconnect_timer c =
     (let (d, os) = sys_timerfd_create (c_sys c);
          c1 = c\<lparr>c_reconnect_timer_fd := d, c_sys := os\<rparr>
      in if d = - 1 then (- 1, c1)
         else
           (let (res, c2) = cl_epoll_ctl_add (c_reconnect_timer_fd c1) c1
            in if res = - 1
               then (- 1, (cl_close (c_reconnect_timer_fd c2) c2)\<lparr>c_reconnect_timer_fd := - 1\<rparr>)
               else cl_start_timer (c_reconnect_timer_fd c2) 1 c2))"

section \<open>Events\<close>

text \<open>
  \<open>process_socket\<close>: the loop reads until there is nothing to read. It ends because every
  round takes at least one byte of what has arrived.
\<close>

function cl_process_socket ::
    "('i, 'o) codec \<Rightarrow> arrival list \<Rightarrow> ('u, 'i, 'o) client \<Rightarrow> ('u, 'i, 'o) client" where
  "cl_process_socket k as c =
     (case sys_read (c_server_fd c) (i_left (c_input c)) as (c_sys c) of
        (Inl e, as') \<Rightarrow>
          if e = EAGAIN then c else cl_pending_disconnect Connection_closed c
      | (Inr bs, as') \<Rightarrow>
          if bs = [] then cl_pending_disconnect Connection_closed c
          else
            (let c1 = c\<lparr>c_input := input_read bs (c_input c)\<rparr>
             in if i_left (c_input c1) > 0 then cl_process_socket k as' c1
                else
                  (case (if i_state (c_input c1) = Header
                         then
                           (let c2 = c1\<lparr>c_input := (c_input c1)\<lparr>i_left :=
                                   unat (messi_header_get_size (input_header (c_input c1)))\<rparr>\<rparr>
                            in if i_left (c_input c2) + header_sizeof > i_cap (c_input c2)
                               then (False, cl_pending_disconnect Message_too_big c2)
                               else (True, c2\<lparr>c_input := (c_input c2)\<lparr>i_state := Payload\<rparr>\<rparr>))
                         else (True, c1)) of
                     (False, c3) \<Rightarrow> c3
                   | (True, c3) \<Rightarrow>
                       if i_left (c_input c3) = 0
                       then cl_process_socket k as'
                              (cl_reset_input_encoded
                                (cl_handle_message k (header_type (input_header (c_input c3))) c3))
                       else cl_process_socket k as' c3)))"
  by pat_completeness auto
termination
  by (relation "measure (\<lambda>(k, as, c). arrivals_size as)") (auto intro: sys_read_decreases [OF sym])

declare cl_process_socket.simps [simp del]

text \<open>
  \<open>process_keep_alive_timer\<close>: the expired timer must deliver its eight byte counter; then a
  missing pong, a timer that cannot be started or a ping that cannot be written drop the
  connection.
\<close>

definition cl_process_keep_alive_timer ::
    "arrival list \<Rightarrow> ('u, 'i, 'o) client \<Rightarrow> ('u, 'i, 'o) client" where
  "cl_process_keep_alive_timer as c =
     (let r = fst (sys_read (c_keep_alive_timer_fd c) 8 as (c_sys c))
      in if (case r of Inl e \<Rightarrow> True | Inr value \<Rightarrow> length value \<noteq> 8)
         then cl_pending_disconnect General_error c
         else if \<not> c_pong_received c then cl_pending_disconnect Keep_alive_timeout c
         else
           (let (res, c1) = cl_start_keep_alive_timer c
            in if res = 0
               then
                 (let header = messi_header_create (header_at (replicate 4 0))
                                 MESSI_MESSAGE_TYPE_PING 0;
                      (sz, os) = sys_write (c_server_fd c1) (header_bytes header) (c_sys c1);
                      c2 = c1\<lparr>c_sys := os\<rparr>
                  in if sz \<noteq> Inr header_sizeof
                     then cl_pending_disconnect General_error c2
                     else c2\<lparr>c_pong_received := False\<rparr>)
               else cl_pending_disconnect General_error c1))"

text \<open>
  \<open>connect_to_server\<close>. The labels of the cleanup code: \<open>out1\<close> closes the socket, \<open>out2\<close>
  deregisters it first, \<open>out3\<close> closes the timer before that and \<open>out4\<close> deregisters the
  timer at first.
\<close>

definition cl_connect_out1 :: "fd \<Rightarrow> ('u, 'i, 'o) client \<Rightarrow> int \<times> ('u, 'i, 'o) client" where
  "cl_connect_out1 server_fd c = (- 1, cl_close server_fd c)"

definition cl_connect_out2 :: "fd \<Rightarrow> ('u, 'i, 'o) client \<Rightarrow> int \<times> ('u, 'i, 'o) client" where
  "cl_connect_out2 server_fd c = cl_connect_out1 server_fd (cl_epoll_ctl_del server_fd c)"

definition cl_connect_out3 :: "fd \<Rightarrow> ('u, 'i, 'o) client \<Rightarrow> int \<times> ('u, 'i, 'o) client" where
  "cl_connect_out3 server_fd c =
     cl_connect_out2 server_fd (cl_close (c_keep_alive_timer_fd c) c)"

definition cl_connect_out4 :: "fd \<Rightarrow> ('u, 'i, 'o) client \<Rightarrow> int \<times> ('u, 'i, 'o) client" where
  "cl_connect_out4 server_fd c =
     cl_connect_out3 server_fd (cl_epoll_ctl_del (c_keep_alive_timer_fd c) c)"

text \<open>
  \<open>htons((short)port)\<close> is the low half of the port; \<open>inet_aton\<close> leaves the address zero when
  it fails, and the code does not look at its result.
\<close>

definition sin_port :: "int \<Rightarrow> u16" where
  "sin_port prt = word_of_int prt"

definition cl_connect_to_server ::
    "('i, 'o) codec \<Rightarrow> ('u, 'i, 'o) client \<Rightarrow> int \<times> ('u, 'i, 'o) client" where
  "cl_connect_to_server k c =
     (let (server_fd, os) = sys_socket (c_sys c); c = c\<lparr>c_sys := os\<rparr>
      in if server_fd = - 1 then (- 1, c)
         else
      let s_addr = (case aton (c_sys c) (c_address c) of None \<Rightarrow> 0 | Some a \<Rightarrow> a);
          (res, os) = sys_connect server_fd s_addr (sin_port (c_port c)) (c_sys c);
          c = c\<lparr>c_sys := os\<rparr>
      in if res = - 1 then cl_connect_out1 server_fd c
         else
      let (res, os) = messi_make_non_blocking server_fd (c_sys c); c = c\<lparr>c_sys := os\<rparr>
      in if res = - 1 then cl_connect_out1 server_fd c
         else
      let (res, c) = cl_epoll_ctl_add server_fd c
      in if res = - 1 then cl_connect_out1 server_fd c
         else
      let (d, os) = sys_timerfd_create (c_sys c);
          c = c\<lparr>c_keep_alive_timer_fd := d, c_sys := os\<rparr>
      in if c_keep_alive_timer_fd c = - 1 then cl_connect_out2 server_fd c
         else
      let (res, c) = cl_epoll_ctl_add (c_keep_alive_timer_fd c) c
      in if res = - 1 then cl_connect_out3 server_fd c
         else
      let (res, c) = cl_start_keep_alive_timer c
      in if res \<noteq> 0 then cl_connect_out4 server_fd c
         else
      let c = c\<lparr>c_server_fd := server_fd, c_pong_received := True\<rparr>
      in (0, run_callback k (c_on_connected c) Connected c))"

definition cl_process_reconnect_timer ::
    "('i, 'o) codec \<Rightarrow> ('u, 'i, 'o) client \<Rightarrow> ('u, 'i, 'o) client" where
  "cl_process_reconnect_timer k c =
     (let c1 = (cl_close_fd (c_reconnect_timer_fd c) c)\<lparr>c_reconnect_timer_fd := - 1\<rparr>;
          (res, c2) = cl_connect_to_server k c1
      in if res \<noteq> 0 then snd (cl_start_reconnect_timer c2) else c2)"

section \<open>The public functions\<close>

definition cl_on_connected_default :: "'u \<Rightarrow> 'u \<times> 'o client_request list" where
  "cl_on_connected_default u = (u, [])"

definition cl_on_disconnected_default :: "disconnect_reason \<Rightarrow> 'u \<Rightarrow> 'u \<times> 'o client_request list" where
  "cl_on_disconnected_default reason u = (u, [])"

definition cl_on_message_default :: "'i \<Rightarrow> 'u \<Rightarrow> 'u \<times> 'o client_request list" where
  "cl_on_message_default m u = (u, [])"

text \<open>
  \<open>NAME_client_init\<close>: \<open>None\<close> for a callback or for \<open>epoll_ctl\<close> is \<open>NULL\<close>; \<open>on_messages\<close> has
  one entry per message of the protocol, with its choice. The result \<open>-1\<close> leaves the struct
  as it is. The two ghosts start cleared.
\<close>

definition client_init ::
    "string \<Rightarrow> byte list \<Rightarrow> nat \<Rightarrow> byte list \<Rightarrow> nat \<Rightarrow>
     ('u \<Rightarrow> 'u \<times> 'o client_request list) option \<Rightarrow>
     (disconnect_reason \<Rightarrow> 'u \<Rightarrow> 'u \<times> 'o client_request list) option \<Rightarrow>
     (nat \<times> ('i \<Rightarrow> 'u \<Rightarrow> 'u \<times> 'o client_request list) option) list \<Rightarrow>
     fd \<Rightarrow> epoll_ctl_fn option \<Rightarrow>
     ('u, 'i, 'o) client \<Rightarrow> int \<times> ('u, 'i, 'o) client" where
  "client_init server_uri encoded_in workspace_in_size encoded_out workspace_out_size
       on_connected on_disconnected on_messages epoll_fd epoll_ctl c =
     (let on_message = map_option (\<lambda>cb. case cb of None \<Rightarrow> cl_on_message_default | Some f \<Rightarrow> f)
            \<circ> map_of on_messages;
          on_connected = (case on_connected of None \<Rightarrow> cl_on_connected_default | Some f \<Rightarrow> f);
          on_disconnected =
            (case on_disconnected of None \<Rightarrow> cl_on_disconnected_default | Some f \<Rightarrow> f);
          epoll_ctl = (case epoll_ctl of None \<Rightarrow> Epoll_default | Some f \<Rightarrow> f)
      in case messi_parse_tcp_uri server_uri 16 of
           None \<Rightarrow> (- 1, c)
         | Some (address, prt) \<Rightarrow>
             (0, (cl_reset_input_encoded
                   (c\<lparr>c_address := address, c_port := prt,
                      c_on_connected := on_connected, c_on_disconnected := on_disconnected,
                      c_on_message := on_message,
                      c_epoll_fd := epoll_fd, c_epoll_ctl := epoll_ctl,
                      c_input := (c_input c)\<lparr>i_buf := encoded_in, i_cap := length encoded_in, i_overrun := False\<rparr>\<rparr>))
                 \<lparr>c_in_workspace_size := workspace_in_size,
                  c_out_buf := encoded_out, c_out_size := length encoded_out,
                  c_out_workspace_size := workspace_out_size,
                  c_server_fd := - 1, c_keep_alive_timer_fd := - 1, c_reconnect_timer_fd := - 1,
                  c_pending_disconnect := False, c_fault := False\<rparr>))"

definition client_start :: "('i, 'o) codec \<Rightarrow> ('u, 'i, 'o) client \<Rightarrow> ('u, 'i, 'o) client" where
  "client_start k c =
     (let (res, c1) = cl_connect_to_server k c
      in if res \<noteq> 0 then snd (cl_start_reconnect_timer c1) else c1)"

text \<open>\<open>NAME_client_process\<close>; the arrivals are what waits on the descriptor \<open>d\<close>.\<close>

definition client_process ::
    "('i, 'o) codec \<Rightarrow> fd \<Rightarrow> u32 \<Rightarrow> arrival list \<Rightarrow> ('u, 'i, 'o) client \<Rightarrow> ('u, 'i, 'o) client" where
  "client_process k d events as c =
     (let c1 = (if d = c_server_fd c then cl_process_socket k as c
                else if d = c_keep_alive_timer_fd c then cl_process_keep_alive_timer as c
                else if d = c_reconnect_timer_fd c then cl_process_reconnect_timer k c
                else c)
      in if c_pending_disconnect c1
         then
           (let c2 = cl_disconnect c1;
                c3 = run_callback k (c_on_disconnected c2 (c_disconnect_reason c2))
                       (Disconnected (c_disconnect_reason c2)) c2
            in snd (cl_start_reconnect_timer c3))
         else c1)"

end
