(* ===== verification/LinuxClientDemo.thy ===== *)
theory LinuxClientDemo
  imports LinuxClient
begin

text \<open>
  A concrete client, to which the properties are applied: a protocol whose messages are
  their own encoding, an application that counts the messages it gets, answers each of them
  and repeats what it received, and a process that has the descriptors 0 to 3 open.
\<close>

definition demo_codec :: "(byte list, byte list) codec" where
  "demo_codec =
     \<lparr>in_new = (\<lambda>n. Some []),
      in_decode = (\<lambda>m bs. (if 9 \<in> set bs then - 1 else int (length bs), bs)),
      in_choice = (\<lambda>m. if m = [] then 0 else 1),
      out_new = (\<lambda>n. Some []),
      out_encode = (\<lambda>m n. case m of None \<Rightarrow> None
         | Some bs \<Rightarrow> if length bs \<le> n then Some bs else None)\<rparr>"

definition demo_os :: os where
  "demo_os =
     \<lparr>outcomes = [], wscript = [], fds = [3, 2, 1, 0], interest = (\<lambda>d. None), armed = (\<lambda>d. None),
      fdflags = (\<lambda>d. 0), tx = (\<lambda>d. []), peer = (\<lambda>d. None),
      aton = (\<lambda>s. if s = ''127.0.0.1'' then Some 0x7f000001 else None), mallocs = []\<rparr>"

definition demo_on_message :: "byte list \<Rightarrow> nat \<Rightarrow> nat \<times> byte list client_request list" where
  "demo_on_message m n = (Suc n, [Init_message (\<lambda>_. m), Client_send])"

text \<open>The struct before \<open>NAME_client_init\<close>: its fields are whatever the memory held.\<close>

definition demo_struct :: "(nat, byte list, byte list) client" where
  "demo_struct =
     \<lparr>c_address = ''x'', c_port = 7, c_disconnect_reason = General_error,
      c_on_connected = (\<lambda>u. (u, [])), c_on_disconnected = (\<lambda>r u. (u, [])),
      c_on_message = (\<lambda>n. None), c_epoll_fd = 77, c_epoll_ctl = Epoll_default,
      c_server_fd = 77, c_keep_alive_timer_fd = 77, c_reconnect_timer_fd = 77,
      c_pong_received = False, c_pending_disconnect = True, c_in_message = None,
      c_in_workspace_size = 0,
      c_input = \<lparr>i_buf = [], i_cap = 0, i_size = 77, i_left = 77, i_state = Payload, i_overrun = False\<rparr>,
      c_out_message = None, c_out_workspace_size = 0, c_out_buf = [], c_out_size = 0,
      c_app = 0, c_sys = demo_os, c_log = [], c_fault = False\<rparr>"

definition demo_down :: "(nat, byte list, byte list) client" where
  "demo_down =
     snd (client_init ''tcp://127.0.0.1:6000'' (replicate 16 0) 64 (replicate 12 0) 64
       None None [(0, None), (1, Some demo_on_message)] 3 None demo_struct)"

definition demo_up :: "(nat, byte list, byte list) client" where
  "demo_up = client_start demo_codec demo_down"

lemma demo_down_init:
  "fst (client_init ''tcp://127.0.0.1:6000'' (replicate 16 0) 64 (replicate 12 0) 64
       None None [(0, None), (1, Some demo_on_message)] 3 None demo_struct) = 0"
  by code_simp

text \<open>From here on the two clients are known by their fields.\<close>

lemma demo_up_fields:
  "c_server_fd demo_up = 4" "c_keep_alive_timer_fd demo_up = 5" "c_reconnect_timer_fd demo_up = - 1"
  "c_pending_disconnect demo_up = False" "c_pong_received demo_up"
  "fds (c_sys demo_up) = [5, 4, 3, 2, 1, 0]" "wscript (c_sys demo_up) = []"
  "outcomes (c_sys demo_up) = []" "tx (c_sys demo_up) 4 = []"
  "c_input demo_up = \<lparr>i_buf = replicate 16 0, i_cap = 16, i_size = 0, i_left = 4,
     i_state = Header, i_overrun = False\<rparr>"
  "c_out_buf demo_up = replicate 12 0" "c_out_size demo_up = 12"
  "c_log demo_up = [Connected]" "c_app demo_up = 0" "c_fault demo_up = False"
  by code_simp+

lemma demo_down_fields:
  "c_server_fd demo_down = - 1" "c_keep_alive_timer_fd demo_down = - 1"
  "c_reconnect_timer_fd demo_down = - 1" "c_pending_disconnect demo_down = False"
  "fds (c_sys demo_down) = [3, 2, 1, 0]" "outcomes (c_sys demo_down) = []"
  by code_simp+

lemma demo_uri: "messi_parse_tcp_uri ''tcp://127.0.0.1:6000'' 16 = Some (''127.0.0.1'', 6000)"
  by code_simp

lemma demo_down_callbacks:
  "c_on_message demo_down 0 = Some cl_on_message_default"
  "c_on_message demo_down 1 = Some demo_on_message"
  "n \<noteq> 0 \<Longrightarrow> n \<noteq> 1 \<Longrightarrow> c_on_message demo_down n = None"
  "c_on_connected demo_down = cl_on_connected_default"
  "c_on_disconnected demo_down = cl_on_disconnected_default"
  "c_epoll_ctl demo_down = Epoll_default"
  by (simp_all add: demo_down_def client_init_def demo_uri cl_reset_input_encoded_def)

end
