(* ===== verification/LinuxClientFacts.thy ===== *)
theory LinuxClientFacts
  imports LinuxClientDemo
begin

text \<open>
  What the operations of the linux client keep: the input buffer is only touched by the
  receiving loop, \<open>-1\<close> is never an open descriptor, and a client that waits for its
  disconnection has no socket. The receiving loop is an instance of the interface
  \<open>frame_receiver\<close>.
\<close>

section \<open>The basic invariant\<close>

definition client_ok :: "('u, 'i, 'o) client \<Rightarrow> bool" where
  "client_ok c \<longleftrightarrow> - 1 \<notin> set (fds (c_sys c)) \<and> (c_pending_disconnect c \<longrightarrow> c_server_fd c = - 1)"

definition client_alive :: "('u, 'i, 'o) client \<Rightarrow> bool" where
  "client_alive c \<longleftrightarrow> c_server_fd c \<in> set (fds (c_sys c))"

definition client_set_input :: "input \<Rightarrow> ('u, 'i, 'o) client \<Rightarrow> ('u, 'i, 'o) client" where
  "client_set_input i c = c\<lparr>c_input := i\<rparr>"

lemma client_ok_update [client_simps]:
  "client_ok (c\<lparr>c_in_message := m\<rparr>) = client_ok c"
  "client_ok (c\<lparr>c_pong_received := b\<rparr>) = client_ok c"
  "client_ok (c\<lparr>c_input := i\<rparr>) = client_ok c"
  "client_ok (c\<lparr>c_app := u, c_log := l\<rparr>) = client_ok c"
  "client_ok (c\<lparr>c_disconnect_reason := rs\<rparr>) = client_ok c"
  by (simp_all add: client_ok_def)

lemma client_alive_input: "client_alive (c\<lparr>c_input := i\<rparr>) = client_alive c"
  by (simp add: client_alive_def)

lemma fds_close_fd [client_simps]:
  "fds (c_sys (cl_close_fd d c)) = removeAll d (fds (c_sys c))"
  by (simp add: cl_close_fd_def cl_close_def cl_epoll_ctl_del_def os_simps)

lemma close_fd_simps [client_simps]:
  "c_input (cl_close_fd d c) = c_input c" "c_server_fd (cl_close_fd d c) = c_server_fd c"
  "c_pending_disconnect (cl_close_fd d c) = c_pending_disconnect c"
  "c_log (cl_close_fd d c) = c_log c" "c_app (cl_close_fd d c) = c_app c"
  "c_keep_alive_timer_fd (cl_close_fd d c) = c_keep_alive_timer_fd c"
  "c_reconnect_timer_fd (cl_close_fd d c) = c_reconnect_timer_fd c"
  "c_on_message (cl_close_fd d c) = c_on_message c"
  "c_on_connected (cl_close_fd d c) = c_on_connected c"
  "c_on_disconnected (cl_close_fd d c) = c_on_disconnected c"
  "c_disconnect_reason (cl_close_fd d c) = c_disconnect_reason c"
  "c_epoll_ctl (cl_close_fd d c) = c_epoll_ctl c"
  "c_pong_received (cl_close_fd d c) = c_pong_received c"
  by (simp_all add: cl_close_fd_def cl_close_def cl_epoll_ctl_del_def)

lemma pending_disconnect_simps [client_simps]:
  "c_input (cl_pending_disconnect r c) = c_input c"
  "c_log (cl_pending_disconnect r c) = c_log c" "c_app (cl_pending_disconnect r c) = c_app c"
  "c_keep_alive_timer_fd (cl_pending_disconnect r c) = c_keep_alive_timer_fd c"
  "c_reconnect_timer_fd (cl_pending_disconnect r c) = c_reconnect_timer_fd c"
  "c_on_message (cl_pending_disconnect r c) = c_on_message c"
  "c_on_connected (cl_pending_disconnect r c) = c_on_connected c"
  "c_on_disconnected (cl_pending_disconnect r c) = c_on_disconnected c"
  "c_epoll_ctl (cl_pending_disconnect r c) = c_epoll_ctl c"
  "c_pending_disconnect (cl_pending_disconnect r c)"
  by (simp_all add: cl_pending_disconnect_def client_simps Let_def)

lemma pending_disconnect_again [client_simps]:
  "c_pending_disconnect c \<Longrightarrow> cl_pending_disconnect r c = c"
  by (simp add: cl_pending_disconnect_def)

lemma pending_disconnect_ok [client_simps]:
  "client_ok c \<Longrightarrow> client_ok (cl_pending_disconnect r c)"
  by (simp add: cl_pending_disconnect_def client_ok_def client_simps Let_def)

lemma pending_disconnect_dead [client_simps]:
  "client_ok c \<Longrightarrow> \<not> client_alive (cl_pending_disconnect r c)"
  by (simp add: cl_pending_disconnect_def client_ok_def client_alive_def client_simps Let_def)

section \<open>The calls of an application\<close>

lemma init_message_simps [client_simps]:
  "c_input (client_init_message k a c) = c_input c"
  "c_server_fd (client_init_message k a c) = c_server_fd c"
  "c_sys (client_init_message k a c) = c_sys c"
  "c_pending_disconnect (client_init_message k a c) = c_pending_disconnect c"
  "c_keep_alive_timer_fd (client_init_message k a c) = c_keep_alive_timer_fd c"
  "c_reconnect_timer_fd (client_init_message k a c) = c_reconnect_timer_fd c"
  "c_on_disconnected (client_init_message k a c) = c_on_disconnected c"
  "c_on_message (client_init_message k a c) = c_on_message c"
  "c_on_connected (client_init_message k a c) = c_on_connected c"
  "c_epoll_ctl (client_init_message k a c) = c_epoll_ctl c"
  "c_log (client_init_message k a c) = c_log c"
  by (auto simp: client_init_message_def client_new_output_message_def Let_def split: option.splits)

lemma client_send_cases:
  obtains (encode) "out_encode k (c_out_message c) (size_sub (c_out_size c) header_sizeof) = None"
      "client_send k c = cl_pending_disconnect Message_encode_error c"
  | (wrote) payload buf fault r os where
      "out_encode k (c_out_message c) (size_sub (c_out_size c) header_sizeof) = Some payload"
      "sys_write (c_server_fd c) (take (length payload + header_sizeof) buf) (c_sys c) = (r, os)"
      "client_send k c =
        (let c2 = c\<lparr>c_out_buf := buf, c_fault := fault, c_sys := os\<rparr>
         in if r \<noteq> Inr (length payload + header_sizeof)
            then cl_pending_disconnect Connection_closed c2 else c2)"
  by (fastforce simp: client_send_def Let_def split: option.splits prod.splits)

lemma client_send_simps [client_simps]:
  "c_input (client_send k c) = c_input c"
  "c_keep_alive_timer_fd (client_send k c) = c_keep_alive_timer_fd c"
  "c_reconnect_timer_fd (client_send k c) = c_reconnect_timer_fd c"
  "c_on_disconnected (client_send k c) = c_on_disconnected c"
  "c_on_message (client_send k c) = c_on_message c"
  "c_on_connected (client_send k c) = c_on_connected c"
  "c_epoll_ctl (client_send k c) = c_epoll_ctl c"
  "c_log (client_send k c) = c_log c"
  by (cases rule: client_send_cases [of k c]; simp add: client_simps Let_def)+

lemma client_send_ok [client_simps]: "client_ok c \<Longrightarrow> client_ok (client_send k c)"
proof (cases rule: client_send_cases [of k c])
  case encode
  then show "client_ok c \<Longrightarrow> ?thesis" by (simp add: client_simps)
next
  case (wrote payload buf fault r os)
  have "fds os = fds (c_sys c)"
    using wrote(2) fds_sys_write [of "c_server_fd c" "take (length payload + header_sizeof) buf" "c_sys c"]
    by simp
  then have "client_ok (c\<lparr>c_out_buf := buf, c_fault := fault, c_sys := os\<rparr>)" if "client_ok c"
    using that by (simp add: client_ok_def)
  then show "client_ok c \<Longrightarrow> ?thesis"
    by (simp add: wrote(3) Let_def client_simps)
qed

lemma disconnect_simps [client_simps]:
  "c_input (cl_disconnect c) = c_input c"
  "c_reconnect_timer_fd (cl_disconnect c) = c_reconnect_timer_fd c"
  "c_on_disconnected (cl_disconnect c) = c_on_disconnected c"
  "c_on_message (cl_disconnect c) = c_on_message c"
  "c_on_connected (cl_disconnect c) = c_on_connected c"
  "c_epoll_ctl (cl_disconnect c) = c_epoll_ctl c"
  "c_log (cl_disconnect c) = c_log c"
  "\<not> c_pending_disconnect (cl_disconnect c)"
  "c_keep_alive_timer_fd (cl_disconnect c) = - 1"
  by (simp_all add: cl_disconnect_def client_simps Let_def)

lemma client_stop_simps [client_simps]:
  "c_input (client_stop c) = c_input c"
  "c_on_disconnected (client_stop c) = c_on_disconnected c"
  "c_on_message (client_stop c) = c_on_message c"
  "c_on_connected (client_stop c) = c_on_connected c"
  "c_epoll_ctl (client_stop c) = c_epoll_ctl c"
  "c_log (client_stop c) = c_log c"
  "\<not> c_pending_disconnect (client_stop c)"
  "c_keep_alive_timer_fd (client_stop c) = - 1"
  "c_reconnect_timer_fd (client_stop c) = - 1"
  by (simp_all add: client_stop_def client_simps Let_def)

lemma disconnect_ok [client_simps]: "client_ok c \<Longrightarrow> client_ok (cl_disconnect c)"
  by (simp add: cl_disconnect_def client_ok_def cl_pending_disconnect_def client_simps Let_def)

lemma client_stop_ok [client_simps]: "client_ok c \<Longrightarrow> client_ok (client_stop c)"
  using disconnect_ok [of c] by (simp add: client_stop_def client_ok_def client_simps Let_def)

lemma client_call_simps [client_simps]:
  "c_input (client_call k r c) = c_input c"
  "c_on_disconnected (client_call k r c) = c_on_disconnected c"
  "c_on_message (client_call k r c) = c_on_message c"
  "c_on_connected (client_call k r c) = c_on_connected c"
  "c_epoll_ctl (client_call k r c) = c_epoll_ctl c"
  "c_log (client_call k r c) = c_log c"
  by (cases r; simp add: client_simps)+

lemma client_call_ok [client_simps]: "client_ok c \<Longrightarrow> client_ok (client_call k r c)"
  by (cases r) (simp_all add: client_simps, simp add: client_ok_def client_simps)

lemma client_calls_simps [client_simps]:
  "c_input (fold (client_call k) rs c) = c_input c"
  "c_on_disconnected (fold (client_call k) rs c) = c_on_disconnected c"
  "c_on_message (fold (client_call k) rs c) = c_on_message c"
  "c_on_connected (fold (client_call k) rs c) = c_on_connected c"
  "c_epoll_ctl (fold (client_call k) rs c) = c_epoll_ctl c"
  "c_log (fold (client_call k) rs c) = c_log c"
  by (induction rs arbitrary: c) (simp_all add: client_simps)

lemma client_calls_ok [client_simps]: "client_ok c \<Longrightarrow> client_ok (fold (client_call k) rs c)"
  by (induction rs arbitrary: c) (simp_all add: client_simps)

lemma run_callback_simps [client_simps]:
  "c_input (run_callback k cb ev c) = c_input c"
  "c_on_disconnected (run_callback k cb ev c) = c_on_disconnected c"
  "c_on_message (run_callback k cb ev c) = c_on_message c"
  "c_on_connected (run_callback k cb ev c) = c_on_connected c"
  "c_epoll_ctl (run_callback k cb ev c) = c_epoll_ctl c"
  "c_log (run_callback k cb ev c) = c_log c @ [ev]"
  by (simp_all add: run_callback_def client_simps split: prod.splits)

lemma run_callback_ok [client_simps]: "client_ok c \<Longrightarrow> client_ok (run_callback k cb ev c)"
  by (simp add: run_callback_def client_simps split: prod.splits)

lemma handle_message_ok [client_simps]:
  "c_input (cl_handle_message k ty c) = c_input c"
  "client_ok c \<Longrightarrow> client_ok (cl_handle_message k ty c)"
  by (simp_all add: cl_handle_message_def cl_handle_message_user_def cl_handle_message_pong_def
      client_simps Let_def split: option.splits prod.splits)

section \<open>Connecting and starting\<close>

lemma connect_simps [client_simps]:
  "c_on_message (snd (cl_connect_to_server k c)) = c_on_message c"
  "c_on_connected (snd (cl_connect_to_server k c)) = c_on_connected c"
  "c_on_disconnected (snd (cl_connect_to_server k c)) = c_on_disconnected c"
  "c_epoll_ctl (snd (cl_connect_to_server k c)) = c_epoll_ctl c"
  "c_input (snd (cl_connect_to_server k c)) = c_input c"
  by (auto simp: cl_connect_to_server_def cl_connect_out1_def cl_connect_out2_def
      cl_connect_out3_def cl_connect_out4_def cl_close_def cl_epoll_ctl_add_def cl_epoll_ctl_del_def
      cl_start_keep_alive_timer_def cl_start_timer_def client_simps Let_def split: prod.splits)

lemma start_reconnect_simps [client_simps]:
  "c_on_message (snd (cl_start_reconnect_timer c)) = c_on_message c"
  "c_on_connected (snd (cl_start_reconnect_timer c)) = c_on_connected c"
  "c_on_disconnected (snd (cl_start_reconnect_timer c)) = c_on_disconnected c"
  "c_epoll_ctl (snd (cl_start_reconnect_timer c)) = c_epoll_ctl c"
  "c_input (snd (cl_start_reconnect_timer c)) = c_input c"
  by (auto simp: cl_start_reconnect_timer_def cl_close_def cl_epoll_ctl_add_def
      cl_start_timer_def Let_def split: prod.splits)

lemma client_start_simps [client_simps]:
  "c_on_message (client_start k c) = c_on_message c"
  "c_on_connected (client_start k c) = c_on_connected c"
  "c_on_disconnected (client_start k c) = c_on_disconnected c"
  "c_epoll_ctl (client_start k c) = c_epoll_ctl c"
  "c_input (client_start k c) = c_input c"
  by (cases "cl_connect_to_server k c", use connect_simps [of k c] in \<open>simp add: client_start_def client_simps\<close>)+

lemma demo_up_callbacks:
  "c_on_message demo_up 0 = Some cl_on_message_default"
  "c_on_message demo_up 1 = Some demo_on_message"
  "n \<noteq> 0 \<Longrightarrow> n \<noteq> 1 \<Longrightarrow> c_on_message demo_up n = None"
  "c_on_connected demo_up = cl_on_connected_default"
  "c_on_disconnected demo_up = cl_on_disconnected_default"
  "c_epoll_ctl demo_up = Epoll_default"
  using demo_down_callbacks by (simp_all add: demo_up_def client_simps)

section \<open>The receiving loop\<close>

text \<open>A complete message is handled, then the client is ready for the next header.\<close>

definition client_dispatch :: "('i, 'o) codec \<Rightarrow> ('u, 'i, 'o) client \<Rightarrow> ('u, 'i, 'o) client" where
  "client_dispatch k c =
     cl_reset_input_encoded (cl_handle_message k (header_type (input_header (c_input c))) c)"

lemma dispatch_simps:
  "c_input (client_dispatch k c) = input_reset (c_input c)"
  "client_ok c \<Longrightarrow> client_ok (client_dispatch k c)"
  by (simp_all add: client_dispatch_def cl_reset_input_encoded_def client_simps input_reset_def)

lemma process_socket_dead:
  "\<not> client_alive c \<Longrightarrow> cl_process_socket k as c = cl_pending_disconnect Connection_closed c"
  by (subst cl_process_socket.simps) (simp add: client_alive_def os_simps)

lemma process_socket_alive:
  assumes "client_alive c"
  shows "cl_process_socket k [] c = c"
    and "cl_process_socket k (Chunk [] # as) c = cl_pending_disconnect Connection_closed c"
    and "cl_process_socket k (Arrival_error e # as) c =
      (if e = EAGAIN then c else cl_pending_disconnect Connection_closed c)"
  using assms by (subst cl_process_socket.simps, simp add: client_alive_def sys_read_def)+

lemma process_socket_chunk:
  assumes "client_alive c" "bs \<noteq> []" "0 < i_left (c_input c)"
    "n = min (i_left (c_input c)) (length bs)"
    "c1 = client_set_input (input_read (take n bs) (c_input c)) c"
  shows "cl_process_socket k (Chunk bs # as) c =
    (if 0 < i_left (c_input c1) then cl_process_socket k (push_back n bs as) c1
     else case input_complete (c_input c1) of
         Too_big i \<Rightarrow> cl_pending_disconnect Message_too_big (client_set_input i c1)
       | More i \<Rightarrow> cl_process_socket k (push_back n bs as) (client_set_input i c1)
       | Ready i \<Rightarrow> cl_process_socket k (push_back n bs as) (client_dispatch k (client_set_input i c1)))"
proof -
  have tk: "take (i_left (c_input c)) bs = take n bs" "take n bs \<noteq> []"
    using assms by (auto simp: min_def)
  have pb: "(if length bs \<le> i_left (c_input c) then as else Chunk (drop (i_left (c_input c)) bs) # as) =
      push_back n bs as"
    using assms by (auto simp: min_def)
  have c1: "c\<lparr>c_input := input_read (take n bs) (c_input c)\<rparr> = c1"
    by (simp add: assms client_set_input_def)
  have rd: "sys_read (c_server_fd c) (i_left (c_input c)) (Chunk bs # as) (c_sys c) =
      (Inr (take n bs), push_back n bs as)"
    using assms(1) by (simp add: sys_read_def client_alive_def tk pb del: push_back.simps)
  have st: "i_state (c_input c1) = Payload" if "i_state (c_input c1) \<noteq> Header"
    using that by (cases "i_state (c_input c1)") auto
  show ?thesis
    by (subst cl_process_socket.simps)
      (use tk(2) st in \<open>auto simp: rd c1 Let_def input_complete_def client_set_input_def
        client_dispatch_def input_header_def simp del: push_back.simps split: if_splits\<close>)
qed

interpretation cl: frame_receiver "c_input :: ('u, 'i, 'o) client \<Rightarrow> input"
  client_set_input client_ok client_alive
  "cl_pending_disconnect Message_too_big" "client_dispatch k"
  "cl_pending_disconnect Connection_closed" "cl_process_socket k" for k :: "('i, 'o) codec"
proof
  fix s :: "('u, 'i, 'o) client" and bs :: "byte list" and as n s1
  assume "client_alive s" "bs \<noteq> []" "0 < i_left (c_input s)"
    "n = min (i_left (c_input s)) (length bs)"
    "s1 = client_set_input (input_read (take n bs) (c_input s)) s"
  then show "cl_process_socket k (Chunk bs # as) s =
    (if 0 < i_left (c_input s1) then cl_process_socket k (push_back n bs as) s1
     else case input_complete (c_input s1) of
         Too_big i \<Rightarrow> cl_pending_disconnect Message_too_big (client_set_input i s1)
       | More i \<Rightarrow> cl_process_socket k (push_back n bs as) (client_set_input i s1)
       | Ready i \<Rightarrow> cl_process_socket k (push_back n bs as) (client_dispatch k (client_set_input i s1)))"
    by (rule process_socket_chunk)
qed (simp_all add: client_set_input_def client_alive_input client_simps dispatch_simps
    process_socket_dead process_socket_alive)

section \<open>Properties of the receiving loop\<close>

text \<open>
  A client whose connection is up: the socket is open, no disconnection is pending and the
  input buffer is in order; \<open>client_fresh\<close>: between two messages.
\<close>

definition client_sound :: "('u, 'i, 'o) client \<Rightarrow> bool" where
  "client_sound c \<longleftrightarrow> client_ok c \<and> client_alive c \<and> input_ok (c_input c)"

definition client_fresh :: "('u, 'i, 'o) client \<Rightarrow> bool" where
  "client_fresh c \<longleftrightarrow> client_ok c \<and> client_alive c \<and> input_fresh (c_input c)"

text \<open>
  The specification of the loop. A connected client takes a whole frame: one that does not
  fit drops the connection, any other is handled according to its type.
\<close>

definition client_deliver ::
    "('i, 'o) codec \<Rightarrow> byte \<times> byte list \<Rightarrow> ('u, 'i, 'o) client \<Rightarrow> ('u, 'i, 'o) client" where
  "client_deliver k f c =
     (if \<not> client_alive c then c
      else if i_cap (c_input c) < header_sizeof + length (snd f)
      then cl_pending_disconnect Message_too_big (c\<lparr>c_input := input_oversized f (c_input c)\<rparr>)
      else cl_reset_input_encoded
             (cl_handle_message k (fst f) (c\<lparr>c_input := input_loaded f (c_input c)\<rparr>)))"

definition client_finish :: "bool \<Rightarrow> ('u, 'i, 'o) client \<Rightarrow> ('u, 'i, 'o) client" where
  "client_finish again c =
     (if client_alive c \<and> again then c else cl_pending_disconnect Connection_closed c)"

lemma cl_deliver_eq: "cl.deliver k = client_deliver k"
  by (intro ext) (simp add: cl.deliver_def client_deliver_def client_set_input_def
      client_dispatch_def input_loaded_type)

lemma cl_finish_eq: "cl.finish = client_finish"
  by (intro ext) (simp add: cl.finish_def client_finish_def)

lemma client_sound_cl: "client_sound c \<Longrightarrow> cl.sound c"
  by (simp add: client_sound_def cl.sound_def input_ok_def)

lemma client_fresh_sound: "client_fresh c \<Longrightarrow> client_sound c"
  by (simp add: client_fresh_def client_sound_def input_fresh_def)

text \<open>C10: Whatever stream of well-formed frames the server sends and however the network cuts it
  into pieces, one call of \<open>process_socket\<close> handles exactly these frames, in their order and
  each as a whole, and then ends as the last read tells it to (nothing more to read yet, or the
  connection is dropped). Callbacks may do anything an application can do.\<close>

theorem client_handles_frames:
  assumes "client_fresh c" "\<forall>f \<in> set fs. length (snd f) < 2 ^ 24"
    "arrived as = concat (map frame fs)"
  shows "cl_process_socket k as c = client_finish (try_again as) (fold (client_deliver k) fs c)"
  using cl.loop_frames [where s = c and fs = fs and as = as and k = k] assms
  by (simp add: client_fresh_def cl_deliver_eq cl_finish_eq)

lemma demo_up_fresh: "client_fresh demo_up" "client_sound demo_up" "client_ok demo_up"
  by (simp_all add: client_fresh_def client_sound_def client_ok_def client_alive_def
      input_fresh_def input_ok_def demo_up_fields header_sizeof_def)

text \<open>
  Two frames, the first of which the client answers, in two pieces cut in the middle of the
  payload of the first frame.
\<close>

definition demo_frames :: "(byte \<times> byte list) list" where
  "demo_frames = [(2, [1, 7]), (4, [])]"

definition demo_arrivals :: "arrival list" where
  "demo_arrivals = [Chunk [2, 0, 0, 2, 1], Chunk [7, 4, 0, 0, 0]]"

lemma demo_arrivals:
  "arrived demo_arrivals = concat (map frame demo_frames)" "try_again demo_arrivals"
  "\<forall>f \<in> set demo_frames. length (snd f) < 2 ^ 24"
  by (simp_all add: demo_arrivals_def demo_frames_def frame_def header_bytes_def
      messi_header_create_def messi_header_set_size_def)

lemma demo_frame_bytes:
  "frame (2, [1, 7]) = [2, 0, 0, 2, 1, 7]" "frame (4, []) = [4, 0, 0, 0]"
  by (simp_all add: frame_def header_bytes_def messi_header_create_def messi_header_set_size_def)

lemmas demo_unfold =
  client_deliver_def client_finish_def client_alive_def cl_handle_message_def
  cl_handle_message_user_def cl_handle_message_pong_def cl_reset_input_encoded_def
  run_callback_def client_init_message_def client_new_output_message_def client_send_def
  sys_write_def buf_write_def message_type_defs header_sizeof_def demo_codec_def demo_on_message_def
  demo_up_fields demo_up_callbacks demo_up_callbacks(2) [unfolded One_nat_def]
  demo_frame_bytes input_loaded_def

lemma client_handles_frames_witness:
  "cl_process_socket demo_codec demo_arrivals demo_up =
     client_finish True (fold (client_deliver demo_codec) demo_frames demo_up) \<and>
   c_log (client_finish True (fold (client_deliver demo_codec) demo_frames demo_up)) =
     [Connected, Received 1 [1, 7]]"
proof
  show "cl_process_socket demo_codec demo_arrivals demo_up =
      client_finish True (fold (client_deliver demo_codec) demo_frames demo_up)"
    using client_handles_frames [OF demo_up_fresh(1) demo_arrivals(3,1), of demo_codec]
    by (simp add: demo_arrivals(2))
  show "c_log (client_finish True (fold (client_deliver demo_codec) demo_frames demo_up)) =
      [Connected, Received 1 [1, 7]]"
    by (simp add: demo_unfold demo_frames_def Let_def del: drop_frame take_frame)
qed

text \<open>C25: The pieces in which the same bytes arrive make no difference for the client: its state
  after \<open>process_socket\<close>, the callbacks it made and the bytes it sent are the same, also when
  the stream stops in the middle of a message or drops the connection.\<close>

theorem client_chunking_irrelevant:
  assumes "client_sound c" "arrived as = arrived bs" "try_again as = try_again bs"
  shows "cl_process_socket k as c = cl_process_socket k bs c"
  using cl.loop_chunking [where s = c and as = as and bs = bs and k = k] client_sound_cl [OF assms(1)] assms by simp

lemma client_chunking_irrelevant_witness:
  "cl_process_socket demo_codec demo_arrivals demo_up =
     cl_process_socket demo_codec [Chunk [2, 0, 0, 2, 1, 7, 4, 0, 0, 0]] demo_up"
  by (rule client_chunking_irrelevant [OF demo_up_fresh(2)]) (simp_all add: demo_arrivals_def)

text \<open>One call of \<open>process_socket\<close> on a connection whose input buffer is in order never stores
  a byte outside of the buffer, whatever the server sends, including sizes that do not fit.\<close>

theorem client_never_overruns:
  assumes "client_sound c"
  shows "\<not> i_overrun (c_input (cl_process_socket k as c))"
  using cl.loop_no_overrun [where s = c and as = as and k = k] client_sound_cl [OF assms] by simp

lemma client_never_overruns_witness:
  "\<not> i_overrun (c_input (cl_process_socket demo_codec [Chunk (2 # 255 # replicate 30 255)] demo_up))"
  by (rule client_never_overruns [OF demo_up_fresh(2)])

end
