(* ===== verification/LinuxClientPhases.thy ===== *)
theory LinuxClientPhases
  imports LinuxClientFacts
begin

text \<open>
  The life of a linux client as a state machine of four phases, the descriptors it owns in
  each of them, and the proof that every event leads from one phase to another as the
  machine says, without leaking a descriptor and without closing one that belongs to
  somebody else.
\<close>

section \<open>Phases and ownership\<close>

text \<open>
  \<open>Up\<close>: connected. \<open>Closing\<close>: the socket is gone, the rest of the disconnection is done by
  the next call of \<open>NAME_client_process\<close>. \<open>Waiting\<close>: the reconnect timer is set up. \<open>Down\<close>:
  not started, stopped, or the reconnect timer could not be set up.
\<close>

datatype phase = Up | Closing | Waiting | Down

definition client_phase :: "('u, 'i, 'o) client \<Rightarrow> phase" where
  "client_phase c =
     (if c_server_fd c \<noteq> - 1 then Up
      else if c_pending_disconnect c then Closing
      else if c_reconnect_timer_fd c \<noteq> - 1 then Waiting
      else Down)"

text \<open>
  After a failed attempt to connect, \<open>keep_alive_timer_fd\<close> may hold the number of a closed
  descriptor. It is higher than the number the next descriptor gets, so it is never taken
  for the reconnect timer.
\<close>

definition client_wf :: "('u, 'i, 'o) client \<Rightarrow> bool" where
  "client_wf c \<longleftrightarrow>
     (let F = set (fds (c_sys c)); ka = c_keep_alive_timer_fd c; rec = c_reconnect_timer_fd c
      in (\<forall>d \<in> F. 0 \<le> d) \<and>
         (case client_phase c of
            Up \<Rightarrow> \<not> c_pending_disconnect c \<and> c_server_fd c \<in> F \<and> ka \<in> F \<and>
                  ka \<noteq> c_server_fd c \<and> rec = - 1
          | Closing \<Rightarrow> ka \<in> F \<and> rec = - 1
          | Waiting \<Rightarrow> rec \<in> F \<and> ka \<notin> F \<and> (ka = - 1 \<or> rec < ka)
          | Down \<Rightarrow> ka \<notin> F \<and> (ka = - 1 \<or> lowest_free (fds (c_sys c)) < ka)))"

text \<open>The open descriptors that are not the client's.\<close>

definition client_foreign :: "('u, 'i, 'o) client \<Rightarrow> fd set" where
  "client_foreign c =
     set (fds (c_sys c)) -
       {c_server_fd c, c_keep_alive_timer_fd c, c_reconnect_timer_fd c}"

text \<open>
  An application that uses the client as intended: no callback stops the client, and
  nothing is sent from \<open>on_disconnected\<close>.
\<close>

definition client_app_ok :: "('u, 'i, 'o) client \<Rightarrow> bool" where
  "client_app_ok c \<longleftrightarrow>
     (\<forall>u. Client_stop \<notin> set (snd (c_on_connected c u))) \<and>
     (\<forall>reason u. set (snd (c_on_disconnected c reason u)) \<inter> {Client_send, Client_stop} = {}) \<and>
     (\<forall>n f m u. c_on_message c n = Some f \<longrightarrow> Client_stop \<notin> set (snd (f m u)))"

lemma app_ok_cong:
  assumes "c_on_connected c' = c_on_connected c" "c_on_disconnected c' = c_on_disconnected c"
    "c_on_message c' = c_on_message c"
  shows "client_app_ok c' = client_app_ok c"
  using assms by (simp add: client_app_ok_def)

text \<open>
  The client holds its socket or waits for the rest of the disconnection, and \<open>A\<close> are the
  descriptors of others: what the operations on a connection keep.
\<close>

definition client_conn :: "fd set \<Rightarrow> ('u, 'i, 'o) client \<Rightarrow> bool" where
  "client_conn A c \<longleftrightarrow>
     client_wf c \<and> client_phase c \<in> {Up, Closing} \<and> client_foreign c = A \<and> client_app_ok c"

lemma wf_ok: "client_wf c \<Longrightarrow> client_phase c \<in> {Up, Closing} \<Longrightarrow> client_ok c"
  by (auto simp: client_wf_def client_ok_def client_phase_def Let_def split: if_splits)

lemma conn_ok: "client_conn A c \<Longrightarrow> client_ok c"
  by (simp add: client_conn_def wf_ok)

lemma client_conn_cong:
  assumes "fds (c_sys c') = fds (c_sys c)" "c_server_fd c' = c_server_fd c"
    "c_keep_alive_timer_fd c' = c_keep_alive_timer_fd c"
    "c_reconnect_timer_fd c' = c_reconnect_timer_fd c"
    "c_pending_disconnect c' = c_pending_disconnect c"
    "c_on_connected c' = c_on_connected c" "c_on_disconnected c' = c_on_disconnected c"
    "c_on_message c' = c_on_message c"
  shows "client_conn A c' = client_conn A c"
  using assms
  by (simp add: client_conn_def client_wf_def client_phase_def client_foreign_def
      client_app_ok_def)

lemma conn_pending_disconnect: "client_conn A c \<Longrightarrow> client_conn A (cl_pending_disconnect r c)"
  by (auto simp: client_conn_def cl_pending_disconnect_def client_wf_def client_phase_def
      client_foreign_def client_app_ok_def client_simps Let_def split: if_splits)

lemma conn_closing:
  "client_conn A c \<Longrightarrow> client_phase (cl_pending_disconnect r c) = Closing"
  by (auto simp: client_conn_def cl_pending_disconnect_def client_wf_def client_phase_def
      Let_def split: if_splits)

section \<open>Operations on a connection\<close>

lemma conn_init_message: "client_conn A (client_init_message k a c) = client_conn A c"
  by (rule client_conn_cong) (simp_all add: client_simps)

lemma conn_send: "client_conn A c \<Longrightarrow> client_conn A (client_send k c)"
proof (cases rule: client_send_cases [of k c])
  case encode
  then show "client_conn A c \<Longrightarrow> ?thesis" by (simp add: conn_pending_disconnect)
next
  case (wrote payload buf fault r os)
  have "fds os = fds (c_sys c)"
    using wrote(2) fds_sys_write [of "c_server_fd c" "take (length payload + header_sizeof) buf" "c_sys c"]
    by simp
  then have "client_conn A (c\<lparr>c_out_buf := buf, c_fault := fault, c_sys := os\<rparr>) = client_conn A c"
    by (intro client_conn_cong) simp_all
  then show "client_conn A c \<Longrightarrow> ?thesis"
    by (simp add: wrote(3) Let_def conn_pending_disconnect)
qed

lemma send_closing: "client_phase c = Closing \<Longrightarrow> client_phase (client_send k c) = Closing"
proof (cases rule: client_send_cases [of k c])
  case encode
  then show "client_phase c = Closing \<Longrightarrow> ?thesis"
    by (auto simp: client_phase_def client_simps split: if_splits)
next
  case (wrote payload buf fault r os)
  then show "client_phase c = Closing \<Longrightarrow> ?thesis"
    by (auto simp: client_phase_def client_simps Let_def split: if_splits)
qed

lemma conn_calls:
  "client_conn A c \<Longrightarrow> Client_stop \<notin> set rs \<Longrightarrow> client_conn A (fold (client_call k) rs c)"
proof (induction rs arbitrary: c)
  case Nil
  then show ?case by simp
next
  case (Cons r rs)
  have "client_conn A (client_call k r c)"
    using Cons.prems by (cases r) (auto simp: conn_init_message conn_send)
  then show ?case using Cons by simp
qed

lemma conn_run_callback:
  assumes "client_conn A c" "Client_stop \<notin> set (snd (cb (c_app c)))"
  shows "client_conn A (run_callback k cb ev c)"
proof -
  have "client_conn A (c\<lparr>c_app := u, c_log := l\<rparr>)" for u l
    using assms(1) by (subst client_conn_cong [of _ c]) simp_all
  then show ?thesis
    using assms(2) by (auto simp: run_callback_def conn_calls split: prod.splits)
qed

lemma conn_handle_message:
  assumes "client_conn A c"
  shows "client_conn A (cl_handle_message k ty c)"
proof -
  have upd: "client_conn A (c\<lparr>c_in_message := m\<rparr>)" "client_conn A (c\<lparr>c_pong_received := b\<rparr>)" for m b
    using assms by (subst client_conn_cong [of _ c]; simp)+
  have "client_app_ok c" using assms by (simp add: client_conn_def)
  then have cb: "c_on_message c n = Some f \<Longrightarrow> Client_stop \<notin> set (snd (f m u))" for n f m u
    by (simp add: client_app_ok_def)
  show ?thesis
    using assms upd cb
    by (auto simp: cl_handle_message_def cl_handle_message_user_def cl_handle_message_pong_def
        Let_def conn_pending_disconnect split: option.splits prod.splits intro!: conn_run_callback)
qed

text \<open>
  What every step of the receiving loop keeps, the loop keeps.
\<close>

lemma process_socket_keeps:
  assumes upd: "\<And>i c. P c \<Longrightarrow> P (c\<lparr>c_input := i\<rparr>)"
    and pend: "\<And>r c. P c \<Longrightarrow> P (cl_pending_disconnect r c)"
    and msg: "\<And>t c. P c \<Longrightarrow> P (cl_handle_message k t c)"
    and P: "P c"
  shows "P (cl_process_socket k as c)"
  using P msg
proof (induction k as c rule: cl_process_socket.induct)
  case (1 k as c)
  obtain r as' where rd: "sys_read (c_server_fd c) (i_left (c_input c)) as (c_sys c) = (r, as')"
    by (cases "sys_read (c_server_fd c) (i_left (c_input c)) as (c_sys c)")
  show ?case
  proof (cases r)
    case (Inl e)
    then show ?thesis
      by (subst cl_process_socket.simps) (simp add: rd pend "1.prems")
  next
    case (Inr bs)
    let ?c1 = "c\<lparr>c_input := input_read bs (c_input c)\<rparr>"
    obtain go c3 where mid: "(if i_state (c_input ?c1) = Header
         then
           (let c2 = ?c1\<lparr>c_input := (c_input ?c1)\<lparr>i_left :=
                   unat (messi_header_get_size (input_header (c_input ?c1)))\<rparr>\<rparr>
            in if i_left (c_input c2) + header_sizeof > i_cap (c_input c2)
               then (False, cl_pending_disconnect Message_too_big c2)
               else (True, c2\<lparr>c_input := (c_input c2)\<lparr>i_state := Payload\<rparr>\<rparr>))
         else (True, ?c1)) = (go, c3)"
      by fastforce
    have P1: "P ?c1" by (rule upd) (rule "1.prems")
    have P3: "P c3"
      using mid P1 "1.prems"(1) by (auto simp: Let_def pend upd split: if_splits)
    then have P4: "P (cl_reset_input_encoded (cl_handle_message k t c3))" for t
      unfolding cl_reset_input_encoded_def by (intro upd "1.prems"(2))
    have eq: "cl_process_socket k as c =
        (if bs = [] then cl_pending_disconnect Connection_closed c
         else if i_left (c_input ?c1) > 0 then cl_process_socket k as' ?c1
         else if \<not> go then c3
         else if i_left (c_input c3) = 0
         then cl_process_socket k as' (cl_reset_input_encoded
                (cl_handle_message k (header_type (input_header (c_input c3))) c3))
         else cl_process_socket k as' c3)"
      unfolding cl_process_socket.simps [of k as c] rd Inr prod.case sum.case Let_def [of ?c1] mid
      by (cases go) simp_all
    have IH1: "P (cl_process_socket k as' ?c1)" if "bs \<noteq> []" "i_left (c_input ?c1) > 0"
      using "1.IH"(1) [OF rd [symmetric] Inr that(1) refl that(2) P1] "1.prems"(2) by blast
    have IH2: "P (cl_process_socket k as' (cl_reset_input_encoded
        (cl_handle_message k (header_type (input_header (c_input c3))) c3)))"
      if "bs \<noteq> []" "\<not> i_left (c_input ?c1) > 0" go "i_left (c_input c3) = 0"
      using "1.IH"(2) [OF rd [symmetric] Inr that(1) refl that(2) mid [symmetric] _ that(4) P4]
        that(3) "1.prems"(2) by blast
    have IH3: "P (cl_process_socket k as' c3)"
      if "bs \<noteq> []" "\<not> i_left (c_input ?c1) > 0" go "i_left (c_input c3) \<noteq> 0"
      using "1.IH"(3) [OF rd [symmetric] Inr that(1) refl that(2) mid [symmetric] _ that(4) P3]
        that(3) "1.prems"(2) by blast
    show ?thesis
      unfolding eq using IH1 IH2 IH3 P3 pend [OF "1.prems"(1)] by (simp split: if_split)
  qed
qed

lemma conn_process_socket: "client_conn A c \<Longrightarrow> client_conn A (cl_process_socket k as c)"
proof (rule process_socket_keeps [of "client_conn A"])
  fix i c
  assume "client_conn A c"
  then show "client_conn A (c\<lparr>c_input := i\<rparr>)" by (subst client_conn_cong [of _ c]) simp_all
qed (auto intro: conn_pending_disconnect conn_handle_message)

lemma conn_sys:
  "client_conn A c \<Longrightarrow> fds os = fds (c_sys c) \<Longrightarrow> client_conn A (c\<lparr>c_sys := os\<rparr>)"
  by (subst client_conn_cong [of _ c]) simp_all

lemma conn_keep_alive_timer:
  assumes "client_conn A c"
  shows "client_conn A (cl_process_keep_alive_timer as c)"
proof -
  obtain res os1 where t: "sys_timerfd_settime (c_keep_alive_timer_fd c) 2 (c_sys c) = (res, os1)"
    by fastforce
  let ?c1 = "c\<lparr>c_sys := os1\<rparr>"
  have c1: "client_conn A ?c1"
    by (rule conn_sys [OF assms fds_results(6) [OF t]])
  have c2: "client_conn A (?c1\<lparr>c_sys := os2\<rparr>)" "client_conn A (?c1\<lparr>c_sys := os2, c_pong_received := b\<rparr>)"
    if "sys_write d bs os1 = (w, os2)" for d bs w os2 b
    using conn_sys [OF c1, of os2] fds_results(7) [OF that] client_conn_cong
      [of "?c1\<lparr>c_sys := os2, c_pong_received := b\<rparr>" "?c1\<lparr>c_sys := os2\<rparr>" A] by simp_all
  show ?thesis
    using assms c1 c2
    by (auto simp: cl_process_keep_alive_timer_def cl_start_keep_alive_timer_def
        cl_start_timer_def t Let_def conn_pending_disconnect split: prod.splits sum.splits)
qed

section \<open>Connecting\<close>

lemma epoll_ctl_add_eq:
  "cl_epoll_ctl_add d c = (r, c') \<Longrightarrow> \<exists>os. c' = c\<lparr>c_sys := os\<rparr> \<and> fds os = fds (c_sys c)"
  by (auto simp: cl_epoll_ctl_add_def split: prod.splits dest: fds_results(5))

lemma start_timer_eq:
  "cl_start_timer d n c = (r, c') \<Longrightarrow> \<exists>os. c' = c\<lparr>c_sys := os\<rparr> \<and> fds os = fds (c_sys c)"
  by (auto simp: cl_start_timer_def split: prod.splits dest: fds_results(6))

lemma epoll_ctl_del_eq: "\<exists>os. cl_epoll_ctl_del d c = c\<lparr>c_sys := os\<rparr> \<and> fds os = fds (c_sys c)"
  unfolding cl_epoll_ctl_del_def using fds_call_epoll_ctl by blast

lemma close_eq: "cl_close d c = c\<lparr>c_sys := sys_close d (c_sys c)\<rparr>"
  by (simp add: cl_close_def)

text \<open>The cleanup code closes what was opened and leaves the rest of the client alone.\<close>

lemma connect_out1_eq:
  "cl_connect_out1 d c = (- 1, c\<lparr>c_sys := sys_close d (c_sys c)\<rparr>)"
  by (simp add: cl_connect_out1_def close_eq)

lemma connect_out2_eq:
  "\<exists>os. cl_connect_out2 d c = (- 1, c\<lparr>c_sys := os\<rparr>) \<and> fds os = removeAll d (fds (c_sys c))"
  using epoll_ctl_del_eq [of d c] by (auto simp: cl_connect_out2_def connect_out1_eq os_simps)

lemma connect_out3_eq:
  "\<exists>os. cl_connect_out3 d c = (- 1, c\<lparr>c_sys := os\<rparr>) \<and>
     fds os = removeAll d (removeAll (c_keep_alive_timer_fd c) (fds (c_sys c)))"
  using connect_out2_eq [of d "cl_close (c_keep_alive_timer_fd c) c"]
  by (auto simp: cl_connect_out3_def close_eq os_simps)

lemma connect_out4_eq:
  "\<exists>os. cl_connect_out4 d c = (- 1, c\<lparr>c_sys := os\<rparr>) \<and>
     fds os = removeAll d (removeAll (c_keep_alive_timer_fd c) (fds (c_sys c)))"
proof -
  obtain os where os: "cl_epoll_ctl_del (c_keep_alive_timer_fd c) c = c\<lparr>c_sys := os\<rparr>"
    "fds os = fds (c_sys c)"
    using epoll_ctl_del_eq by blast
  show ?thesis
    using connect_out3_eq [of d "c\<lparr>c_sys := os\<rparr>"] os by (auto simp: cl_connect_out4_def)
qed

text \<open>The second half of \<open>connect_to_server\<close>, once the socket \<open>s\<close> is connected and registered.\<close>

definition connect_timer ::
    "('i, 'o) codec \<Rightarrow> fd \<Rightarrow> ('u, 'i, 'o) client \<Rightarrow> int \<times> ('u, 'i, 'o) client" where
  "connect_timer k s c =
     (let (d, os) = sys_timerfd_create (c_sys c);
          c = c\<lparr>c_keep_alive_timer_fd := d, c_sys := os\<rparr>
      in if d = - 1 then cl_connect_out2 s c
         else
      let (res, c) = cl_epoll_ctl_add d c
      in if res = - 1 then cl_connect_out3 s c
         else
      let (res, c) = cl_start_keep_alive_timer c
      in if res \<noteq> 0 then cl_connect_out4 s c
         else
      (0, run_callback k (c_on_connected c) Connected (c\<lparr>c_server_fd := s, c_pong_received := True\<rparr>)))"

lemma connect_timer_cases:
  assumes F: "\<forall>d \<in> set F. 0 \<le> d" "s = lowest_free F" "fds (c_sys c) = s # F"
  obtains (failed) ka os where
      "connect_timer k s c = (- 1, c\<lparr>c_keep_alive_timer_fd := ka, c_sys := os\<rparr>)"
      "set (fds os) = set F" "ka = - 1 \<or> ka \<notin> set F \<and> s < ka"
  | (connected) ka os where "ka = lowest_free (s # F)" "fds os = ka # s # F"
      "connect_timer k s c = (0, run_callback k (c_on_connected c) Connected
         (c\<lparr>c_keep_alive_timer_fd := ka, c_sys := os, c_server_fd := s, c_pong_received := True\<rparr>))"
proof -
  have s: "s \<notin> set F" "0 \<le> s" using F(2) lowest_free [of F] by auto
  obtain ka os5 where a5: "sys_timerfd_create (c_sys c) = (ka, os5)" by fastforce
  let ?c5 = "c\<lparr>c_keep_alive_timer_fd := ka, c_sys := os5\<rparr>"
  show ?thesis
  proof (cases "ka = - 1")
    case True
    then have "fds os5 = s # F"
      using fds_results(2) [OF a5] F(3) lowest_free(2) [of "fds (c_sys c)"] by auto
    then show ?thesis
      using connect_out2_eq [of s ?c5] True s(1) failed [where ka = ka]
      by (auto simp: connect_timer_def a5)
  next
    case False
    then have ka: "ka = lowest_free (s # F)" "fds os5 = ka # s # F"
      using fds_results(2) [OF a5] F(3) by auto
    then have ka': "ka \<notin> set (s # F)" "s < ka"
      using lowest_free(1) [of "s # F"] lowest_free_Cons_greater [OF F(1)] F(2) by auto
    obtain r6 os6 where a6: "cl_epoll_ctl_add ka ?c5 = (r6, ?c5\<lparr>c_sys := os6\<rparr>)"
        and f6: "fds os6 = ka # s # F"
      using epoll_ctl_add_eq [of ka ?c5] ka(2) by (cases "cl_epoll_ctl_add ka ?c5") auto
    obtain r7 os7 where a7: "cl_start_keep_alive_timer (?c5\<lparr>c_sys := os6\<rparr>) =
        (r7, ?c5\<lparr>c_sys := os7\<rparr>)" and f7: "fds os7 = ka # s # F"
      using start_timer_eq [of ka 2 "?c5\<lparr>c_sys := os6\<rparr>"] f6
      by (cases "cl_start_timer ka 2 (?c5\<lparr>c_sys := os6\<rparr>)")
        (auto simp: cl_start_keep_alive_timer_def)
    have dropped: thesis
      if "connect_timer k s c = (- 1, c\<lparr>c_keep_alive_timer_fd := ka, c_sys := os\<rparr>)"
        "fds os = removeAll s (removeAll ka (ka # s # F))" for os
      using failed [OF that(1)] that(2) ka' s by auto
    note eq = connect_timer_def [of k s c, unfolded a5 Let_def prod.case, unfolded if_not_P [OF False] a6 prod.case]
    consider "r6 = - 1" | "r6 \<noteq> - 1" "r7 \<noteq> 0" | "r6 \<noteq> - 1" "r7 = 0" by blast
    then show ?thesis
    proof cases
      case 1
      then show ?thesis
        using connect_out3_eq [of s "?c5\<lparr>c_sys := os6\<rparr>"] dropped eq by (auto simp: f6)
    next
      case 2
      then show ?thesis
        using connect_out4_eq [of s "?c5\<lparr>c_sys := os7\<rparr>"] dropped eq a7 by (auto simp: f7)
    next
      case 3
      then show ?thesis using connected [OF ka(1) f7] eq a7 by simp
    qed
  qed
qed

lemma connect_cases:
  assumes F: "\<forall>d \<in> set (fds (c_sys c)). 0 \<le> d"
  obtains (failed) ka os where
      "cl_connect_to_server k c = (- 1, c\<lparr>c_keep_alive_timer_fd := ka, c_sys := os\<rparr>)"
      "set (fds os) = set (fds (c_sys c))"
      "ka = c_keep_alive_timer_fd c \<or> ka = - 1 \<or>
       ka \<notin> set (fds (c_sys c)) \<and> lowest_free (fds (c_sys c)) < ka"
  | (connected) s ka os where
      "s = lowest_free (fds (c_sys c))" "ka = lowest_free (s # fds (c_sys c))"
      "cl_connect_to_server k c = (0, run_callback k (c_on_connected c) Connected
         (c\<lparr>c_keep_alive_timer_fd := ka, c_sys := os, c_server_fd := s, c_pong_received := True\<rparr>))"
      "fds os = ka # s # fds (c_sys c)"
proof -
  let ?F = "fds (c_sys c)"
  obtain s os1 where a1: "sys_socket (c_sys c) = (s, os1)" by fastforce
  have same: thesis
    if "cl_connect_to_server k c = (- 1, c\<lparr>c_sys := os\<rparr>)" "set (fds os) = set ?F" for os
    using failed [where ka = "c_keep_alive_timer_fd c" and os = os] that by simp
  show ?thesis
  proof (cases "s = - 1")
    case True
    then show ?thesis
      using fds_results(1) [OF a1] assms a1 lowest_free(2) [of ?F]
      by (intro same [of os1]) (auto simp: cl_connect_to_server_def)
  next
    case False
    then have s: "s = lowest_free ?F" "fds os1 = s # ?F" "s \<notin> set ?F"
      using fds_results(1) [OF a1] lowest_free(1) [of ?F] by auto
    let ?ip = "case aton os1 (c_address c) of None \<Rightarrow> 0 | Some a \<Rightarrow> a"
    obtain r2 os2 where a2: "sys_connect s ?ip (sin_port (c_port c)) os1 = (r2, os2)" by fastforce
    obtain r3 os3 where a3: "messi_make_non_blocking s os2 = (r3, os3)" by fastforce
    obtain r4 os4 where a4: "cl_epoll_ctl_add s (c\<lparr>c_sys := os3\<rparr>) = (r4, c\<lparr>c_sys := os4\<rparr>)"
        and f4: "fds os4 = fds os3"
      using epoll_ctl_add_eq [of s "c\<lparr>c_sys := os3\<rparr>"]
      by (cases "cl_epoll_ctl_add s (c\<lparr>c_sys := os3\<rparr>)") auto
    have f: "fds os2 = s # ?F" "fds os3 = s # ?F" "fds os4 = s # ?F"
      using s(2) fds_results(3) [OF a2] fds_results(4) [OF a3] f4 by simp_all
    show ?thesis
    proof (cases "r2 = - 1 \<or> r3 = - 1 \<or> r4 = - 1")
      case True
      then have "cl_connect_to_server k c \<in> (\<lambda>os. cl_connect_out1 s (c\<lparr>c_sys := os\<rparr>)) ` {os2, os3, os4}"
        by (auto simp: cl_connect_to_server_def Let_def a1 a2 a3 a4 False)
      then obtain os where "os \<in> {os2, os3, os4}"
          "cl_connect_to_server k c = cl_connect_out1 s (c\<lparr>c_sys := os\<rparr>)"
        by blast
      then show ?thesis
        using s(3) f by (intro same [of "sys_close s os"]) (auto simp: connect_out1_eq os_simps)
    next
      case ok: False
      have eq: "cl_connect_to_server k c = connect_timer k s (c\<lparr>c_sys := os4\<rparr>)"
        using False ok by (simp add: cl_connect_to_server_def connect_timer_def a1 a2 a3 a4 Let_def split: prod.splits)
      show ?thesis
        using s(1) f(3)
        by (cases rule: connect_timer_cases [OF F s(1), of "c\<lparr>c_sys := os4\<rparr>" k])
          (auto simp: eq intro: failed connected)
    qed
  qed
qed

section \<open>Disconnecting\<close>

lemma start_reconnect_timer_down:
  assumes "client_wf c" "client_phase c = Down"
  obtains (waiting) os where "snd (cl_start_reconnect_timer c) =
        c\<lparr>c_reconnect_timer_fd := lowest_free (fds (c_sys c)), c_sys := os\<rparr>"
      "fds os = lowest_free (fds (c_sys c)) # fds (c_sys c)"
  | (down) os where "snd (cl_start_reconnect_timer c) = c\<lparr>c_reconnect_timer_fd := - 1, c_sys := os\<rparr>"
      "set (fds os) = set (fds (c_sys c))"
proof -
  let ?F = "fds (c_sys c)"
  have F: "\<forall>d \<in> set ?F. 0 \<le> d" using assms(1) by (simp add: client_wf_def Let_def)
  obtain d os1 where a1: "sys_timerfd_create (c_sys c) = (d, os1)" by fastforce
  show ?thesis
  proof (cases "d = - 1")
    case True
    then show ?thesis
      using fds_results(2) [OF a1] F lowest_free(2) [of ?F]
      by (intro down [of os1]) (auto simp: cl_start_reconnect_timer_def a1)
  next
    case False
    then have d: "d = lowest_free ?F" "fds os1 = d # ?F" "d \<notin> set ?F"
      using fds_results(2) [OF a1] lowest_free(1) [of ?F] by auto
    let ?c = "c\<lparr>c_reconnect_timer_fd := d, c_sys := os1\<rparr>"
    obtain r2 os2 where a2: "cl_epoll_ctl_add d ?c = (r2, ?c\<lparr>c_sys := os2\<rparr>)" "fds os2 = d # ?F"
      using epoll_ctl_add_eq [of d ?c] d(2) by (cases "cl_epoll_ctl_add d ?c") auto
    obtain r3 os3 where a3: "cl_start_timer d 1 (?c\<lparr>c_sys := os2\<rparr>) = (r3, ?c\<lparr>c_sys := os3\<rparr>)"
        "fds os3 = d # ?F"
      using start_timer_eq [of d 1 "?c\<lparr>c_sys := os2\<rparr>"] a2(2)
      by (cases "cl_start_timer d 1 (?c\<lparr>c_sys := os2\<rparr>)") auto
    show ?thesis
    proof (cases "r2 = - 1")
      case True
      then show ?thesis
        using False d a2
        by (intro down [of "sys_close d os2"])
          (auto simp: cl_start_reconnect_timer_def a1 close_eq os_simps)
    next
      case ok: False
      then show ?thesis
        using False d a2 a3
        by (intro waiting [of os3]) (simp_all add: cl_start_reconnect_timer_def a1)
    qed
  qed
qed

text \<open>What the phase, the ownership and the invariant depend on.\<close>

lemma client_view_cong:
  assumes "set (fds (c_sys c')) = set (fds (c_sys c))" "c_server_fd c' = c_server_fd c"
    "c_keep_alive_timer_fd c' = c_keep_alive_timer_fd c"
    "c_reconnect_timer_fd c' = c_reconnect_timer_fd c"
    "c_pending_disconnect c' = c_pending_disconnect c"
  shows "client_wf c' = client_wf c" "client_phase c' = client_phase c"
    "client_foreign c' = client_foreign c"
proof -
  have "lowest_free (fds (c_sys c')) = lowest_free (fds (c_sys c))"
    by (rule lowest_free_cong) (rule assms(1))
  with assms show "client_wf c' = client_wf c" "client_phase c' = client_phase c"
    "client_foreign c' = client_foreign c"
    by (simp_all add: client_wf_def client_phase_def client_foreign_def)
qed

lemma start_reconnect_timer_phase:
  assumes "client_wf c" "client_phase c = Down" "client_app_ok c"
  shows "client_wf (snd (cl_start_reconnect_timer c)) \<and>
    client_phase (snd (cl_start_reconnect_timer c)) \<in> {Waiting, Down} \<and>
    client_foreign (snd (cl_start_reconnect_timer c)) = client_foreign c \<and>
    client_app_ok (snd (cl_start_reconnect_timer c))"
proof -
  let ?d = "lowest_free (fds (c_sys c))"
  have d: "?d \<notin> set (fds (c_sys c))" "0 \<le> ?d" by (rule lowest_free)+
  show ?thesis
  proof (cases rule: start_reconnect_timer_down [OF assms(1,2), case_names waiting down])
    case (waiting os)
    then show ?thesis
      using assms d unfolding waiting(1)
      by (auto simp: client_wf_def client_phase_def client_foreign_def Let_def client_app_ok_def
          split: if_splits)
  next
    case (down os)
    have "c_reconnect_timer_fd c = - 1"
      using assms(2) by (simp add: client_phase_def split: if_splits)
    then show ?thesis
      using assms client_view_cong [of "c\<lparr>c_reconnect_timer_fd := - 1, c_sys := os\<rparr>" c]
      unfolding down(1) by (simp add: down(2) client_app_ok_def)
  qed
qed

lemma disconnect_closing:
  assumes "client_wf c" "client_phase c = Closing"
  shows "client_wf (cl_disconnect c)" "client_phase (cl_disconnect c) = Down"
    "client_foreign (cl_disconnect c) = client_foreign c"
proof -
  have "c_pending_disconnect c" "c_server_fd c = - 1" "c_reconnect_timer_fd c = - 1"
    using assms by (auto simp: client_wf_def client_phase_def Let_def split: if_splits)
  then show "client_wf (cl_disconnect c)" "client_phase (cl_disconnect c) = Down"
    "client_foreign (cl_disconnect c) = client_foreign c"
    using assms by (auto simp: client_wf_def client_phase_def client_foreign_def Let_def
        cl_disconnect_def client_simps)
qed

lemma prepare_view [simp]:
  "client_wf (client_init_message k a c) = client_wf c"
  "client_phase (client_init_message k a c) = client_phase c"
  "client_foreign (client_init_message k a c) = client_foreign c"
  "client_app_ok (client_init_message k a c) = client_app_ok c"
  using client_view_cong [of "client_init_message k a c" c]
    app_ok_cong [of "client_init_message k a c" c]
  by (simp_all add: client_simps)

lemma calls_prepare:
  assumes "set rs \<inter> {Client_send, Client_stop} = {}"
  shows "client_wf (fold (client_call k) rs c) = client_wf c \<and>
    client_phase (fold (client_call k) rs c) = client_phase c \<and>
    client_foreign (fold (client_call k) rs c) = client_foreign c \<and>
    client_app_ok (fold (client_call k) rs c) = client_app_ok c"
  using assms
proof (induction rs arbitrary: c)
  case (Cons r rs)
  then show ?case by (cases r) simp_all
qed simp

lemma run_prepare:
  assumes "set (snd (cb (c_app c))) \<inter> {Client_send, Client_stop} = {}"
  shows "client_wf (run_callback k cb ev c) = client_wf c"
    "client_phase (run_callback k cb ev c) = client_phase c"
    "client_foreign (run_callback k cb ev c) = client_foreign c"
    "client_app_ok (run_callback k cb ev c) = client_app_ok c"
proof -
  obtain u rs where cb: "cb (c_app c) = (u, rs)" by fastforce
  note log = client_view_cong [of "c\<lparr>c_app := u, c_log := c_log c @ [ev]\<rparr>" c]
    app_ok_cong [of "c\<lparr>c_app := u, c_log := c_log c @ [ev]\<rparr>" c]
  show "client_wf (run_callback k cb ev c) = client_wf c"
    "client_phase (run_callback k cb ev c) = client_phase c"
    "client_foreign (run_callback k cb ev c) = client_foreign c"
    "client_app_ok (run_callback k cb ev c) = client_app_ok c"
    using calls_prepare [of rs k "c\<lparr>c_app := u, c_log := c_log c @ [ev]\<rparr>"] assms log by (simp_all add: run_callback_def cb)
qed

text \<open>The second part of \<open>NAME_client_process\<close>: a pending disconnection is carried out.\<close>

definition client_finish_disconnect ::
    "('i, 'o) codec \<Rightarrow> ('u, 'i, 'o) client \<Rightarrow> ('u, 'i, 'o) client" where
  "client_finish_disconnect k c =
     (let c2 = cl_disconnect c;
          c3 = run_callback k (c_on_disconnected c2 (c_disconnect_reason c2))
                 (Disconnected (c_disconnect_reason c2)) c2
      in snd (cl_start_reconnect_timer c3))"

lemma disconnected_down:
  assumes "client_wf c" "client_phase c = Closing" "client_app_ok c"
    "c2 = cl_disconnect c"
    "c3 = run_callback k (c_on_disconnected c2 (c_disconnect_reason c2))
       (Disconnected (c_disconnect_reason c2)) c2"
  shows "client_wf c3 \<and> client_phase c3 = Down \<and> client_foreign c3 = client_foreign c \<and> client_app_ok c3"
proof -
  have c2: "client_wf c2" "client_phase c2 = Down" "client_foreign c2 = client_foreign c" "client_app_ok c2"
    using disconnect_closing [OF assms(1,2)] assms(3,4) app_ok_cong [of "cl_disconnect c" c]
    by (simp_all add: client_simps)
  then have "set (snd (c_on_disconnected c2 (c_disconnect_reason c2) (c_app c2))) \<inter>
      {Client_send, Client_stop} = {}"
    unfolding client_app_ok_def by blast
  then show ?thesis
    using c2 run_prepare [of "c_on_disconnected c2 (c_disconnect_reason c2)" c2] assms(5) by simp
qed

lemma finish_disconnect:
  assumes "client_wf c" "client_phase c = Closing" "client_app_ok c"
  shows "client_wf (client_finish_disconnect k c) \<and>
    client_phase (client_finish_disconnect k c) \<in> {Waiting, Down} \<and>
    client_foreign (client_finish_disconnect k c) = client_foreign c \<and>
    client_app_ok (client_finish_disconnect k c)"
  using disconnected_down [OF assms refl refl, of k]
    start_reconnect_timer_phase [of "run_callback k
      (c_on_disconnected (cl_disconnect c) (c_disconnect_reason (cl_disconnect c)))
      (Disconnected (c_disconnect_reason (cl_disconnect c))) (cl_disconnect c)"]
  by (simp add: client_finish_disconnect_def Let_def)

lemma wf_pending: "client_wf c \<Longrightarrow> c_pending_disconnect c \<longleftrightarrow> client_phase c = Closing"
  by (auto simp: client_wf_def client_phase_def Let_def split: if_splits)

section \<open>The events\<close>

lemma conn_phase: "client_conn A c \<Longrightarrow> client_wf c \<and> client_phase c \<in> {Up, Closing} \<and>
    client_foreign c = A \<and> client_app_ok c"
  by (simp add: client_conn_def)

text \<open>A new connection, up to the calls that \<open>on_connected\<close> makes.\<close>

lemma connect_phase:
  assumes "client_wf c" "client_phase c = Down" "client_app_ok c"
    "cl_connect_to_server k c = (res, c')"
  shows "if res = 0 then client_conn (client_foreign c) c'
    else client_wf c' \<and> client_phase c' = Down \<and> client_foreign c' = client_foreign c \<and> client_app_ok c'"
proof -
  let ?F = "fds (c_sys c)"
  have F: "\<forall>d \<in> set ?F. 0 \<le> d" using assms(1) by (simp add: client_wf_def Let_def)
  have down: "c_server_fd c = - 1" "\<not> c_pending_disconnect c" "c_reconnect_timer_fd c = - 1"
      "c_keep_alive_timer_fd c \<notin> set ?F"
    using assms(1,2) by (auto simp: client_phase_def client_wf_def Let_def split: if_splits)
  show ?thesis
  proof (cases rule: connect_cases [OF F, of k, case_names failed connected])
    case (failed ka os)
    then show ?thesis
      using assms down lowest_free_cong [OF failed(2)]
      by (auto simp: client_wf_def client_phase_def client_foreign_def Let_def client_app_ok_def)
  next
    case (connected s ka os)
    let ?c = "c\<lparr>c_keep_alive_timer_fd := ka, c_sys := os, c_server_fd := s, c_pong_received := True\<rparr>"
    have "s \<notin> set ?F" "0 \<le> s" "ka \<notin> set (s # ?F)" "0 \<le> ka"
      unfolding connected(2) unfolding connected(1) by (rule lowest_free)+
    then have "client_conn (client_foreign c) ?c"
      using F down assms(3) connected(4)
      by (auto simp: client_conn_def client_wf_def client_phase_def client_foreign_def Let_def
          client_app_ok_def)
    moreover have "Client_stop \<notin> set (snd (c_on_connected c (c_app c)))"
      using assms(3) by (simp add: client_app_ok_def)
    ultimately show ?thesis
      using connected(3) assms(4) conn_run_callback [of _ ?c "c_on_connected c" k Connected] by simp
  qed
qed

text \<open>The reconnect timer is given up before the next attempt.\<close>

lemma reconnect_timer_closed:
  assumes "client_wf c" "client_phase c = Waiting" "client_app_ok c"
    "c' = (cl_close_fd (c_reconnect_timer_fd c) c)\<lparr>c_reconnect_timer_fd := - 1\<rparr>"
  shows "client_wf c' \<and> client_phase c' = Down \<and> client_foreign c' = client_foreign c \<and> client_app_ok c'"
proof -
  let ?F = "fds (c_sys c)" and ?r = "c_reconnect_timer_fd c"
  have w: "c_server_fd c = - 1" "\<not> c_pending_disconnect c" "?r \<in> set ?F" "0 \<le> ?r"
    "c_keep_alive_timer_fd c \<notin> set ?F" "c_keep_alive_timer_fd c = - 1 \<or> ?r < c_keep_alive_timer_fd c"
    "\<forall>d \<in> set ?F. 0 \<le> d"
    using assms(1,2) by (auto simp: client_phase_def client_wf_def Let_def split: if_splits)
  have "lowest_free (removeAll ?r ?F) \<le> ?r"
    using w(4) by (intro lowest_free_least) simp_all
  then show ?thesis
    using w assms(3,4)
    by (auto simp: client_wf_def client_phase_def client_foreign_def Let_def client_app_ok_def client_simps)
qed

section \<open>The state machine\<close>

datatype client_label = Start | Stop | Prepare | Send | Event

text \<open>
  The abstract specification: what each operation may do to the phase. A connection ends in
  \<open>Waiting\<close>, or in \<open>Down\<close> when the system refuses the reconnect timer.
\<close>

inductive phase_step :: "client_label \<Rightarrow> phase \<Rightarrow> phase \<Rightarrow> bool" where
  "phase_step Start Down p"
| "phase_step Stop p Down"
| "phase_step Prepare p p"
| "phase_step Send Up Up"
| "phase_step Send Up Closing"
| "phase_step Send Closing Closing"
| "p \<noteq> Closing \<Longrightarrow> phase_step Event p p"
| "p \<noteq> Down \<Longrightarrow> q \<in> {Waiting, Down} \<Longrightarrow> phase_step Event p q"
| "phase_step Event Waiting Up"

inductive_simps phase_step_simps [simp]:
  "phase_step Start p q" "phase_step Stop p q" "phase_step Prepare p q" "phase_step Send p q"
  "phase_step Event p q"

text \<open>
  What an application does with a client: it starts it once, stops it, prepares messages,
  sends them while there is a connection, and passes every event of a descriptor on to
  \<open>NAME_client_process\<close>. Two things that the code does not prevent are left out: sending while
  there is no connection, and opening descriptors elsewhere in the process between the steps.
  \<open>LinuxClientFindings\<close> shows what they lead to.
\<close>

inductive client_step ::
    "('i, 'o) codec \<Rightarrow> client_label \<Rightarrow> ('u, 'i, 'o) client \<Rightarrow> ('u, 'i, 'o) client \<Rightarrow> bool"
  for k :: "('i, 'o) codec" where
  "client_phase c = Down \<Longrightarrow> client_step k Start c (client_start k c)"
| "client_step k Stop c (client_stop c)"
| "client_step k Prepare c (client_init_message k alloc c)"
| "client_phase c \<in> {Up, Closing} \<Longrightarrow> client_step k Send c (client_send k c)"
| "d \<in> set (fds (c_sys c)) \<Longrightarrow> client_step k Event c (client_process k d events as c)"

inductive_cases client_stepE [elim]: "client_step k l c c'"

lemma start_phase:
  assumes "client_wf c" "client_phase c = Down" "client_app_ok c"
  shows "client_wf (client_start k c) \<and> client_foreign (client_start k c) = client_foreign c \<and>
    client_app_ok (client_start k c)"
proof -
  obtain res c1 where c1: "cl_connect_to_server k c = (res, c1)" by fastforce
  show ?thesis
    using connect_phase [OF assms c1] start_reconnect_timer_phase [of c1]
    by (cases "res = 0") (simp_all add: client_start_def c1 client_conn_def)
qed

lemma stop_phase:
  assumes "client_wf c" "client_app_ok c"
  shows "client_wf (client_stop c) \<and> client_phase (client_stop c) = Down \<and>
    client_foreign (client_stop c) = client_foreign c \<and> client_app_ok (client_stop c)"
proof -
  have m1: "- 1 \<notin> set (fds (c_sys c))" and nn: "\<forall>d \<in> set (fds (c_sys c)). 0 \<le> d"
    using assms(1) by (auto simp: client_wf_def Let_def)
  have gone: "c_pending_disconnect c \<Longrightarrow> c_server_fd c = - 1"
    using assms(1) by (auto simp: client_wf_def client_phase_def Let_def split: if_splits)
  have down: "c_server_fd (client_stop c) = - 1"
    using gone by (simp add: client_stop_def cl_disconnect_def cl_pending_disconnect_def client_simps Let_def)
  have "fds (c_sys (client_stop c)) =
      (if c_reconnect_timer_fd c = - 1 then id else removeAll (c_reconnect_timer_fd c))
        (removeAll (c_keep_alive_timer_fd c)
          ((if c_pending_disconnect c then id else removeAll (c_server_fd c)) (fds (c_sys c))))"
    by (simp add: client_stop_def cl_disconnect_def cl_pending_disconnect_def client_simps Let_def)
  then have all: "set (fds (c_sys (client_stop c))) = client_foreign c"
    using m1 gone by (auto simp: client_foreign_def split: if_splits)
  have "client_app_ok (client_stop c)"
    using assms(2) app_ok_cong [of "client_stop c" c] by (simp add: client_simps)
  then show ?thesis
    using all nn m1 down
    by (simp add: client_wf_def client_phase_def client_foreign_def Let_def client_simps)
qed

text \<open>The first part of \<open>NAME_client_process\<close>: the descriptor selects the handler.\<close>

definition client_handle_event ::
    "('i, 'o) codec \<Rightarrow> fd \<Rightarrow> arrival list \<Rightarrow> ('u, 'i, 'o) client \<Rightarrow> ('u, 'i, 'o) client" where
  "client_handle_event k d as c =
     (if d = c_server_fd c then cl_process_socket k as c
      else if d = c_keep_alive_timer_fd c then cl_process_keep_alive_timer as c
      else if d = c_reconnect_timer_fd c then cl_process_reconnect_timer k c
      else c)"

lemma client_process_eq:
  "client_process k d events as c =
     (let c1 = client_handle_event k d as c
      in if c_pending_disconnect c1 then client_finish_disconnect k c1 else c1)"
  by (simp add: client_process_def client_handle_event_def client_finish_disconnect_def Let_def)

lemma reconnect_phase:
  assumes "client_wf c" "client_phase c = Waiting" "client_app_ok c"
  shows "client_wf (cl_process_reconnect_timer k c) \<and>
    client_foreign (cl_process_reconnect_timer k c) = client_foreign c \<and>
    client_app_ok (cl_process_reconnect_timer k c)"
proof -
  let ?c1 = "(cl_close_fd (c_reconnect_timer_fd c) c)\<lparr>c_reconnect_timer_fd := - 1\<rparr>"
  obtain res c2 where c2: "cl_connect_to_server k ?c1 = (res, c2)" by fastforce
  note c1 = reconnect_timer_closed [OF assms refl]
  show ?thesis
    using connect_phase [OF _ _ _ c2] start_reconnect_timer_phase [of c2] c1
    by (cases "res = 0") (simp_all add: cl_process_reconnect_timer_def c2 client_conn_def)
qed

lemma pending_keep_alive:
  "c_pending_disconnect c \<Longrightarrow> c_pending_disconnect (cl_process_keep_alive_timer as c)"
  by (auto simp: cl_process_keep_alive_timer_def cl_start_keep_alive_timer_def cl_start_timer_def
      Let_def client_simps split: prod.splits sum.splits)

text \<open>What the handlers do to the phase; an event of a descriptor of somebody else does nothing.\<close>

lemma handle_event_phase:
  assumes "client_wf c" "client_app_ok c" "d \<in> set (fds (c_sys c))"
  shows "client_wf (client_handle_event k d as c) \<and>
    client_foreign (client_handle_event k d as c) = client_foreign c \<and>
    client_app_ok (client_handle_event k d as c) \<and>
    (client_phase c \<in> {Up, Closing} \<longrightarrow> client_phase (client_handle_event k d as c) \<in> {Up, Closing}) \<and>
    (client_phase c = Closing \<longrightarrow> client_phase (client_handle_event k d as c) = Closing) \<and>
    (client_phase c = Down \<longrightarrow> client_handle_event k d as c = c)"
proof -
  have d: "d \<noteq> - 1" using assms(1,3) by (auto simp: client_wf_def Let_def)
  consider (conn) "client_phase c \<in> {Up, Closing}" | (waiting) "client_phase c = Waiting"
    | (down) "client_phase c = Down"
    by (cases "client_phase c") auto
  then show ?thesis
  proof cases
    case conn
    then have cc: "client_conn (client_foreign c) c" using assms by (simp add: client_conn_def)
    have rec: "d \<noteq> c_reconnect_timer_fd c"
      using assms(1) conn d by (auto simp: client_wf_def Let_def split: phase.splits)
    have "client_conn (client_foreign c) (client_handle_event k d as c)"
      using conn_process_socket [OF cc] conn_keep_alive_timer [OF cc] cc rec
      by (simp add: client_handle_event_def)
    moreover have "c_pending_disconnect (client_handle_event k d as c)" if "client_phase c = Closing"
    proof -
      have "c_server_fd c = - 1" "c_pending_disconnect c"
        using that by (auto simp: client_phase_def split: if_splits)
      then show ?thesis using d rec pending_keep_alive [of c as] by (simp add: client_handle_event_def)
    qed
    ultimately show ?thesis using conn wf_pending by (auto simp: client_conn_def)
  next
    case waiting
    then have "d \<noteq> c_server_fd c" "d \<noteq> c_keep_alive_timer_fd c"
      using assms(1,3) d by (auto simp: client_wf_def client_phase_def Let_def split: if_splits)
    then show ?thesis
      using reconnect_phase [OF assms(1) waiting assms(2)] assms waiting
      by (simp add: client_handle_event_def)
  next
    case down
    then have "d \<noteq> c_server_fd c" "d \<noteq> c_keep_alive_timer_fd c" "d \<noteq> c_reconnect_timer_fd c"
      using assms(1,3) d by (auto simp: client_wf_def client_phase_def Let_def split: if_splits)
    then show ?thesis using assms down by (simp add: client_handle_event_def)
  qed
qed

lemma process_phase:
  assumes "client_wf c" "client_app_ok c" "d \<in> set (fds (c_sys c))"
  shows "client_wf (client_process k d events as c) \<and>
    client_foreign (client_process k d events as c) = client_foreign c \<and>
    client_app_ok (client_process k d events as c) \<and>
    phase_step Event (client_phase c) (client_phase (client_process k d events as c))"
proof -
  let ?c1 = "client_handle_event k d as c"
  note h = handle_event_phase [OF assms, of k as]
  show ?thesis
  proof (cases "client_phase ?c1 = Closing")
    case True
    then have "client_phase c \<noteq> Down" using h by auto
    then show ?thesis
      using h True finish_disconnect [of ?c1 k] wf_pending [of ?c1]
      by (auto simp: client_process_eq Let_def)
  next
    case False
    have "phase_step Event (client_phase c) (client_phase ?c1)"
      using h False by (cases "client_phase c"; cases "client_phase ?c1") auto
    then show ?thesis
      using h False wf_pending [of ?c1] by (simp add: client_process_eq Let_def)
  qed
qed

lemma step_phase:
  assumes "client_wf c" "client_app_ok c" "client_step k l c c'"
  shows "client_wf c' \<and> client_app_ok c' \<and> client_foreign c' = client_foreign c \<and>
    phase_step l (client_phase c) (client_phase c')"
  using assms(3)
proof cases
  case 1
  then show ?thesis using start_phase [of c k] assms(1,2) by simp
next
  case 2
  then show ?thesis using stop_phase [of c] assms(1,2) by simp
next
  case (3 alloc)
  then show ?thesis using assms(1,2) by simp
next
  case 4
  then have "client_conn (client_foreign c) c" using assms(1,2) by (simp add: client_conn_def)
  then show ?thesis
    using conn_phase [OF conn_send, of _ c k] 4 by (auto simp: send_closing)
next
  case (5 d events as)
  then show ?thesis using process_phase [OF assms(1,2) 5(3), of k events as] by simp
qed

section \<open>Properties of the state machine\<close>

text \<open>C11: The client implements the state machine: from a state in order, every operation (start,
  stop, prepare, send on a connection, the event of any open descriptor) leads to a state in order
  and changes the phase as the specification \<open>phase_step\<close> allows; in particular no event leaves a
  disconnection half done. The descriptors that belong to others stay open and the client never
  acquires one that it does not account for.\<close>

theorem client_refines_phases:
  assumes "client_wf c" "client_app_ok c" "client_step k l c c'"
  shows "client_wf c' \<and> client_app_ok c' \<and> client_foreign c' = client_foreign c \<and>
    phase_step l (client_phase c) (client_phase c')"
  using assms by (rule step_phase)

lemma demo_on_message_cases:
  assumes "c_on_message demo_down n = Some f"
  shows "f = cl_on_message_default \<or> f = demo_on_message"
  using assms demo_down_callbacks(1,2) demo_down_callbacks(3) [of n] by (cases "n = 0"; cases "n = 1") auto

lemma demo_app_ok: "client_app_ok demo_up" "client_app_ok demo_down"
proof -
  have "Client_stop \<notin> set (snd (f m u))" if "c_on_message demo_down n = Some f" for n f m u
    using demo_on_message_cases [OF that]
    by (auto simp: cl_on_message_default_def demo_on_message_def)
  then show "client_app_ok demo_down"
    unfolding client_app_ok_def
    by (simp add: demo_down_callbacks(4,5) cl_on_connected_default_def cl_on_disconnected_default_def)
  then show "client_app_ok demo_up"
    using app_ok_cong [of demo_up demo_down] by (simp add: demo_up_def client_simps)
qed

lemma demo_wf:
  "client_wf demo_up" "client_phase demo_up = Up"
  "client_wf demo_down" "client_phase demo_down = Down"
  by (simp_all add: client_wf_def client_phase_def demo_up_fields demo_down_fields)

lemma client_refines_phases_witness:
  "client_wf (client_process demo_codec 4 1 [Chunk []] demo_up) \<and>
   phase_step Event Up (client_phase (client_process demo_codec 4 1 [Chunk []] demo_up))"
  using client_refines_phases [OF demo_wf(1) demo_app_ok(1) client_step.intros(5),
      of 4 demo_codec 1 "[Chunk []]"] demo_wf(2)
  by (simp add: demo_up_fields)

text \<open>What can be reached by any sequence of operations.\<close>

inductive client_reach ::
    "('i, 'o) codec \<Rightarrow> ('u, 'i, 'o) client \<Rightarrow> ('u, 'i, 'o) client \<Rightarrow> bool"
  for k :: "('i, 'o) codec" and c0 :: "('u, 'i, 'o) client" where
  "client_reach k c0 c0"
| "client_reach k c0 c \<Longrightarrow> client_step k l c c' \<Longrightarrow> client_reach k c0 c'"

text \<open>The descriptors a client holds in each phase.\<close>

definition client_owned :: "('u, 'i, 'o) client \<Rightarrow> fd set" where
  "client_owned c =
     (case client_phase c of
        Up \<Rightarrow> {c_server_fd c, c_keep_alive_timer_fd c}
      | Closing \<Rightarrow> {c_keep_alive_timer_fd c}
      | Waiting \<Rightarrow> {c_reconnect_timer_fd c}
      | Down \<Rightarrow> {})"

lemma wf_owned:
  assumes "client_wf c"
  shows "set (fds (c_sys c)) = client_foreign c \<union> client_owned c" "client_foreign c \<inter> client_owned c = {}"
  using assms
  by (auto simp: client_wf_def client_foreign_def client_owned_def client_phase_def Let_def
      split: if_splits)

lemma reach_wf:
  assumes "client_reach k c0 c" "client_wf c0" "client_app_ok c0"
  shows "client_wf c \<and> client_app_ok c \<and> client_foreign c = client_foreign c0"
  using assms
proof induction
  case (2 c l c')
  then show ?case using step_phase [of c k l c'] by simp
qed simp

text \<open>C12: A client that is used as intended never leaks a descriptor and never closes one of somebody
  else: the application starts it only when it is down, sends only while there is a connection (or
  one whose loss is not reported yet), does not stop it in a callback or send in \<open>on_disconnected\<close>,
  and opens no descriptors of its own in between. Then, whatever the server sends, whichever system
  calls fail and in whatever order the application does the rest, the open descriptors of the process are those that were open before the client was started and
  the one or two that the current phase of the client needs. In particular all are closed when the
  client has been stopped. Sending without a connection does leak one
  (\<open>client_send_while_down_leaks\<close>), and opening one may have it closed
  (\<open>client_stop_closes_foreign_descriptor\<close>).\<close>

theorem client_no_leak:
  assumes "client_reach k c0 c" "client_wf c0" "client_app_ok c0" "client_phase c0 = Down"
  shows "set (fds (c_sys c)) = set (fds (c_sys c0)) \<union> client_owned c \<and>
    set (fds (c_sys c0)) \<inter> client_owned c = {} \<and>
    set (fds (c_sys (client_stop c))) = set (fds (c_sys c0))"
proof -
  have c: "client_wf c" "client_app_ok c" "client_foreign c = set (fds (c_sys c0))"
    using reach_wf [OF assms(1-3)] wf_owned [OF assms(2)] assms(4) by (simp_all add: client_owned_def)
  then show ?thesis
    using wf_owned [of c] wf_owned [of "client_stop c"] stop_phase [of c]
    by (simp add: client_owned_def)
qed

lemma client_no_leak_witness:
  "set (fds (c_sys (client_stop demo_up))) = set (fds (c_sys demo_down)) \<and>
   client_owned demo_up = {4, 5}"
proof -
  have "client_reach demo_codec demo_down demo_up"
    unfolding demo_up_def
    by (rule client_reach.intros(2) [OF client_reach.intros(1) client_step.intros(1)])
      (rule demo_wf(4))
  from client_no_leak [OF this demo_wf(3) demo_app_ok(2) demo_wf(4)]
  show ?thesis by (simp add: client_owned_def demo_wf(2) demo_up_fields)
qed

end
