(* ===== verification/LinuxClientBehaviour.thy ===== *)
theory LinuxClientBehaviour
  imports LinuxClientPhases
begin

text \<open>
  What the operations of the linux client do: initialisation, connecting, sending, the
  messages handed to the application, the supervision of the connection, and how it is given
  up and set up again.
\<close>

unbundle bit_operations_syntax

section \<open>A system without failures\<close>

text \<open>No call fails, and the library's default \<open>epoll_ctl\<close> is used.\<close>

definition client_lucky :: "('u, 'i, 'o) client \<Rightarrow> bool" where
  "client_lucky c \<longleftrightarrow> outcomes (c_sys c) = [] \<and> c_epoll_ctl c = Epoll_default"

definition os_new_fd :: "os \<Rightarrow> os" where
  "os_new_fd os =
     (let n = lowest_free (fds os)
      in os\<lparr>fds := n # fds os, interest := (interest os)(n := None),
            armed := (armed os)(n := None), fdflags := (fdflags os)(n := 0),
            tx := (tx os)(n := []), peer := (peer os)(n := None)\<rparr>)"

lemma lucky_new_fd: "outcomes os = [] \<Longrightarrow> sys_new_fd os = (lowest_free (fds os), os_new_fd os)"
  by (simp add: sys_new_fd_def sys_try_Nil os_new_fd_def Let_def)

lemma lucky_epoll_add:
  "client_lucky c \<Longrightarrow> d \<in> set (fds (c_sys c)) \<Longrightarrow>
     cl_epoll_ctl_add d c =
       (0, c\<lparr>c_sys := (c_sys c)\<lparr>interest := (interest (c_sys c))(d := Some EPOLLIN)\<rparr>\<rparr>)"
  by (simp add: client_lucky_def cl_epoll_ctl_add_def messi_epoll_ctl_default_def
      sys_epoll_ctl_def sys_on_fd_ok)

lemma lucky_start_timer:
  "outcomes (c_sys c) = [] \<Longrightarrow> d \<in> set (fds (c_sys c)) \<Longrightarrow>
     cl_start_timer d n c = (0, c\<lparr>c_sys := (c_sys c)\<lparr>armed := (armed (c_sys c))(d := Some n)\<rparr>\<rparr>)"
  by (simp add: cl_start_timer_def sys_timerfd_settime_def sys_on_fd_ok)

lemma lucky_non_blocking:
  "outcomes os = [] \<Longrightarrow> d \<in> set (fds os) \<Longrightarrow>
     messi_make_non_blocking d os =
       (0, os\<lparr>fdflags := (fdflags os)(d := fdflags os d OR O_NONBLOCK)\<rparr>)"
  by (simp add: messi_make_non_blocking_def sys_fcntl_getfl_def sys_fcntl_setfl_def sys_on_fd_ok
      sys_try_Nil)

lemma lowest_free_ne: "lowest_free xs \<noteq> - 1" "lowest_free (lowest_free xs # xs) \<noteq> lowest_free xs"
  using lowest_free [of xs] lowest_free [of "lowest_free xs # xs"] by auto

text \<open>The system after a connection to \<open>ip\<close> and \<open>prt\<close> has been set up.\<close>

definition os_connected :: "u32 \<Rightarrow> u16 \<Rightarrow> os \<Rightarrow> os" where
  "os_connected ip prt os =
     (let s = lowest_free (fds os); t = lowest_free (s # fds os)
      in os\<lparr>fds := t # s # fds os,
            fdflags := (fdflags os)(s := O_NONBLOCK, t := 0),
            tx := (tx os)(s := [], t := []),
            peer := (peer os)(t := None, s := Some (ip, prt)),
            interest := (interest os)(s := Some EPOLLIN, t := Some EPOLLIN),
            armed := (armed os)(s := None, t := Some 2)\<rparr>)"

lemma lucky_connect:
  assumes "client_lucky c" "s = lowest_free (fds (c_sys c))" "t = lowest_free (s # fds (c_sys c))"
    "ip = (case aton (c_sys c) (c_address c) of None \<Rightarrow> 0 | Some a \<Rightarrow> a)"
  shows "cl_connect_to_server k c =
    (0, run_callback k (c_on_connected c) Connected
      (c\<lparr>c_keep_alive_timer_fd := t, c_sys := os_connected ip (sin_port (c_port c)) (c_sys c),
         c_server_fd := s, c_pong_received := True\<rparr>))"
proof -
  have o: "outcomes (c_sys c) = []" and e: "c_epoll_ctl c = Epoll_default"
    using assms(1) by (simp_all add: client_lucky_def)
  show ?thesis
    using o e lowest_free_ne [of "fds (c_sys c)"] lowest_free_ne [of "s # fds (c_sys c)"] assms(2-4)
    by (simp add: cl_connect_to_server_def sys_socket_def sys_timerfd_create_def lucky_new_fd
        sys_connect_def sys_on_fd_ok lucky_non_blocking lucky_epoll_add lucky_start_timer
        client_lucky_def cl_start_keep_alive_timer_def os_new_fd_def os_connected_def Let_def
        fun_upd_twist)
qed

text \<open>The rest of a disconnection, with a callback that makes no calls.\<close>

lemma lucky_reconnect_timer:
  assumes "client_lucky c" "d = lowest_free (fds (c_sys c))"
  shows "snd (cl_start_reconnect_timer c) = c\<lparr>c_reconnect_timer_fd := d,
    c_sys := (os_new_fd (c_sys c))\<lparr>interest := (interest (c_sys c))(d := Some EPOLLIN),
      armed := (armed (c_sys c))(d := Some 1)\<rparr>\<rparr>"
  using assms lowest_free_ne [of "fds (c_sys c)"]
  by (simp add: cl_start_reconnect_timer_def sys_timerfd_create_def lucky_new_fd client_lucky_def
      lucky_epoll_add lucky_start_timer os_new_fd_def Let_def)

section \<open>Initialisation\<close>

text \<open>C29: \<open>NAME_client_init\<close> succeeds exactly for the URIs that \<open>messi_parse_tcp_uri\<close> accepts and
  then leaves a client that is down, holds no descriptor, is ready for the first header as soon as its
  input buffer has room for one, and calls the given callbacks, or the defaults for those that are
  missing. For any other URI it returns an error and does not touch the client.\<close>

theorem client_init_result:
  assumes "client_init uri bin wsin bout wsout oc od om epfd ctl c = (res, c')" "\<forall>d \<in> set (fds (c_sys c)). 0 \<le> d"
  shows "(case messi_parse_tcp_uri uri 16 of
     None \<Rightarrow> res = - 1 \<and> c' = c
   | Some (address, prt) \<Rightarrow>
       res = 0 \<and> c_address c' = address \<and> c_port c' = prt \<and>
       client_wf c' \<and> client_phase c' = Down \<and> client_foreign c' = set (fds (c_sys c)) \<and>
       (header_sizeof \<le> length bin \<longrightarrow> input_fresh (c_input c')) \<and>
       c_on_connected c' = (case oc of None \<Rightarrow> cl_on_connected_default | Some f \<Rightarrow> f) \<and>
       c_on_disconnected c' = (case od of None \<Rightarrow> cl_on_disconnected_default | Some f \<Rightarrow> f) \<and>
       (\<forall>n. c_on_message c' n = (case map_of om n of None \<Rightarrow> None
          | Some None \<Rightarrow> Some cl_on_message_default | Some (Some f) \<Rightarrow> Some f)))"
proof (cases "messi_parse_tcp_uri uri 16")
  case None
  then show ?thesis using assms(1) by (auto simp: client_init_def)
next
  case (Some a)
  then obtain address prt where a: "messi_parse_tcp_uri uri 16 = Some (address, prt)"
    by (cases a) auto
  have c: "res = 0" "c_address c' = address" "c_port c' = prt" "c_server_fd c' = - 1"
      "c_keep_alive_timer_fd c' = - 1" "c_reconnect_timer_fd c' = - 1" "c_pending_disconnect c' = False"
      "c_sys c' = c_sys c"
      "c_input c' = \<lparr>i_buf = bin, i_cap = length bin, i_size = 0, i_left = header_sizeof,
         i_state = Header, i_overrun = False\<rparr>"
      "c_on_connected c' = (case oc of None \<Rightarrow> cl_on_connected_default | Some f \<Rightarrow> f)"
      "c_on_disconnected c' = (case od of None \<Rightarrow> cl_on_disconnected_default | Some f \<Rightarrow> f)"
      "c_on_message c' = map_option (\<lambda>cb. case cb of None \<Rightarrow> cl_on_message_default | Some f \<Rightarrow> f) \<circ> map_of om"
    using assms(1) a by (auto simp: client_init_def cl_reset_input_encoded_def)
  have "c_on_message c' n = (case map_of om n of None \<Rightarrow> None
      | Some None \<Rightarrow> Some cl_on_message_default | Some (Some f) \<Rightarrow> Some f)" for n
    by (simp add: c split: option.split)
  moreover have "client_wf c' \<and> client_phase c' = Down \<and> client_foreign c' = set (fds (c_sys c))"
    using assms(2) by (auto simp: client_wf_def client_phase_def client_foreign_def c)
  ultimately show ?thesis
    by (simp add: a c(1-3,9-11) input_fresh_def input_ok_def)
qed

lemma client_init_result_witness:
  "fst (client_init ''tcp://127.0.0.1:6000'' (replicate 16 0) 64 (replicate 12 0) 64
       None None [(0, None), (1, Some demo_on_message)] 3 None demo_struct) = 0 \<and>
   client_phase demo_down = Down \<and> input_fresh (c_input demo_down) \<and> c_port demo_down = 6000"
  using client_init_result [where uri = "''tcp://127.0.0.1:6000''" and c = demo_struct and wsin = 64
      and bin = "replicate 16 0" and bout = "replicate 12 0" and wsout = 64 and oc = None and od = None
      and om = "[(0, None), (1, Some demo_on_message)]" and epfd = 3 and ctl = None,
      OF prod.collapse [symmetric]]
  by (simp add: demo_uri demo_struct_def demo_os_def header_sizeof_def demo_down_def)

section \<open>Connecting\<close>

text \<open>C28: When no system call fails, starting a client connects a new non-blocking socket to the
  address and the port of the URI, registers it and a new timer of two seconds with epoll, and then
  calls \<open>on_connected\<close>, with the client marked as answered so that the first timeout sends a ping.\<close>

theorem client_start_connects:
  assumes "client_lucky c"
  shows "\<exists>c1. client_start k c = run_callback k (c_on_connected c) Connected c1 \<and>
    c_server_fd c1 \<notin> set (fds (c_sys c)) \<and> c_keep_alive_timer_fd c1 \<notin> set (fds (c_sys c)) \<and>
    c_server_fd c1 \<noteq> c_keep_alive_timer_fd c1 \<and>
    set (fds (c_sys c1)) = set (fds (c_sys c)) \<union> {c_server_fd c1, c_keep_alive_timer_fd c1} \<and>
    peer (c_sys c1) (c_server_fd c1) =
      Some (case aton (c_sys c) (c_address c) of None \<Rightarrow> 0 | Some a \<Rightarrow> a, sin_port (c_port c)) \<and>
    fdflags (c_sys c1) (c_server_fd c1) = O_NONBLOCK \<and>
    interest (c_sys c1) (c_server_fd c1) = Some EPOLLIN \<and>
    interest (c_sys c1) (c_keep_alive_timer_fd c1) = Some EPOLLIN \<and>
    armed (c_sys c1) (c_keep_alive_timer_fd c1) = Some 2 \<and> c_pong_received c1"
proof -
  let ?s = "lowest_free (fds (c_sys c))"
  let ?t = "lowest_free (?s # fds (c_sys c))"
  have ne: "?s \<notin> set (fds (c_sys c))" "?t \<notin> set (?s # fds (c_sys c))" by (rule lowest_free)+
  show ?thesis
    using ne unfolding client_start_def lucky_connect [OF assms refl refl refl, of k]
    by (intro exI, intro conjI, simp) (auto simp: os_connected_def Let_def)
qed

lemma client_start_connects_witness: "client_lucky demo_down \<and> (\<exists>c1. demo_up =
    run_callback demo_codec cl_on_connected_default Connected c1 \<and> c_pong_received c1)"
proof
  show lucky: "client_lucky demo_down"
    by (simp add: client_lucky_def demo_down_fields demo_down_callbacks)
  show "\<exists>c1. demo_up = run_callback demo_codec cl_on_connected_default Connected c1 \<and> c_pong_received c1"
    using client_start_connects [OF lucky, of demo_codec] by (auto simp: demo_up_def demo_down_callbacks)
qed

section \<open>Sending\<close>

lemma create_any: "messi_header_create h t n = messi_header_create h' t n"
  by (simp add: messi_header_create_def messi_header_set_size_def)

lemma client_send_eq:
  assumes "codec_fits k" "c_out_size c = length (c_out_buf c)" "header_sizeof \<le> c_out_size c"
    "c_out_size c < 2 ^ 64"
  shows "client_send k c =
    (case out_encode k (c_out_message c) (c_out_size c - header_sizeof) of
       None \<Rightarrow> cl_pending_disconnect Message_encode_error c
     | Some payload \<Rightarrow>
         (let f = frame (MESSI_MESSAGE_TYPE_CLIENT_TO_SERVER_USER, payload);
              (r, os) = sys_write (c_server_fd c) f (c_sys c);
              c1 = c\<lparr>c_out_buf := buf_write 0 f (c_out_buf c), c_sys := os\<rparr>
          in if r = Inr (length f) then c1 else cl_pending_disconnect Connection_closed c1))"
proof (cases "out_encode k (c_out_message c) (c_out_size c - header_sizeof)")
  case None
  then show ?thesis using assms(3,4) by (simp add: client_send_def)
next
  case (Some payload)
  let ?f = "frame (MESSI_MESSAGE_TYPE_CLIENT_TO_SERVER_USER, payload)" and ?b = "c_out_buf c"
  have fits: "header_sizeof + length payload \<le> length ?b"
    using assms(1-3) Some by (fastforce simp: codec_fits_def)
  have "buf_write 0 (header_bytes (messi_header_create h MESSI_MESSAGE_TYPE_CLIENT_TO_SERVER_USER
      (of_nat (length payload)))) (buf_write header_sizeof payload ?b) = buf_write 0 ?f ?b" for h
    using fits create_any [of h _ _ "header_at (replicate 4 0)"]
    by (simp add: buf_write_def frame_def)
  moreover have "take (length payload + header_sizeof) (buf_write 0 ?f ?b) = ?f"
    by (simp add: buf_write_def)
  ultimately show ?thesis
    using assms(3,4) Some fits by (simp add: client_send_def Let_def add.commute split: prod.splits)
qed

text \<open>C26: \<open>NAME_client_send\<close> encodes the prepared message and writes it in one call as a single frame
  of type 1 to the socket, without going beyond the output buffer. A message that cannot be encoded
  and a frame that the socket does not take as a whole end the connection, with the reasons
  \<open>message encode error\<close> and \<open>connection closed\<close>.\<close>

theorem client_send_frame:
  assumes "codec_fits k" "c_out_size c = length (c_out_buf c)" "header_sizeof \<le> c_out_size c"
    "c_out_size c < 2 ^ 64"
  shows "client_send k c =
    (case out_encode k (c_out_message c) (c_out_size c - header_sizeof) of
       None \<Rightarrow> cl_pending_disconnect Message_encode_error c
     | Some payload \<Rightarrow>
         (let f = frame (MESSI_MESSAGE_TYPE_CLIENT_TO_SERVER_USER, payload);
              (r, os) = sys_write (c_server_fd c) f (c_sys c);
              c1 = c\<lparr>c_out_buf := buf_write 0 f (c_out_buf c), c_sys := os\<rparr>
          in if r = Inr (length f) then c1 else cl_pending_disconnect Connection_closed c1))"
  using assms by (rule client_send_eq)

lemma client_send_frame_witness:
  "tx (c_sys (client_send demo_codec (demo_up\<lparr>c_out_message := Some [5, 6]\<rparr>))) 4 = [1, 0, 0, 2, 5, 6] \<and>
   c_disconnect_reason (client_send demo_codec (demo_up\<lparr>c_out_message := None\<rparr>)) = Message_encode_error"
proof -
  have k: "codec_fits demo_codec"
    by (auto simp: codec_fits_def demo_codec_def split: option.splits if_splits)
  show ?thesis
    using client_send_frame [OF k, of "demo_up\<lparr>c_out_message := Some [5, 6]\<rparr>"]
      client_send_frame [OF k, of "demo_up\<lparr>c_out_message := None\<rparr>"]
    by (simp add: demo_up_fields demo_codec_def header_sizeof_def sys_write_def frame_def
        header_bytes_def messi_header_create_def messi_header_set_size_def message_type_defs Let_def
        cl_pending_disconnect_def client_simps)
qed

section \<open>Messages to the application\<close>

text \<open>What the application is told about a frame that the client has handled without giving up.\<close>

definition user_events ::
    "('i, 'o) codec \<Rightarrow> nat \<Rightarrow> (nat \<Rightarrow> ('i \<Rightarrow> 'u \<Rightarrow> 'u \<times> 'o client_request list) option) \<Rightarrow>
     byte \<times> byte list \<Rightarrow> 'i client_event list" where
  "user_events k ws on_message f =
     (if fst f = MESSI_MESSAGE_TYPE_SERVER_TO_CLIENT_USER
      then (case in_new k ws of
              None \<Rightarrow> []
            | Some m0 \<Rightarrow> (let m = snd (in_decode k m0 (snd f))
                in if on_message (in_choice k m) = None then [] else [Received (in_choice k m) m]))
      else [])"

lemma workspace_simps [client_simps]:
  "c_in_workspace_size (cl_pending_disconnect r c) = c_in_workspace_size c"
  "c_in_workspace_size (client_init_message k a c) = c_in_workspace_size c"
  "c_in_workspace_size (client_stop c) = c_in_workspace_size c"
  by (auto simp: cl_pending_disconnect_def client_init_message_def client_new_output_message_def
      client_stop_def cl_disconnect_def cl_close_fd_def cl_close_def cl_epoll_ctl_del_def Let_def
      split: option.splits)

lemma workspace_send [client_simps]: "c_in_workspace_size (client_send k c) = c_in_workspace_size c"
  by (cases rule: client_send_cases [of k c]) (simp_all add: client_simps Let_def)

lemma workspace_callback [client_simps]:
  "c_in_workspace_size (run_callback k cb ev c) = c_in_workspace_size c"
proof -
  have calls: "c_in_workspace_size (fold (client_call k) rs c') = c_in_workspace_size c'" for rs
    and c' :: "('a, 'b, 'c) client"
  proof (induction rs arbitrary: c')
    case (Cons r rs)
    then show ?case by (cases r) (simp_all add: client_simps)
  qed simp
  show ?thesis by (simp add: run_callback_def calls split: prod.split)
qed

lemma handle_message_frame [client_simps]:
  "c_in_workspace_size (cl_handle_message k ty c) = c_in_workspace_size c"
  "c_on_message (cl_handle_message k ty c) = c_on_message c"
  by (auto simp: cl_handle_message_def cl_handle_message_user_def cl_handle_message_pong_def
      client_simps Let_def split: option.splits prod.splits)

text \<open>One message: the application is told, unless the message drops the connection.\<close>

lemma handle_message_log:
  assumes "client_ok c" "c_input c = input_loaded f i"
  shows "c_log (cl_handle_message k (fst f) c) =
      c_log c @ user_events k (c_in_workspace_size c) (c_on_message c) f \<or>
    c_log (cl_handle_message k (fst f) c) = c_log c \<and> \<not> client_alive (cl_handle_message k (fst f) c)"
proof -
  have p: "i_size (input_loaded f i) - header_sizeof = length (snd f)"
    "take (length (snd f)) (drop header_sizeof (i_buf (input_loaded f i))) = snd f"
    using input_loaded_payload [of f i] by simp_all
  have dead: "\<not> client_alive (cl_pending_disconnect r (c\<lparr>c_in_message := m\<rparr>))" for r m
    using assms(1) by (simp add: client_simps)
  show ?thesis
  proof (cases "fst f = MESSI_MESSAGE_TYPE_SERVER_TO_CLIENT_USER")
    case False
    then show ?thesis
      by (simp add: cl_handle_message_def cl_handle_message_pong_def user_events_def)
  next
    case True
    show ?thesis
      using dead
      by (cases "in_new k (c_in_workspace_size c)")
        (auto simp: True cl_handle_message_def cl_handle_message_user_def user_events_def assms(2) p
          Let_def client_simps split: option.splits prod.splits simp del: input_loaded_simps)
  qed
qed

lemma deliver_log:
  assumes "client_ok c" "client_alive c"
  shows "c_log (client_deliver k f c) =
      c_log c @ user_events k (c_in_workspace_size c) (c_on_message c) f \<or>
    c_log (client_deliver k f c) = c_log c \<and> \<not> client_alive (client_deliver k f c)"
proof -
  have ok: "client_ok (c\<lparr>c_input := i\<rparr>)" for i
    using assms(1) by (simp add: client_simps)
  show ?thesis
    using handle_message_log [OF ok, of "input_loaded f (c_input c)" f "c_input c" k] ok
    by (auto simp: client_deliver_def assms(2) client_simps cl_reset_input_encoded_def
        client_alive_input)
qed

lemma deliver_frame [client_simps]:
  "c_in_workspace_size (client_deliver k f c) = c_in_workspace_size c"
  "c_on_message (client_deliver k f c) = c_on_message c"
  "client_ok c \<Longrightarrow> client_ok (client_deliver k f c)"
  by (simp_all add: client_deliver_def cl_reset_input_encoded_def client_simps)

lemma client_deliver_dead: "\<not> client_alive c \<Longrightarrow> fold (client_deliver k) fs c = c"
  by (induction fs) (simp_all add: client_deliver_def)

text \<open>So the client is an instance of the interface of receivers that make callbacks.\<close>

interpretation cl: frame_logger "c_input :: ('u, 'i, 'o) client \<Rightarrow> input"
  client_set_input client_ok client_alive
  "cl_pending_disconnect Message_too_big" "client_dispatch k"
  "cl_pending_disconnect Connection_closed" "cl_process_socket k" c_log
  "\<lambda>c. user_events k (c_in_workspace_size c) (c_on_message c)" for k :: "('i, 'o) codec"
proof (unfold_locales, unfold cl_deliver_eq)
  fix c :: "('u, 'i, 'o) client" and f
  assume "client_ok c" "client_alive c"
  then show "c_log (client_deliver k f c) = c_log c @ user_events k (c_in_workspace_size c) (c_on_message c) f \<or>
      c_log (client_deliver k f c) = c_log c \<and> \<not> client_alive (client_deliver k f c)"
    by (rule deliver_log)
qed (simp_all add: client_simps)

lemma client_frames_log:
  assumes "client_fresh c" "\<forall>f \<in> set fs. length (snd f) < 2 ^ 24"
    "arrived as = concat (map frame fs)" "c' = cl_process_socket k as c"
  shows "\<exists>n \<le> length fs. c_log c' =
      c_log c @ concat (map (user_events k (c_in_workspace_size c) (c_on_message c)) (take n fs)) \<and>
    (client_alive c' \<longrightarrow> n = length fs \<and> client_fresh c')"
  using cl.loop_log [where s = c and fs = fs and as = as and k = k] assms
  by (auto simp: client_fresh_def)

text \<open>C14: Messages reach the application in the order in which the server sent them, each at most once
  and none is invented: whatever the pieces, the callbacks made for a stream of frames are those for
  the frames up to some point of the stream, and for all of them when the connection survives. Then
  the client is ready for the next header.\<close>

theorem client_messages_in_order:
  assumes "client_fresh c" "\<forall>f \<in> set fs. length (snd f) < 2 ^ 24"
    "arrived as = concat (map frame fs)" "c' = cl_process_socket k as c"
  shows "\<exists>n \<le> length fs. c_log c' =
      c_log c @ concat (map (user_events k (c_in_workspace_size c) (c_on_message c)) (take n fs)) \<and>
    (client_alive c' \<longrightarrow> n = length fs \<and> client_fresh c')"
  using assms by (rule client_frames_log)

lemma client_messages_in_order_witness:
  "client_fresh demo_up \<and> (\<exists>n \<le> length demo_frames. c_log (cl_process_socket demo_codec demo_arrivals demo_up) =
     [Connected] @ concat (map (user_events demo_codec (c_in_workspace_size demo_up)
       (c_on_message demo_up)) (take n demo_frames)))"
  using client_messages_in_order [OF demo_up_fresh(1) demo_arrivals(3,1) refl, of demo_codec]
    demo_up_fresh(1)
  by (auto simp: demo_up_fields)

section \<open>Supervision of the connection\<close>

text \<open>The timer has expired: its descriptor delivers the eight bytes of the counter.\<close>

definition expired :: "arrival list" where
  "expired = [Chunk (1 # replicate 7 0)]"

lemma read_expired: "d \<in> set (fds os) \<Longrightarrow> sys_read d 8 expired os = (Inr (1 # replicate 7 0), [])"
  by (simp add: sys_read_def expired_def)

lemma keep_alive_expired:
  assumes "c_keep_alive_timer_fd c \<in> set (fds (c_sys c))"
  shows "cl_process_keep_alive_timer expired c =
    (if \<not> c_pong_received c then cl_pending_disconnect Keep_alive_timeout c
     else
       (let (res, os) = sys_timerfd_settime (c_keep_alive_timer_fd c) 2 (c_sys c);
            (sent, os') = sys_write (c_server_fd c) (frame (MESSI_MESSAGE_TYPE_PING, [])) os
        in if res \<noteq> 0 then cl_pending_disconnect General_error (c\<lparr>c_sys := os\<rparr>)
           else if sent \<noteq> Inr header_sizeof
           then cl_pending_disconnect General_error (c\<lparr>c_sys := os'\<rparr>)
           else c\<lparr>c_sys := os', c_pong_received := False\<rparr>))"
  using assms
  by (simp add: cl_process_keep_alive_timer_def read_expired cl_start_keep_alive_timer_def
      cl_start_timer_def frame_def Let_def split: prod.splits)

lemma pong_simps [client_simps]:
  "c_pong_received (cl_pending_disconnect r c) = c_pong_received c"
  "c_pong_received (client_init_message k a c) = c_pong_received c"
  "c_pong_received (client_stop c) = c_pong_received c"
  by (auto simp: cl_pending_disconnect_def client_init_message_def client_new_output_message_def
      client_stop_def cl_disconnect_def cl_close_fd_def cl_close_def cl_epoll_ctl_del_def Let_def
      split: option.splits)

lemma pong_call [client_simps]: "c_pong_received (client_call k r c) = c_pong_received c"
proof (cases r)
  case Client_send
  then show ?thesis
    by (cases rule: client_send_cases [of k c]) (simp_all add: client_simps Let_def)
qed (simp_all add: client_simps)

lemma pong_callback [client_simps]: "c_pong_received (run_callback k cb ev c) = c_pong_received c"
proof -
  have calls: "c_pong_received (fold (client_call k) rs c') = c_pong_received c'" for rs
    and c' :: "('a, 'b, 'c) client"
    by (induction rs arbitrary: c') (simp_all add: pong_call)
  show ?thesis by (simp add: run_callback_def calls split: prod.split)
qed

lemma handle_message_pong:
  "c_pong_received (cl_handle_message k t c) \<longleftrightarrow> c_pong_received c \<or> t = MESSI_MESSAGE_TYPE_PONG"
  by (auto simp: cl_handle_message_def cl_handle_message_user_def cl_handle_message_pong_def
      message_type_defs client_simps Let_def split: option.splits prod.splits)

lemma deliver_pong:
  "client_alive (client_deliver k f c) \<Longrightarrow> client_ok c \<Longrightarrow> client_alive c \<Longrightarrow>
     c_pong_received (client_deliver k f c) \<longleftrightarrow> c_pong_received c \<or> fst f = MESSI_MESSAGE_TYPE_PONG"
  by (auto simp: client_deliver_def cl_reset_input_encoded_def handle_message_pong client_simps
      split: if_splits)

lemma fold_deliver_pong:
  assumes "client_alive (fold (client_deliver k) fs c)" "client_ok c" "client_alive c"
  shows "c_pong_received (fold (client_deliver k) fs c) \<longleftrightarrow>
    c_pong_received c \<or> MESSI_MESSAGE_TYPE_PONG \<in> fst ` set fs"
  using assms
proof (induction fs arbitrary: c)
  case (Cons f fs)
  then have "client_alive (fold (client_deliver k) fs (client_deliver k f c))" by simp
  moreover from this have "client_alive (client_deliver k f c)" by (metis client_deliver_dead)
  ultimately show ?case
    using Cons.IH [of "client_deliver k f c"] deliver_pong [of k f c] Cons.prems(2,3)
    by (auto simp: client_simps)
qed simp

text \<open>A ping is answered by nothing but a pong: after the client has handled a stream of frames and is
  still connected, the answer counts as received exactly if it was received before or there is a
  pong among the frames. With the keep alive timer this means that a server that keeps sending
  messages but no pong is given up.\<close>

lemma client_pong_received:
  assumes "client_fresh c" "\<forall>f \<in> set fs. length (snd f) < 2 ^ 24"
    "arrived as = concat (map frame fs)" "client_alive (cl_process_socket k as c)"
  shows "c_pong_received (cl_process_socket k as c) \<longleftrightarrow>
    c_pong_received c \<or> MESSI_MESSAGE_TYPE_PONG \<in> fst ` set fs"
proof -
  have c: "client_ok c" "client_alive c" using assms(1) by (simp_all add: client_fresh_def)
  have eq: "cl_process_socket k as c = client_finish (try_again as) (fold (client_deliver k) fs c)"
    using cl.loop_frames [where s = c and fs = fs and as = as and k = k] assms
    by (simp add: client_fresh_def cl_deliver_eq cl_finish_eq)
  have "client_ok (fold (client_deliver k) fs c)"
    using c(1) by (induction fs arbitrary: c) (simp_all add: client_simps)
  then have "cl_process_socket k as c = fold (client_deliver k) fs c"
    using assms(4) by (auto simp: eq client_finish_def client_simps split: if_splits)
  then show ?thesis using fold_deliver_pong [OF _ c, of k fs] assms(4) by simp
qed

lemma client_pong_received_witness:
  "c_pong_received (cl_process_socket demo_codec [Chunk [4, 0, 0, 0]] (demo_up\<lparr>c_pong_received := False\<rparr>))"
proof -
  let ?c = "demo_up\<lparr>c_pong_received := False\<rparr>" and ?as = "[Chunk [4, 0, 0, 0]]" and ?fs = "[(4, [])]"
  have fresh: "client_fresh ?c"
    by (simp add: client_fresh_def client_ok_def client_alive_def input_fresh_def input_ok_def
        demo_up_fields header_sizeof_def)
  have fs: "\<forall>f \<in> set ?fs. length (snd f) < 2 ^ 24" "arrived ?as = concat (map frame ?fs)"
    by (simp_all add: demo_frame_bytes)
  have "cl_process_socket demo_codec ?as ?c =
      client_finish True (client_deliver demo_codec (4, []) ?c)"
    using cl.loop_frames [where s = ?c and fs = ?fs and as = ?as and k = demo_codec] fresh
    by (simp add: client_fresh_def cl_deliver_eq cl_finish_eq demo_frame_bytes)
  then have "client_alive (cl_process_socket demo_codec ?as ?c)"
    by (simp add: demo_unfold del: drop_frame take_frame)
  from client_pong_received [OF fresh fs this] show ?thesis by (simp add: message_type_defs)
qed

section \<open>Giving up and reconnecting\<close>

lemma lucky_pending: "client_lucky c \<Longrightarrow> client_lucky (cl_pending_disconnect r c)"
  by (simp add: client_lucky_def cl_pending_disconnect_def cl_close_fd_def cl_close_def
      cl_epoll_ctl_del_def sys_close_def messi_epoll_ctl_default_def sys_epoll_ctl_def Let_def)

lemma lucky_disconnect: "client_lucky c \<Longrightarrow> client_lucky (cl_disconnect c)"
  using lucky_pending [of c Message_encode_error]
  by (simp add: client_lucky_def cl_disconnect_def cl_close_fd_def cl_close_def
      cl_epoll_ctl_del_def sys_close_def messi_epoll_ctl_default_def sys_epoll_ctl_def Let_def)

lemma disconnect_reason_disconnect:
  "c_pending_disconnect c \<Longrightarrow> c_disconnect_reason (cl_disconnect c) = c_disconnect_reason c"
  by (simp add: cl_disconnect_def client_simps Let_def)

lemma lucky_stop: "client_lucky c \<Longrightarrow> client_lucky (client_stop c)"
  using lucky_disconnect [of c]
  by (simp add: client_lucky_def client_stop_def cl_close_fd_def cl_close_def
      cl_epoll_ctl_del_def sys_close_def messi_epoll_ctl_default_def sys_epoll_ctl_def Let_def)

lemma outcomes_write: "outcomes (snd (sys_write d bs os)) = outcomes os"
  by (auto simp: sys_write_def split: list.splits write_result.splits)

lemma lucky_call: "client_lucky c \<Longrightarrow> client_lucky (client_call k r c)"
proof (cases r)
  case Client_send
  assume c: "client_lucky c"
  have "client_lucky (client_send k c)"
  proof (cases rule: client_send_cases [of k c])
    case encode
    then show ?thesis using c by (simp add: lucky_pending)
  next
    case (wrote payload buf fault r os)
    then have "outcomes os = outcomes (c_sys c)"
      using outcomes_write [of "c_server_fd c" "take (length payload + header_sizeof) buf" "c_sys c"] by simp
    then have "client_lucky (c\<lparr>c_out_buf := buf, c_fault := fault, c_sys := os\<rparr>)"
      using c by (simp add: client_lucky_def)
    then show ?thesis by (simp add: wrote(3) Let_def lucky_pending)
  qed
  then show ?thesis by (simp add: Client_send)
qed (simp_all add: client_lucky_def client_simps lucky_stop [unfolded client_lucky_def])

lemma lucky_callback: "client_lucky c \<Longrightarrow> client_lucky (run_callback k cb ev c)"
proof -
  have calls: "client_lucky c' \<Longrightarrow> client_lucky (fold (client_call k) rs c')" for rs
    and c' :: "('a, 'b, 'c) client"
    by (induction rs arbitrary: c') (simp_all add: lucky_call)
  assume "client_lucky c"
  then have "client_lucky (c\<lparr>c_app := u, c_log := l\<rparr>)" for u l
    by (simp add: client_lucky_def)
  then show ?thesis by (simp add: run_callback_def calls split: prod.split)
qed

text \<open>The report of a disconnection and the next connection.\<close>

lemma reported_and_reconnected:
  assumes "client_wf c" "client_app_ok c" "d \<in> set (fds (c_sys c))"
    "h = client_handle_event k d as c" "c_pending_disconnect h" "client_lucky h"
    "c1 = client_process k d events as c"
  shows "c_log c1 = c_log h @ [Disconnected (c_disconnect_reason h)] \<and>
    client_phase c1 = Waiting \<and>
    armed (c_sys c1) (c_reconnect_timer_fd c1) = Some 1 \<and>
    interest (c_sys c1) (c_reconnect_timer_fd c1) = Some EPOLLIN \<and>
    (\<exists>c2. client_process k (c_reconnect_timer_fd c1) events' as' c1 =
       (let c3 = run_callback k (c_on_connected c2) Connected c2
        in if c_pending_disconnect c3 then client_finish_disconnect k c3 else c3) \<and>
       client_phase c2 = Up \<and> c_log c2 = c_log c1 \<and>
       peer (c_sys c2) (c_server_fd c2) =
         Some (case aton (c_sys c1) (c_address c1) of None \<Rightarrow> 0 | Some a \<Rightarrow> a, sin_port (c_port c1)))"
proof -
  let ?c2 = "cl_disconnect h"
  define c3 where "c3 = run_callback k (c_on_disconnected ?c2 (c_disconnect_reason ?c2))
    (Disconnected (c_disconnect_reason ?c2)) ?c2"
  define r where "r = lowest_free (fds (c_sys c3))"
  have h: "client_wf h" "client_app_ok h" "client_phase h = Closing"
    using handle_event_phase [OF assms(1-3), of k as] assms(4,5) wf_pending [of h] by simp_all
  have c3: "client_wf c3" "client_phase c3 = Down" "client_lucky c3"
    using disconnected_down [OF h(1,3,2) refl c3_def] lucky_callback [OF lucky_disconnect [OF assms(6)]]
    by (simp_all add: c3_def)
  have c1: "c1 = snd (cl_start_reconnect_timer c3)"
    using assms(4,5,7) by (simp add: client_process_eq client_finish_disconnect_def c3_def Let_def)
  note c1' = c1 [unfolded lucky_reconnect_timer [OF c3(3) r_def]]
  have r: "r \<noteq> - 1" by (simp add: r_def lowest_free_ne)
  have "c_server_fd c3 = - 1" "\<not> c_pending_disconnect c3" "c_keep_alive_timer_fd c3 \<noteq> r"
    using c3(1,2) wf_pending [OF c3(1)] r
    by (auto simp: client_phase_def client_wf_def Let_def r_def split: if_splits)
  then have down: "c_server_fd c1 = - 1" "c_keep_alive_timer_fd c1 \<noteq> r" "\<not> c_pending_disconnect c1"
    "c_reconnect_timer_fd c1 = r" "client_lucky c1"
    using c3(3) by (simp_all add: c1' client_lucky_def os_new_fd_def Let_def)
  have log: "c_log c1 = c_log h @ [Disconnected (c_disconnect_reason h)]"
    by (simp add: c1' c3_def client_simps disconnect_reason_disconnect assms(5))
  let ?c4 = "(cl_close_fd r c1)\<lparr>c_reconnect_timer_fd := - 1\<rparr>"
  have c4: "client_lucky ?c4" "c_log ?c4 = c_log c1" "aton (c_sys ?c4) = aton (c_sys c1)"
      "c_address ?c4 = c_address c1" "c_port ?c4 = c_port c1" "c_on_connected ?c4 = c_on_connected c1"
    using down(5)
    by (simp_all add: client_simps client_lucky_def cl_close_fd_def cl_close_def cl_epoll_ctl_del_def
        sys_close_def messi_epoll_ctl_default_def sys_epoll_ctl_def)
  let ?ip = "case aton (c_sys ?c4) (c_address ?c4) of None \<Rightarrow> 0 | Some a \<Rightarrow> a"
  define s where "s = lowest_free (fds (c_sys ?c4))"
  define c5 where "c5 = ?c4\<lparr>c_keep_alive_timer_fd := lowest_free (s # fds (c_sys ?c4)),
    c_sys := os_connected ?ip (sin_port (c_port ?c4)) (c_sys ?c4), c_server_fd := s,
    c_pong_received := True\<rparr>"
  have conn: "cl_connect_to_server k ?c4 = (0, run_callback k (c_on_connected c1) Connected c5)"
    unfolding lucky_connect [OF c4(1) s_def refl refl, of k] c5_def c4(6) ..
  have "s \<noteq> - 1" by (simp add: s_def lowest_free_ne)
  then have "client_phase c5 = Up" by (simp add: c5_def client_phase_def)
  moreover have "c_log c5 = c_log c1" "c_on_connected c5 = c_on_connected c1"
    using c4(2,6) by (simp_all add: c5_def)
  moreover have "peer (c_sys c5) s = Some (?ip, sin_port (c_port ?c4))"
    unfolding c5_def by (simp add: os_connected_def s_def Let_def)
  then have "peer (c_sys c5) (c_server_fd c5) =
      Some (case aton (c_sys c1) (c_address c1) of None \<Rightarrow> 0 | Some a \<Rightarrow> a, sin_port (c_port c1))"
    unfolding c4(3-5) by (simp add: c5_def)
  ultimately have c5: "client_phase c5 = Up" "c_log c5 = c_log c1" "c_on_connected c5 = c_on_connected c1"
      "peer (c_sys c5) (c_server_fd c5) =
         Some (case aton (c_sys c1) (c_address c1) of None \<Rightarrow> 0 | Some a \<Rightarrow> a, sin_port (c_port c1))"
    by simp_all
  have "client_handle_event k r as' c1 = run_callback k (c_on_connected c1) Connected c5"
    using down r conn by (simp add: client_handle_event_def cl_process_reconnect_timer_def)
  then have "client_process k r events' as' c1 =
      (let c3 = run_callback k (c_on_connected c5) Connected c5
       in if c_pending_disconnect c3 then client_finish_disconnect k c3 else c3)"
    using c5(3) by (simp add: client_process_eq)
  then show ?thesis
    using log c5(1,2,4) down r unfolding c1'
    by (intro conjI exI [of _ c5]) (simp_all add: client_phase_def)
qed

text \<open>C13: A client never stays disconnected while the system works: whenever an event ends a connection,
  \<open>NAME_client_process\<close> tells the application why, exactly once and last of all, and then waits
  for a timer of one second; when that expires, it connects again, to the same address, on a new
  socket, before anything else.\<close>

theorem client_reconnects:
  assumes "client_wf c" "client_app_ok c" "d \<in> set (fds (c_sys c))"
    "h = client_handle_event k d as c" "c_pending_disconnect h" "client_lucky h"
    "c1 = client_process k d events as c"
  shows "c_log c1 = c_log h @ [Disconnected (c_disconnect_reason h)] \<and>
    client_phase c1 = Waiting \<and>
    armed (c_sys c1) (c_reconnect_timer_fd c1) = Some 1 \<and>
    interest (c_sys c1) (c_reconnect_timer_fd c1) = Some EPOLLIN \<and>
    (\<exists>c2. client_process k (c_reconnect_timer_fd c1) events' as' c1 =
       (let c3 = run_callback k (c_on_connected c2) Connected c2
        in if c_pending_disconnect c3 then client_finish_disconnect k c3 else c3) \<and>
       client_phase c2 = Up \<and> c_log c2 = c_log c1 \<and>
       peer (c_sys c2) (c_server_fd c2) =
         Some (case aton (c_sys c1) (c_address c1) of None \<Rightarrow> 0 | Some a \<Rightarrow> a, sin_port (c_port c1)))"
  using assms by (rule reported_and_reconnected)

lemma client_reconnects_witness:
  "client_phase (client_process demo_codec 4 EPOLLIN [Chunk []] demo_up) = Waiting \<and>
   armed (c_sys (client_process demo_codec 4 EPOLLIN [Chunk []] demo_up))
     (c_reconnect_timer_fd (client_process demo_codec 4 EPOLLIN [Chunk []] demo_up)) = Some 1"
proof -
  have alive: "client_alive demo_up" by (simp add: client_alive_def demo_up_fields)
  have h: "client_handle_event demo_codec 4 [Chunk []] demo_up =
      cl_pending_disconnect Connection_closed demo_up"
    by (simp add: client_handle_event_def demo_up_fields process_socket_alive(2) [OF alive])
  have lucky: "client_lucky (client_handle_event demo_codec 4 [Chunk []] demo_up)"
    unfolding h by (rule lucky_pending) (simp add: client_lucky_def demo_up_fields demo_up_callbacks)
  have pend: "c_pending_disconnect (client_handle_event demo_codec 4 [Chunk []] demo_up)"
    by (simp add: h client_simps)
  have d: "4 \<in> set (fds (c_sys demo_up))" by (simp add: demo_up_fields)
  show ?thesis
    using client_reconnects [OF demo_wf(1) demo_app_ok(1) d refl pend lucky refl] by blast
qed

section \<open>Keep alive\<close>

text \<open>
  What can go wrong when the keep alive timer expires: its descriptor does not deliver eight bytes,
  or a ping is due and the timer cannot be set again or the socket does not take the four bytes.
\<close>

definition keep_alive_fails :: "arrival list \<Rightarrow> ('u, 'i, 'o) client \<Rightarrow> bool" where
  "keep_alive_fails as c \<longleftrightarrow>
     (let (res, os) = sys_timerfd_settime (c_keep_alive_timer_fd c) 2 (c_sys c)
      in (case fst (sys_read (c_keep_alive_timer_fd c) 8 as (c_sys c)) of
            Inl e \<Rightarrow> True | Inr bs \<Rightarrow> length bs \<noteq> 8) \<or>
         as = expired \<and> c_pong_received c \<and>
           (res \<noteq> 0 \<or> fst (sys_write (c_server_fd c) (frame (MESSI_MESSAGE_TYPE_PING, [])) os) \<noteq> Inr header_sizeof))"

lemma start_reconnect_log: "c_log (snd (cl_start_reconnect_timer c)) = c_log c"
  by (auto simp: cl_start_reconnect_timer_def cl_close_def cl_epoll_ctl_add_def cl_start_timer_def Let_def
      split: prod.splits)

lemma pending_reason: "\<not> c_pending_disconnect c \<Longrightarrow> c_disconnect_reason (cl_pending_disconnect r c) = r"
  by (simp add: cl_pending_disconnect_def client_simps Let_def)

lemma finish_disconnect_log:
  assumes "c_pending_disconnect c"
  shows "c_log (client_finish_disconnect k c) = c_log c @ [Disconnected (c_disconnect_reason c)]"
  by (simp add: client_finish_disconnect_def client_simps disconnect_reason_disconnect start_reconnect_log assms Let_def)

lemma process_keep_alive_event:
  assumes "client_wf c" "client_phase c = Up"
  shows "client_process k (c_keep_alive_timer_fd c) ev as c =
    (let h = cl_process_keep_alive_timer as c in if c_pending_disconnect h then client_finish_disconnect k h else h)"
  using assms by (simp add: client_process_eq client_handle_event_def client_wf_def Let_def)

lemma keep_alive_fails_effect:
  assumes "client_wf c" "client_phase c = Up" "keep_alive_fails as c"
  shows "c_log (client_process k (c_keep_alive_timer_fd c) ev as c) = c_log c @ [Disconnected General_error]"
proof -
  have up: "\<not> c_pending_disconnect c" "c_keep_alive_timer_fd c \<in> set (fds (c_sys c))"
    using assms(1,2) by (auto simp: client_wf_def Let_def)
  obtain os where h: "cl_process_keep_alive_timer as c = cl_pending_disconnect General_error (c\<lparr>c_sys := os\<rparr>)"
  proof (cases "case fst (sys_read (c_keep_alive_timer_fd c) 8 as (c_sys c)) of Inl e \<Rightarrow> True | Inr bs \<Rightarrow> length bs \<noteq> 8")
    case True
    then have "cl_process_keep_alive_timer as c = cl_pending_disconnect General_error (c\<lparr>c_sys := c_sys c\<rparr>)"
      by (simp add: cl_process_keep_alive_timer_def Let_def)
    then show thesis by (rule that)
  next
    case False
    obtain res os1 sent os2 where w: "sys_timerfd_settime (c_keep_alive_timer_fd c) 2 (c_sys c) = (res, os1)"
      "sys_write (c_server_fd c) (frame (MESSI_MESSAGE_TYPE_PING, [])) os1 = (sent, os2)" by fastforce
    have f: "as = expired" "c_pong_received c" "res \<noteq> 0 \<or> sent \<noteq> Inr header_sizeof"
      using False assms(3) by (auto simp: keep_alive_fails_def w)
    show thesis
    proof (cases "res = 0")
      case True
      then show thesis using f that [of os2] keep_alive_expired [OF up(2)] by (simp add: w)
    next
      case False
      then show thesis using f that [of os1] keep_alive_expired [OF up(2)] by (simp add: w)
    qed
  qed
  show ?thesis
    using up(1) unfolding process_keep_alive_event [OF assms(1,2)] h
    by (simp add: Let_def finish_disconnect_log pending_reason client_simps)
qed

lemma wf_system:
  "client_phase (c\<lparr>c_sys := os\<rparr>) = client_phase c" "client_phase (c\<lparr>c_pong_received := b\<rparr>) = client_phase c"
  "client_wf (c\<lparr>c_pong_received := b\<rparr>) = client_wf c"
  "fds os = fds (c_sys c) \<Longrightarrow> client_wf (c\<lparr>c_sys := os\<rparr>) = client_wf c"
  by (simp_all add: client_phase_def client_wf_def)

lemma wf_alive: "client_wf c \<Longrightarrow> client_phase c = Up \<Longrightarrow> client_ok c \<and> client_alive c"
  using wf_ok [of c] by (auto simp: client_alive_def client_wf_def Let_def)

text \<open>One expiry of the timer of a client whose system works.\<close>

lemma keep_alive_round:
  assumes "client_wf c" "client_app_ok c" "client_phase c = Up" "client_lucky c" "wscript (c_sys c) = []"
    "c1 = client_process k (c_keep_alive_timer_fd c) ev expired c"
  shows "c_pong_received c \<Longrightarrow> c1 = c\<lparr>c_pong_received := False, c_sys := (c_sys c)
      \<lparr>armed := (armed (c_sys c))(c_keep_alive_timer_fd c := Some 2),
       tx := (tx (c_sys c))(c_server_fd c := tx (c_sys c) (c_server_fd c) @ frame (MESSI_MESSAGE_TYPE_PING, []))\<rparr>\<rparr>"
    and "\<not> c_pong_received c \<Longrightarrow> c_log c1 = c_log c @ [Disconnected Keep_alive_timeout] \<and>
      client_phase c1 = Waiting \<and> armed (c_sys c1) (c_reconnect_timer_fd c1) = Some 1"
proof -
  have up: "\<not> c_pending_disconnect c" "c_keep_alive_timer_fd c \<in> set (fds (c_sys c))"
    "c_server_fd c \<in> set (fds (c_sys c))" "c_keep_alive_timer_fd c \<noteq> c_server_fd c" "outcomes (c_sys c) = []"
    using assms(1,3,4) by (auto simp: client_wf_def client_lucky_def Let_def)
  show "c1 = c\<lparr>c_pong_received := False, c_sys := (c_sys c)
      \<lparr>armed := (armed (c_sys c))(c_keep_alive_timer_fd c := Some 2),
       tx := (tx (c_sys c))(c_server_fd c := tx (c_sys c) (c_server_fd c) @ frame (MESSI_MESSAGE_TYPE_PING, []))\<rparr>\<rparr>"
    if "c_pong_received c"
    using that up assms(5)
    by (simp add: assms(6) process_keep_alive_event [OF assms(1,3)] keep_alive_expired sys_timerfd_settime_def
        sys_on_fd_ok sys_write_def frame_def header_sizeof_def Let_def)
  assume "\<not> c_pong_received c"
  then have h: "client_handle_event k (c_keep_alive_timer_fd c) expired c = cl_pending_disconnect Keep_alive_timeout c"
    using up by (simp add: client_handle_event_def keep_alive_expired)
  have "c_pending_disconnect (cl_pending_disconnect Keep_alive_timeout c)" by (simp add: client_simps)
  from reported_and_reconnected [OF assms(1,2) up(2) h [symmetric] this lucky_pending [OF assms(4)] assms(6)] up(1)
  show "c_log c1 = c_log c @ [Disconnected Keep_alive_timeout] \<and> client_phase c1 = Waiting \<and>
      armed (c_sys c1) (c_reconnect_timer_fd c1) = Some 1"
    by (simp add: client_simps pending_reason)
qed

text \<open>C27: Every two seconds the client sends one ping, and only a pong keeps the connection. When the
  timer of a connected client expires, exactly one ping is sent, the timer is set to two seconds
  again and the application is told nothing. If the client is still connected after any frames from
  the server, in any pieces, and the timer expires again, the next ping is sent and the timer set if
  there was a pong among the frames; if there was none, however many messages the server sent, the
  connection is given up, the reason \<open>keep alive timeout\<close> is reported, once, and the reconnect timer
  runs. When instead the timer's descriptor does not deliver its eight bytes, the timer cannot be
  set again or the socket does not take the ping as a whole, the connection is given up and
  \<open>general error\<close> is reported.\<close>

theorem client_keep_alive:
  assumes "client_wf c" "client_app_ok c" "client_phase c = Up" "client_lucky c" "wscript (c_sys c) = []"
    "c_pong_received c" "input_fresh (c_input c)"
    "c1 = client_process k (c_keep_alive_timer_fd c) ev1 expired c"
    "\<forall>f \<in> set fs. length (snd f) < 2 ^ 24" "arrived as = concat (map frame fs)"
    "c2 = client_process k (c_server_fd c) ev2 as c1" "client_phase c2 = Up" "client_lucky c2" "wscript (c_sys c2) = []"
    "c3 = client_process k (c_keep_alive_timer_fd c2) ev3 expired c2"
  shows "(tx (c_sys c1) (c_server_fd c) = tx (c_sys c) (c_server_fd c) @ frame (MESSI_MESSAGE_TYPE_PING, []) \<and>
      armed (c_sys c1) (c_keep_alive_timer_fd c) = Some 2 \<and> c_log c1 = c_log c \<and> client_phase c1 = Up) \<and>
    (if MESSI_MESSAGE_TYPE_PONG \<in> fst ` set fs
     then tx (c_sys c3) (c_server_fd c2) = tx (c_sys c2) (c_server_fd c2) @ frame (MESSI_MESSAGE_TYPE_PING, []) \<and>
       armed (c_sys c3) (c_keep_alive_timer_fd c2) = Some 2 \<and> c_log c3 = c_log c2 \<and> client_phase c3 = Up
     else c_log c3 = c_log c2 @ [Disconnected Keep_alive_timeout] \<and> client_phase c3 = Waiting \<and>
       armed (c_sys c3) (c_reconnect_timer_fd c3) = Some 1) \<and>
    (\<forall>os bad. fds os = fds (c_sys c) \<and> keep_alive_fails bad (c\<lparr>c_sys := os\<rparr>) \<longrightarrow>
      c_log (client_process k (c_keep_alive_timer_fd c) ev1 bad (c\<lparr>c_sys := os\<rparr>)) =
        c_log c @ [Disconnected General_error])"
proof -
  note c1 = keep_alive_round(1) [OF assms(1-5,8,6)]
  have d: "c_server_fd c \<in> set (fds (c_sys c))" "c_keep_alive_timer_fd c \<in> set (fds (c_sys c))" "c_server_fd c \<noteq> - 1"
    using assms(1,3) by (auto simp: client_wf_def Let_def)
  have w1: "client_wf c1" "client_app_ok c1" "client_phase c1 = Up"
    using assms(1-3) app_ok_cong [of c1 c] by (simp_all add: c1 wf_system)
  have w2: "client_wf c2" "client_app_ok c2"
    using process_phase [OF w1(1,2), of "c_server_fd c" k ev2 as] d(1) by (simp_all add: assms(11) c1)
  let ?p = "cl_process_socket k as c1"
  have "\<not> c_pending_disconnect ?p"
  proof
    assume "c_pending_disconnect ?p"
    then have "c2 = client_finish_disconnect k ?p" "client_phase ?p = Closing"
      using handle_event_phase [OF w1(1,2), of "c_server_fd c" k as] d(1) wf_pending [of ?p]
      by (simp_all add: assms(11) client_process_eq client_handle_event_def c1)
    then show False
      using finish_disconnect [of ?p k] handle_event_phase [OF w1(1,2), of "c_server_fd c" k as] assms(12) d(1)
      by (auto simp: client_handle_event_def c1)
  qed
  then have c2: "c2 = ?p" by (simp add: assms(11) client_process_eq client_handle_event_def c1)
  have "client_fresh c1" "client_alive ?p"
    using wf_alive [OF w1(1,3)] wf_alive [OF w2(1) assms(12)] assms(7)
    unfolding c2 [symmetric] client_fresh_def by (simp_all add: c1)
  from client_pong_received [OF this(1) assms(9,10) this(2)]
  have pong: "c_pong_received c2 \<longleftrightarrow> MESSI_MESSAGE_TYPE_PONG \<in> fst ` set fs" by (simp add: c2 c1)
  note c3 = keep_alive_round [OF w2 assms(12-15)]
  have "c_log (client_process k (c_keep_alive_timer_fd c) ev1 bad (c\<lparr>c_sys := os\<rparr>)) = c_log c @ [Disconnected General_error]"
    if "fds os = fds (c_sys c)" "keep_alive_fails bad (c\<lparr>c_sys := os\<rparr>)" for os bad
    using keep_alive_fails_effect [OF _ _ that(2), of k ev1] assms(1,3) that(1)
    by (simp add: wf_system)
  moreover have "client_phase c3 = Up" if "c_pong_received c2"
    using c3(1) [OF that] assms(12) by (simp add: wf_system)
  ultimately show ?thesis
    using pong c3 w1(3) by (simp add: c1)
qed

text \<open>The demo client: a ping, then a pong or nothing; and a timer that delivers one byte only.\<close>

lemma client_keep_alive_witness:
  "let c1 = client_process demo_codec 5 EPOLLIN expired demo_up;
       c2 = client_process demo_codec 4 EPOLLIN [Chunk [4, 0, 0, 0]] c1;
       c3 = client_process demo_codec 5 EPOLLIN expired c2;
       silent = client_process demo_codec 5 EPOLLIN expired (client_process demo_codec 4 EPOLLIN [] c1)
   in c_log c3 = [Connected] \<and> armed (c_sys c3) 5 = Some 2 \<and>
      c_log silent = [Connected, Disconnected Keep_alive_timeout] \<and>
      c_log (client_process demo_codec 5 EPOLLIN [Chunk [1]] demo_up) = [Connected, Disconnected General_error]"
proof -
  have up: "client_lucky demo_up" "wscript (c_sys demo_up) = []" "c_pong_received demo_up" "input_fresh (c_input demo_up)"
    using demo_up_fresh(1) by (simp_all add: client_lucky_def demo_up_fields demo_up_callbacks client_fresh_def)
  define c1 where "c1 = client_process demo_codec (c_keep_alive_timer_fd demo_up) EPOLLIN expired demo_up"
  note c1 = keep_alive_round(1) [OF demo_wf(1) demo_app_ok(1) demo_wf(2) up(1,2) c1_def up(3)]
  have fresh: "client_fresh c1" "client_phase c1 = Up" "c_server_fd c1 = 4" "client_lucky c1" "wscript (c_sys c1) = []"
    using demo_up_fresh(1) up(1,2)
    by (simp_all add: c1 client_fresh_def client_ok_def client_alive_def client_phase_def client_lucky_def demo_up_fields)
  define c2 where "c2 = client_deliver demo_codec (4, []) c1"
  have c2: "client_phase c2 = Up" "client_lucky c2" "wscript (c_sys c2) = []" "\<not> c_pending_disconnect c2"
    "c_keep_alive_timer_fd c2 = 5" "c_server_fd c2 = 4" "client_alive c2" "c_log c2 = [Connected]"
    using fresh
    by (simp_all add: c2_def client_deliver_def c1 demo_up_fields client_alive_def header_sizeof_def cl_handle_message_def
        cl_handle_message_pong_def cl_reset_input_encoded_def message_type_defs client_phase_def client_lucky_def)
  have "cl_process_socket demo_codec [Chunk [4, 0, 0, 0]] c1 = client_finish True c2"
    using cl.loop_frames [where s = c1 and fs = "[(4, [])]" and as = "[Chunk [4, 0, 0, 0]]" and k = demo_codec] fresh(1)
    by (simp add: client_fresh_def cl_deliver_eq cl_finish_eq demo_frame_bytes c2_def)
  then have p2: "client_process demo_codec 4 EPOLLIN [Chunk [4, 0, 0, 0]] c1 = c2"
    using c2(4,7) fresh(3) by (simp add: client_finish_def client_process_eq client_handle_event_def)
  have p1: "client_process demo_codec 4 EPOLLIN [] c1 = c1"
    using fresh(1,3) process_socket_alive(1) [of c1 demo_codec]
    by (simp add: client_fresh_def client_process_eq client_handle_event_def) (simp add: c1 demo_up_fields)
  note thm1 = client_keep_alive [OF demo_wf(1) demo_app_ok(1) demo_wf(2) up c1_def, unfolded demo_up_fields(1)]
  have a: "c_log (client_process demo_codec 5 EPOLLIN expired c2) = [Connected]"
    "armed (c_sys (client_process demo_codec 5 EPOLLIN expired c2)) 5 = Some 2"
    using thm1 [of "[(4, [])]" "[Chunk [4, 0, 0, 0]]" c2 EPOLLIN _ EPOLLIN, OF _ _ p2 [symmetric] c2(1-3) refl]
    by (simp_all add: demo_frame_bytes message_type_defs c2(5,8))
  have "keep_alive_fails [Chunk [1]] (demo_up\<lparr>c_sys := c_sys demo_up\<rparr>)"
    by (simp add: keep_alive_fails_def demo_up_fields sys_read_def Let_def split: prod.split)
  note fails = this
  note t = thm1 [of "[]" "[]" c1 EPOLLIN _ EPOLLIN, OF _ _ p1 [symmetric] fresh(2,4,5) refl, simplified]
  have b: "c_log (client_process demo_codec 5 EPOLLIN expired c1) = [Connected, Disconnected Keep_alive_timeout]"
    using t [THEN conjunct2, THEN conjunct2, THEN conjunct2, THEN conjunct2, THEN conjunct1]
    by (simp add: c1 demo_up_fields)
  have d: "c_log (client_process demo_codec 5 EPOLLIN [Chunk [1]] demo_up) = [Connected, Disconnected General_error]"
    using client_keep_alive [OF demo_wf(1) demo_app_ok(1) demo_wf(2) up c1_def, unfolded demo_up_fields(1),
        of "[]" "[]" c1 EPOLLIN _ EPOLLIN, OF _ _ p1 [symmetric] fresh(2,4,5) refl, THEN conjunct2, THEN conjunct2,
        rule_format, of "c_sys demo_up" "[Chunk [1]]"] fails
    by (simp add: demo_up_fields)
  show ?thesis using a b d p1 p2 by (simp add: c1_def demo_up_fields Let_def)
qed

end
