(* ===== verification/LinuxClientFindings.thy ===== *)
theory LinuxClientFindings
  imports LinuxClientBehaviour
begin

text \<open>
  Four ways to bring the linux client out of order. The first two are shown for every client and
  applied to the client of \<open>LinuxClientDemo\<close>, the others are runs of the model on that client,
  computed step by step.
\<close>

section \<open>Running the client\<close>

lemma demo_lowest [simp]:
  "lowest_free [3, 2, 1, 0] = 4" "lowest_free [4, 3, 2, 1, 0] = 5" "lowest_free [5, 4, 3, 2, 1, 0] = 6"
  by code_simp+

text \<open>One round of \<open>process_socket\<close> on a single piece of data.\<close>

lemma process_socket_piece:
  assumes "client_alive c" "bs \<noteq> []" "0 < i_left (c_input c)" "n = min (i_left (c_input c)) (length bs)"
  shows "cl_process_socket k [Chunk bs] c =
   (let c1 = c\<lparr>c_input := input_read (take n bs) (c_input c)\<rparr> in
    (if 0 < i_left (c_input c1) then cl_process_socket k (push_back n bs []) c1
     else case input_complete (c_input c1) of
         Too_big i \<Rightarrow> cl_pending_disconnect Message_too_big (c1\<lparr>c_input := i\<rparr>)
       | More i \<Rightarrow> cl_process_socket k (push_back n bs []) (c1\<lparr>c_input := i\<rparr>)
       | Ready i \<Rightarrow> cl_process_socket k (push_back n bs []) (client_dispatch k (c1\<lparr>c_input := i\<rparr>))))"
  by (subst process_socket_chunk [OF assms refl]) (simp only: client_set_input_def Let_def)

text \<open>Closing and disconnecting with the default \<open>epoll_ctl\<close>.\<close>

definition os_closed :: "fd \<Rightarrow> os \<Rightarrow> os" where
  "os_closed d os =
     os\<lparr>fds := removeAll d (fds os), interest := (interest os)(d := None),
        armed := (if d \<in> set (fds os) then (armed os)(d := None) else armed os)\<rparr>"

lemma run_close_fd:
  "c_epoll_ctl c = Epoll_default \<Longrightarrow> cl_close_fd d c = c\<lparr>c_sys := os_closed d (c_sys c)\<rparr>"
  by (auto simp: cl_close_fd_def cl_close_def cl_epoll_ctl_del_def messi_epoll_ctl_default_def
      sys_epoll_ctl_def sys_close_def os_closed_def fun_upd_idem_iff intro!: os.equality
      client.equality)

lemma os_closed_simps [simp]:
  "fds (os_closed d os) = removeAll d (fds os)" "outcomes (os_closed d os) = outcomes os"
  "wscript (os_closed d os) = wscript os" "aton (os_closed d os) = aton os"
  by (simp_all add: os_closed_def)

lemma os_connected_simps [simp]:
  "fds (os_connected ip prt os) =
     lowest_free (lowest_free (fds os) # fds os) # lowest_free (fds os) # fds os"
  "outcomes (os_connected ip prt os) = outcomes os" "wscript (os_connected ip prt os) = wscript os"
  by (simp_all add: os_connected_def Let_def)

lemma os_new_fd_simps [simp]:
  "fds (os_new_fd os) = lowest_free (fds os) # fds os"
  "outcomes (os_new_fd os) = outcomes os" "wscript (os_new_fd os) = wscript os"
  by (simp_all add: os_new_fd_def Let_def)

lemmas client_run =
  client_process_eq client_handle_event_def client_finish_disconnect_def run_close_fd
  cl_pending_disconnect_def cl_disconnect_def lucky_reconnect_timer [OF _ refl]
  cl_process_reconnect_timer_def lucky_connect [OF _ refl refl refl] client_lucky_def run_callback_def
  cl_on_connected_default_def cl_on_disconnected_default_def cl_on_message_default_def Let_def

section \<open>A message that is too big, then a new connection\<close>

text \<open>Neither a reconnect nor the report of a disconnection touches the input; and a write outside of
  the input buffer is never forgotten.\<close>

lemma finish_disconnect_input: "c_input (client_finish_disconnect k c) = c_input c"
  by (simp add: client_finish_disconnect_def client_simps Let_def)

lemma reconnect_input: "c_input (cl_process_reconnect_timer k c) = c_input c"
  by (simp add: cl_process_reconnect_timer_def client_simps Let_def case_prod_unfold)

lemma process_input: "c_input (client_process k d ev as c) = c_input (client_handle_event k d as c)"
  by (simp add: client_process_eq finish_disconnect_input Let_def)

lemma process_socket_overrun:
  fixes c :: "('u, 'i, 'o) client"
  shows "i_overrun (c_input c) \<Longrightarrow> i_overrun (c_input (cl_process_socket k as c))"
proof (induction "arrivals_size as" arbitrary: as c rule: less_induct)
  case less
  obtain r as' where rd: "sys_read (c_server_fd c) (i_left (c_input c)) as (c_sys c) = (r, as')" by fastforce
  show ?case
  proof (cases "\<exists>bs. r = Inr bs \<and> bs \<noteq> []")
    case False
    then show ?thesis
      using less.prems by (subst cl_process_socket.simps) (auto simp: rd client_simps split: sum.split)
  next
    case True
    then obtain bs where bs: "r = Inr bs" "bs \<noteq> []" by blast
    have smaller: "arrivals_size as' < arrivals_size as" using rd bs by (auto intro: sys_read_decreases)
    have IH: "i_overrun (c_input (cl_process_socket k as' c'))" if "i_overrun (c_input c')"
      for c' :: "('u, 'i, 'o) client"
      by (rule less.hyps [OF smaller that])
    show ?thesis
      using less.prems bs(2)
      by (subst cl_process_socket.simps)
        (simp add: rd bs(1) IH input_read_def cl_reset_input_encoded_def client_simps Let_def)
  qed
qed


text \<open>The first piece that arrives at a client that still counts on more than its buffer can hold.\<close>

lemma process_socket_overruns:
  assumes "client_alive c" "i_size (c_input c) = header_sizeof" "\<not> i_overrun (c_input c)"
    "length (i_buf (c_input c)) < header_sizeof + i_left (c_input c)"
    "length (i_buf (c_input c)) < header_sizeof + length bs" "header_sizeof \<le> length (i_buf (c_input c))"
  shows "i_overrun (c_input (cl_process_socket k (Chunk bs # as) c))"
proof -
  let ?n = "min (i_left (c_input c)) (length bs)"
  let ?c1 = "client_set_input (input_read (take ?n bs) (c_input c)) c"
  have ov: "i_overrun (c_input ?c1)" using assms(2-6) by (simp add: client_set_input_def input_read_def min_def)
  have set_ov: "i_overrun (c_input (client_set_input i c))" if "i_overrun i" for i by (simp add: client_set_input_def that)
  have "i_overrun i" if "input_complete (c_input ?c1) \<in> {Too_big i, More i, Ready i}" for i
    using ov that by (auto simp: input_complete_def Let_def split: if_splits)
  then show ?thesis
    using assms ov
    by (subst process_socket_chunk [OF assms(1) _ _ refl refl])
      (auto simp: client_set_input_def client_simps dispatch_simps intro!: process_socket_overrun split: progress.splits)
qed


text \<open>C35: \<open>NAME_client_init\<close> prepares the input buffer for the first connection only. When a message
  arrives that is too big for the buffer, the client gives up the connection and connects again, but
  it goes on where the old connection stopped: it takes the first bytes of the new connection for the
  payload of the message it has refused, and as soon as more of them arrive at once than the buffer
  has room for after a header, they are written behind its end.\<close>

theorem client_overruns_after_reconnect:
  assumes "client_wf c" "client_app_ok c" "client_phase c = Up" "input_fresh (c_input c)"
    "length (snd f) < 2 ^ 24" "i_cap (c_input c) < header_sizeof + length (snd f)" "arrived as = frame f"
    "c1 = client_process k (c_server_fd c) ev as c" "client_phase c1 = Waiting"
    "c2 = client_process k (c_reconnect_timer_fd c1) ev' as' c1" "client_phase c2 = Up"
    "i_cap (c_input c) < header_sizeof + length bs"
  shows "c_log c1 = c_log c @ [Disconnected Message_too_big] \<and>
    \<not> i_overrun (c_input c2) \<and>
    i_overrun (c_input (client_process k (c_server_fd c2) ev'' (Chunk bs # as'') c2))"
proof -
  note alive = wf_alive [OF assms(1,3)]
  let ?i = "input_oversized f (c_input c)" and ?lost = "\<lambda>c. cl_pending_disconnect Message_too_big c"
  have fd: "c_server_fd c \<in> set (fds (c_sys c))" "\<not> c_pending_disconnect c"
    using assms(1,3) by (auto simp: client_wf_def Let_def)
  have "cl_process_socket k as c = client_finish (try_again as) (client_deliver k f c)"
    using cl.loop_frames [where s = c and fs = "[f]" and as = as and k = k] alive assms(4,5,7)
    by (simp add: cl_deliver_eq cl_finish_eq)
  also have "\<dots> = ?lost (c\<lparr>c_input := ?i\<rparr>)"
    using assms(6) alive by (simp add: client_deliver_def client_finish_def client_simps)
  finally have h: "client_handle_event k (c_server_fd c) as c = ?lost (c\<lparr>c_input := ?i\<rparr>)"
    by (simp add: client_handle_event_def)
  have log: "c_log c1 = c_log c @ [Disconnected Message_too_big]"
    using fd(2) by (simp add: assms(8) client_process_eq h finish_disconnect_log pending_reason client_simps Let_def)
  have i1: "c_input c1 = ?i" by (simp add: assms(8) process_input h client_simps)
  have w1: "client_wf c1" "client_app_ok c1"
    using process_phase [OF assms(1,2) fd(1), of k ev as] by (simp_all add: assms(8))
  have rec: "c_reconnect_timer_fd c1 \<in> set (fds (c_sys c1))" "c_reconnect_timer_fd c1 \<noteq> c_server_fd c1"
    "c_reconnect_timer_fd c1 \<noteq> c_keep_alive_timer_fd c1"
    using w1(1) assms(9) by (auto simp: client_wf_def client_phase_def Let_def split: if_splits)
  have i2: "c_input c2 = ?i"
    using rec(2,3) i1 by (simp add: assms(10) process_input client_handle_event_def reconnect_input)
  have "client_wf c2" using process_phase [OF w1 rec(1), of k ev' as'] by (simp add: assms(10))
  note alive2 = wf_alive [OF this assms(11), THEN conjunct2]
  have buf: "length (i_buf ?i) = i_cap (c_input c)" "header_sizeof \<le> i_cap (c_input c)" "\<not> i_overrun ?i"
    "i_size ?i = header_sizeof" "i_left ?i = length (snd f)"
    using assms(4) by (auto simp: input_fresh_def input_ok_def input_oversized_def header_sizeof_def)
  have "i_overrun (c_input (cl_process_socket k (Chunk bs # as'') c2))"
    by (rule process_socket_overruns [OF alive2]) (use buf assms(6,12) i2 in simp_all)
  then show ?thesis
    using log i2 buf(3) by (simp add: process_input client_handle_event_def)
qed

lemma demo_server_fd: "c_server_fd demo_up \<in> set (fds (c_sys demo_up))"
  by (simp add: demo_up_fields)

text \<open>A message of 30 bytes for a buffer of 16, then 20 bytes on the next connection.\<close>

definition run_too_big :: "(nat, byte list, byte list) client" where
  "run_too_big = client_process demo_codec 4 EPOLLIN [Chunk (frame (2, replicate 30 0))] demo_up"

lemma run_too_big_socket:
  "cl_process_socket demo_codec [Chunk (frame (2, replicate 30 0))] demo_up =
     cl_pending_disconnect Message_too_big (demo_up\<lparr>c_input := input_oversized (2, replicate 30 0) (c_input demo_up)\<rparr>)"
proof -
  have "frame (2, replicate 30 0) \<noteq> []" by (simp add: frame_def header_bytes_def)
  then show ?thesis
    using cl.loop_frames [where s = demo_up and fs = "[(2, replicate 30 0)]" and k = demo_codec
        and as = "[Chunk (frame (2, replicate 30 0))]"] demo_up_fresh(1)
    by (simp add: cl_deliver_eq cl_finish_eq client_fresh_def client_deliver_def demo_up_fields(10) header_sizeof_def
        client_finish_def client_simps)
qed

lemma run_too_big_fields:
  "client_phase run_too_big = Waiting" "c_reconnect_timer_fd run_too_big = 4"
  "client_phase (client_process demo_codec 4 EPOLLIN [] run_too_big) = Up"
  "c_server_fd (client_process demo_codec 4 EPOLLIN [] run_too_big) = 4"
  by (simp_all add: run_too_big_def run_too_big_socket client_run demo_up_fields demo_up_callbacks client_phase_def)

lemma client_overruns_after_reconnect_witness:
  "i_overrun (c_input (client_process demo_codec 4 EPOLLIN [Chunk (replicate 20 0)]
     (client_process demo_codec 4 EPOLLIN [] run_too_big)))"
proof -
  have nonempty: "frame (2, replicate 30 0) \<noteq> []" by (simp add: frame_def header_bytes_def)
  have "input_fresh (c_input demo_up)" using demo_up_fresh(1) by (simp add: client_fresh_def)
  from client_overruns_after_reconnect [OF demo_wf(1) demo_app_ok(1) demo_wf(2) this,
      of "(2, replicate 30 0)" "[Chunk (frame (2, replicate 30 0))]" run_too_big demo_codec EPOLLIN
        "client_process demo_codec 4 EPOLLIN [] run_too_big" EPOLLIN "[]" "replicate 20 0" EPOLLIN "[]"]
  show ?thesis
    using nonempty
    by (simp add: run_too_big_fields demo_up_fields(1,10) header_sizeof_def run_too_big_def [symmetric])
qed


section \<open>Sending without a connection\<close>

text \<open>An application whose callbacks make no calls, on a system without failures; \<open>held\<close> lists what
  the client remembers and what is open.\<close>

definition client_quiet :: "('u, 'i, 'o) client \<Rightarrow> bool" where
  "client_quiet c \<longleftrightarrow> client_lucky c \<and> - 1 \<notin> set (fds (c_sys c)) \<and>
     (\<forall>u. snd (c_on_connected c u) = []) \<and> (\<forall>r u. snd (c_on_disconnected c r u) = [])"

definition held :: "('u, 'i, 'o) client \<Rightarrow> (fd \<times> fd \<times> fd) \<times> bool \<times> fd list" where
  "held c = ((c_server_fd c, c_keep_alive_timer_fd c, c_reconnect_timer_fd c), c_pending_disconnect c, fds (c_sys c))"

lemma quiet_callback:
  "snd (cb (c_app c)) = [] \<Longrightarrow> run_callback k cb ev c = c\<lparr>c_app := fst (cb (c_app c)), c_log := c_log c @ [ev]\<rparr>"
  by (simp add: run_callback_def case_prod_unfold Let_def)

lemma quietD:
  assumes "client_quiet c"
  shows "client_lucky c" "c_epoll_ctl c = Epoll_default" "outcomes (c_sys c) = []" "- 1 \<notin> set (fds (c_sys c))"
    "snd (c_on_connected c u) = []" "snd (c_on_disconnected c r u) = []"
  using assms by (simp_all add: client_quiet_def client_lucky_def)

lemma send_down:
  assumes "client_quiet c" "held c = ((- 1, ka, rec), p, xs)" "c1 = client_send k c"
  shows "held c1 = ((- 1, ka, rec), True, xs)" "client_quiet c1" "c_log c1 = c_log c"
proof -
  note q = quietD [OF assms(1)]
  have h: "c_server_fd c = - 1" "c_keep_alive_timer_fd c = ka" "c_reconnect_timer_fd c = rec" "fds (c_sys c) = xs"
    using assms(2) by (auto simp: held_def)
  have w: "sys_write (- 1) bs (c_sys c) = (Inl EBADF, c_sys c)" for bs using q(4) by (simp add: os_simps)
  have "held c1 = ((- 1, ka, rec), True, xs) \<and> client_quiet c1 \<and> c_log c1 = c_log c"
  proof (cases rule: client_send_cases [of k c])
    case encode
    then show ?thesis
      using q h by (cases "c_pending_disconnect c")
        (auto simp: assms(3) held_def client_quiet_def client_lucky_def cl_pending_disconnect_def run_close_fd Let_def)
  next
    case (wrote payload buf fault r os)
    then show ?thesis
      using q h w by (cases "c_pending_disconnect c")
        (auto simp: assms(3) held_def client_quiet_def client_lucky_def cl_pending_disconnect_def run_close_fd Let_def)
  qed
  then show "held c1 = ((- 1, ka, rec), True, xs)" "client_quiet c1" "c_log c1 = c_log c" by blast+
qed

text \<open>The reconnect timer expires: a new socket and a new timer.\<close>

lemma quiet_reconnect:
  assumes "client_quiet c" "held c = ((sv, ka, rec), p, xs)" "rec \<noteq> sv" "rec \<noteq> ka" "rec \<noteq> - 1"
    "ys = removeAll rec xs" "sock = lowest_free ys" "tim = lowest_free (sock # ys)" "c1 = client_handle_event k rec as c"
  shows "held c1 = ((sock, tim, - 1), p, tim # sock # ys)" "client_quiet c1" "c_log c1 = c_log c @ [Connected]"
    "c_disconnect_reason c1 = c_disconnect_reason c"
proof -
  note q = quietD [OF assms(1)]
  let ?c = "(cl_close_fd rec c)\<lparr>c_reconnect_timer_fd := - 1\<rparr>"
  have h: "c_server_fd c = sv" "c_keep_alive_timer_fd c = ka" "c_reconnect_timer_fd c = rec"
    "c_pending_disconnect c = p" "fds (c_sys c) = xs"
    using assms(2) by (auto simp: held_def)
  have c: "client_lucky ?c" "fds (c_sys ?c) = ys" "c_on_connected ?c = c_on_connected c" "c_pending_disconnect ?c = p"
    "c_log ?c = c_log c" "c_on_disconnected ?c = c_on_disconnected c"
    using q(2,3) h by (simp_all add: run_close_fd client_lucky_def assms(6))
  let ?ip = "case aton (c_sys ?c) (c_address ?c) of None \<Rightarrow> 0 | Some a \<Rightarrow> a"
  let ?c2 = "?c\<lparr>c_keep_alive_timer_fd := tim, c_sys := os_connected ?ip (sin_port (c_port ?c)) (c_sys ?c),
     c_server_fd := sock, c_pong_received := True\<rparr>"
  have "cl_connect_to_server k ?c = (0, run_callback k (c_on_connected ?c) Connected ?c2)"
    by (rule lucky_connect [OF c(1) _ _ refl]) (simp_all only: c(2) assms(7,8))
  then have c1: "c1 = run_callback k (c_on_connected c) Connected ?c2"
    using assms(3-5,9) h c(3) by (simp add: client_handle_event_def cl_process_reconnect_timer_def Let_def)
  note c1 = c1 [unfolded quiet_callback [OF q(5)]]
  have "sock \<noteq> - 1" "tim \<noteq> - 1" using assms(7,8) lowest_free(2) [of ys] lowest_free(2) [of "sock # ys"] by auto
  then show "held c1 = ((sock, tim, - 1), p, tim # sock # ys)" "c_log c1 = c_log c @ [Connected]" "client_quiet c1"
    "c_disconnect_reason c1 = c_disconnect_reason c"
    using c q(4-6) h(5) assms(1,6-8)
    by (auto simp: c1 held_def client_quiet_def client_lucky_def client_simps)
qed

text \<open>A disconnection that is pending although there is a socket: the socket is left alone.\<close>

lemma quiet_finish:
  assumes "client_quiet c" "held c = ((sv, ka, rec), True, xs)" "rec' = lowest_free (removeAll ka xs)"
    "c1 = client_finish_disconnect k c"
  shows "held c1 = ((sv, - 1, rec'), False, rec' # removeAll ka xs)" "client_quiet c1"
    "c_log c1 = c_log c @ [Disconnected (c_disconnect_reason c)]"
proof -
  note q = quietD [OF assms(1)]
  have h: "c_server_fd c = sv" "c_keep_alive_timer_fd c = ka" "c_pending_disconnect c" "fds (c_sys c) = xs"
    using assms(2) by (auto simp: held_def)
  let ?c = "c\<lparr>c_sys := os_closed ka (c_sys c), c_keep_alive_timer_fd := - 1, c_pending_disconnect := False\<rparr>"
  have d: "cl_disconnect c = ?c"
    using h q(2) by (simp add: cl_disconnect_def cl_pending_disconnect_def run_close_fd)
  define c2 where "c2 = run_callback k (c_on_disconnected ?c (c_disconnect_reason ?c))
    (Disconnected (c_disconnect_reason ?c)) ?c"
  have c2: "c2 = ?c\<lparr>c_app := fst (c_on_disconnected c (c_disconnect_reason c) (c_app c)),
      c_log := c_log c @ [Disconnected (c_disconnect_reason c)]\<rparr>"
    by (simp add: c2_def quiet_callback q(6))
  have l: "client_lucky c2" "rec' = lowest_free (fds (c_sys c2))"
    using q(2,3) assms(3) h by (simp_all add: c2 client_lucky_def)
  have "c1 = snd (cl_start_reconnect_timer c2)"
    by (simp add: assms(4) client_finish_disconnect_def d c2_def Let_def)
  note c1 = this [unfolded lucky_reconnect_timer [OF l]]
  have "rec' \<noteq> - 1" using l(2) lowest_free(2) [of "fds (c_sys c2)"] by auto
  then show "held c1 = ((sv, - 1, rec'), False, rec' # removeAll ka xs)" "client_quiet c1"
    "c_log c1 = c_log c @ [Disconnected (c_disconnect_reason c)]"
    using q h l assms(3) unfolding c1 by (auto simp: c2 held_def client_quiet_def client_lucky_def)
qed

lemma quiet_stop:
  assumes "client_quiet c" "held c = ((sv, ka, - 1), False, xs)"
  shows "fds (c_sys (client_stop c)) = removeAll ka (removeAll sv xs)"
  using assms quietD(2) [OF assms(1)]
  by (simp add: held_def client_stop_def cl_disconnect_def cl_pending_disconnect_def run_close_fd Let_def)


text \<open>The demo client, whose server has closed the connection, sends before the timer expires.\<close>

definition run_closed :: "(nat, byte list, byte list) client" where
  "run_closed = client_process demo_codec 4 EPOLLIN [Chunk []] demo_up"

lemma run_closed_fields:
  "client_phase run_closed = Waiting" "c_reconnect_timer_fd run_closed = 4" "c_keep_alive_timer_fd run_closed = - 1"
  "client_wf run_closed" "client_quiet run_closed" "client_foreign run_closed = {0, 1, 2, 3}"
proof -
  have alive: "client_alive demo_up" by (simp add: client_alive_def demo_up_fields)
  show "client_phase run_closed = Waiting" "c_reconnect_timer_fd run_closed = 4" "c_keep_alive_timer_fd run_closed = - 1"
    "client_quiet run_closed" "client_foreign run_closed = {0, 1, 2, 3}"
    by (auto simp: run_closed_def process_socket_alive(2) [OF alive] client_run demo_up_fields demo_up_callbacks
        client_phase_def client_quiet_def client_foreign_def)
  show "client_wf run_closed"
    using process_phase [OF demo_wf(1) demo_app_ok(1), of 4 demo_codec EPOLLIN "[Chunk []]"]
    by (simp add: run_closed_def demo_up_fields)
qed


section \<open>Stopping in a callback\<close>

definition demo_stops :: "(nat, byte list, byte list) client" where
  "demo_stops = demo_up\<lparr>c_on_message := \<lambda>n. Some (\<lambda>m u. (u, [Client_stop]))\<rparr>"

text \<open>A client that is stopped from a message callback does not stay stopped: the loop that called
  the callback takes the closed socket for a lost connection, reports it, and sets up the timer
  that connects to the server again.\<close>

theorem client_stop_in_callback_reconnects:
  "c_log (client_process demo_codec 4 EPOLLIN [Chunk [2, 0, 0, 2, 1, 7]] demo_stops) =
     [Connected, Received 1 [1, 7], Disconnected Connection_closed] \<and>
   client_phase (client_process demo_codec 4 EPOLLIN [Chunk [2, 0, 0, 2, 1, 7]] demo_stops) = Waiting"
proof -
  have fresh: "client_ok demo_stops" "client_alive demo_stops" "input_fresh (c_input demo_stops)"
    using demo_up_fresh(1) by (simp_all add: client_fresh_def demo_stops_def client_ok_def client_alive_def)
  have "cl_process_socket demo_codec [Chunk [2, 0, 0, 2, 1, 7]] demo_stops =
      client_finish True (client_deliver demo_codec (2, [1, 7]) demo_stops)"
    using cl.loop_frames [where s = demo_stops and fs = "[(2, [1, 7])]" and k = demo_codec
        and as = "[Chunk [2, 0, 0, 2, 1, 7]]"] fresh
    by (simp add: cl_deliver_eq cl_finish_eq demo_frame_bytes)
  then show ?thesis
    by (simp add: client_run demo_unfold demo_stops_def client_stop_def client_phase_def
        del: drop_frame take_frame)
qed

section \<open>A connection that fails late\<close>

text \<open>
  Everything works until the keep alive timer is to be registered with epoll; afterwards, while
  the client waits for its next attempt, the process opens a descriptor of its own.
\<close>

definition demo_flaky :: "(nat, byte list, byte list) client" where
  "demo_flaky = demo_down\<lparr>c_sys := (c_sys demo_down)
     \<lparr>outcomes := [True, True, True, True, True, True, False]\<rparr>\<rparr>"

definition run_dangling :: "(nat, byte list, byte list) client" where
  "run_dangling = client_start demo_codec demo_flaky"

lemma run_dangling_fields:
  "c_server_fd run_dangling = - 1" "c_reconnect_timer_fd run_dangling = 4"
  "c_keep_alive_timer_fd run_dangling = 5" "\<not> c_pending_disconnect run_dangling"
  "fds (c_sys run_dangling) = [4, 3, 2, 1, 0]" "outcomes (c_sys run_dangling) = []"
  "c_epoll_ctl run_dangling = Epoll_default"
  by (simp_all add: run_dangling_def demo_flaky_def client_start_def cl_connect_to_server_def
      sys_socket_def sys_timerfd_create_def sys_new_fd_def sys_try_def sys_connect_def sys_on_fd_def
      messi_make_non_blocking_def sys_fcntl_getfl_def sys_fcntl_setfl_def cl_epoll_ctl_add_def
      messi_epoll_ctl_default_def sys_epoll_ctl_def cl_connect_out3_def cl_connect_out2_def
      cl_connect_out1_def cl_close_def sys_close_def cl_epoll_ctl_del_def cl_start_reconnect_timer_def
      cl_start_timer_def sys_timerfd_settime_def demo_down_fields demo_down_callbacks Let_def)

text \<open>When connecting fails after the keep alive timer has been created, the client closes the timer
  but remembers its number. A descriptor that the process opens in the meantime gets that number,
  and stopping the client closes it.\<close>

theorem client_stop_closes_foreign_descriptor:
  "sys_new_fd (c_sys run_dangling) = (5, os_new_fd (c_sys run_dangling)) \<and>
   fds (os_new_fd (c_sys run_dangling)) = [5, 4, 3, 2, 1, 0] \<and>
   fds (c_sys (client_stop (run_dangling\<lparr>c_sys := os_new_fd (c_sys run_dangling)\<rparr>))) = [3, 2, 1, 0]"
  by (simp add: lucky_new_fd run_dangling_fields client_stop_def client_run)

end
