(* ===== verification/LinuxServer.thy ===== *)
theory LinuxServer
  imports Codec
begin

unbundle bit_operations_syntax

text \<open>
  The linux server: \<open>struct NAME_server_t\<close>, \<open>struct NAME_server_client_t\<close> and the items of the
  output queues of \<open>templates/linux/server.h\<close>, and every function of
  \<open>templates/linux/server.c\<close>. The functions an application may call from a callback come
  before the callbacks are called; otherwise the order is that of the file.

  Memory: the array of clients that the application provides is a function from indices to
  structs, with pointers into it as \<open>nat option\<close>; the items that \<open>malloc\<close> returns live at
  addresses that are never used twice, so that a second \<open>free\<close> and a use after \<open>free\<close> can be
  seen. The ghost \<open>s_fault\<close> records these, the use of a \<open>NULL\<close> pointer and a write outside of
  the output buffer; the ghost \<open>s_hang\<close> records that a loop over a list has visited more
  elements than there are.
\<close>

section \<open>State\<close>

record item =
  it_offset :: nat
  it_size :: nat
  it_next :: ptr
  it_data :: "byte list"

record sclient =
  k_fd :: fd
  k_timer :: fd
  k_input :: input
  k_head :: ptr
  k_tail :: ptr
  k_next :: ptr
  k_prev :: ptr

text \<open>
  What an application can do in a callback: prepare a message, send it to a client, to the
  client whose message is being handled, or to all, and disconnect a client (\<open>None\<close> is
  \<open>NULL\<close>, the current client).
\<close>

datatype 'o server_request =
    Prepare_message "'o \<Rightarrow> 'o"
  | Send_to nat
  | Reply
  | Broadcast
  | Disconnect_client ptr

datatype 'i server_event =
  Client_connected nat | Client_disconnected nat | Client_message nat nat 'i

text \<open>
  The callbacks take the client, as its index. From \<open>s_max\<close> on the fields are not part of the
  struct: the array of clients and its size, the heap, the next address \<open>malloc\<close> returns, the
  state of the application, the system, the callbacks called so far and the two ghosts.
\<close>

record ('u, 'i, 'o) server =
  s_address :: string
  s_port :: int
  s_on_client_connected :: "nat \<Rightarrow> 'u \<Rightarrow> 'u \<times> 'o server_request list"
  s_on_client_disconnected :: "nat \<Rightarrow> 'u \<Rightarrow> 'u \<times> 'o server_request list"
  s_on_message :: "nat \<Rightarrow> (nat \<Rightarrow> 'i \<Rightarrow> 'u \<Rightarrow> 'u \<times> 'o server_request list) option"
  s_epoll_fd :: fd
  s_epoll_ctl :: epoll_ctl_fn
  s_listener_fd :: fd
  s_current :: ptr
  s_connected :: ptr
  s_free :: ptr
  s_pending :: ptr
  s_input_buffer_size :: nat
  s_in_message :: "'i option"
  s_in_workspace_size :: nat
  s_out_message :: "'o option"
  s_out_workspace_size :: nat
  s_out_buf :: "byte list"
  s_out_size :: nat
  s_max :: nat
  s_clients :: "nat \<Rightarrow> sclient"
  s_heap :: "nat \<Rightarrow> item option"
  s_brk :: nat
  s_app :: 'u
  s_sys :: os
  s_log :: "'i server_event list"
  s_fault :: bool
  s_hang :: bool

definition sv_upd :: "nat \<Rightarrow> (sclient \<Rightarrow> sclient) \<Rightarrow> ('u, 'i, 'o) server \<Rightarrow> ('u, 'i, 'o) server" where
  "sv_upd i f s = s\<lparr>s_clients := (s_clients s)(i := f (s_clients s i))\<rparr>"

section \<open>Lists of clients\<close>

definition sv_alloc_client :: "('u, 'i, 'o) server \<Rightarrow> ptr \<times> ('u, 'i, 'o) server" where
  "sv_alloc_client s =
     (case s_free s of
        None \<Rightarrow> (None, s)
      | Some i \<Rightarrow>
          (let s1 = s\<lparr>s_free := k_next (s_clients s i)\<rparr>;
               s2 = sv_upd i (\<lambda>c. c\<lparr>k_next := s_connected s1\<rparr>) s1;
               s3 = (case s_connected s2 of
                       None \<Rightarrow> s2
                     | Some h \<Rightarrow> sv_upd h (\<lambda>c. c\<lparr>k_prev := Some i\<rparr>) s2)
           in (Some i, s3\<lparr>s_connected := Some i\<rparr>)))"

text \<open>The list is given by its head; the new head is returned.\<close>

definition sv_remove_client_from_list ::
    "ptr \<Rightarrow> nat \<Rightarrow> ('u, 'i, 'o) server \<Rightarrow> ptr \<times> ('u, 'i, 'o) server" where
  "sv_remove_client_from_list list i s =
     (let (list1, s1) =
        (if list = Some i then (k_next (s_clients s i), s)
         else case k_prev (s_clients s i) of
             None \<Rightarrow> (list, s\<lparr>s_fault := True\<rparr>)
           | Some p \<Rightarrow> (list, sv_upd p (\<lambda>c. c\<lparr>k_next := k_next (s_clients s i)\<rparr>) s));
          s2 = (case k_next (s_clients s1 i) of
                  None \<Rightarrow> s1
                | Some n \<Rightarrow> sv_upd n (\<lambda>c. c\<lparr>k_prev := k_prev (s_clients s1 i)\<rparr>) s1)
      in (list1, s2))"

definition sv_free_connected_client :: "nat \<Rightarrow> ('u, 'i, 'o) server \<Rightarrow> ('u, 'i, 'o) server" where
  "sv_free_connected_client i s =
     (let (list, s1) = sv_remove_client_from_list (s_connected s) i s;
          s2 = sv_upd i (\<lambda>c. c\<lparr>k_next := s_free s1\<rparr>) (s1\<lparr>s_connected := list\<rparr>)
      in s2\<lparr>s_free := Some i\<rparr>)"

definition sv_free_pending_disconnect_client ::
    "nat \<Rightarrow> ('u, 'i, 'o) server \<Rightarrow> ('u, 'i, 'o) server" where
  "sv_free_pending_disconnect_client i s =
     (let (list, s1) = sv_remove_client_from_list (s_pending s) i s;
          s2 = sv_upd i (\<lambda>c. c\<lparr>k_next := s_free s1\<rparr>) (s1\<lparr>s_pending := list\<rparr>)
      in s2\<lparr>s_free := Some i\<rparr>)"

definition sv_move_client_to_pending_disconnect_list ::
    "nat \<Rightarrow> ('u, 'i, 'o) server \<Rightarrow> ('u, 'i, 'o) server" where
  "sv_move_client_to_pending_disconnect_list i s =
     (let (list, s1) = sv_remove_client_from_list (s_connected s) i s;
          s2 = sv_upd i (\<lambda>c. c\<lparr>k_next := s_pending s1\<rparr>) (s1\<lparr>s_connected := list\<rparr>)
      in s2\<lparr>s_pending := Some i\<rparr>)"

section \<open>Descriptors\<close>

definition sv_epoll_ctl_add :: "fd \<Rightarrow> ('u, 'i, 'o) server \<Rightarrow> int \<times> ('u, 'i, 'o) server" where
  "sv_epoll_ctl_add d s =
     (let (res, os) = call_epoll_ctl (s_epoll_ctl s) (s_epoll_fd s) EPOLL_CTL_ADD d EPOLLIN (s_sys s)
      in (res, s\<lparr>s_sys := os\<rparr>))"

definition sv_epoll_ctl_del :: "fd \<Rightarrow> ('u, 'i, 'o) server \<Rightarrow> ('u, 'i, 'o) server" where
  "sv_epoll_ctl_del d s =
     s\<lparr>s_sys := snd (call_epoll_ctl (s_epoll_ctl s) (s_epoll_fd s) EPOLL_CTL_DEL d 0 (s_sys s))\<rparr>"

definition sv_epoll_ctl_mod :: "fd \<Rightarrow> u32 \<Rightarrow> ('u, 'i, 'o) server \<Rightarrow> ('u, 'i, 'o) server" where
  "sv_epoll_ctl_mod d events s =
     s\<lparr>s_sys := snd (call_epoll_ctl (s_epoll_ctl s) (s_epoll_fd s) EPOLL_CTL_MOD d events (s_sys s))\<rparr>"

definition sv_close :: "fd \<Rightarrow> ('u, 'i, 'o) server \<Rightarrow> ('u, 'i, 'o) server" where
  "sv_close d s = s\<lparr>s_sys := sys_close d (s_sys s)\<rparr>"

definition sv_close_fd :: "fd \<Rightarrow> ('u, 'i, 'o) server \<Rightarrow> ('u, 'i, 'o) server" where
  "sv_close_fd d s = sv_close d (sv_epoll_ctl_del d s)"

section \<open>One client\<close>

definition sv_client_reset_input :: "nat \<Rightarrow> ('u, 'i, 'o) server \<Rightarrow> ('u, 'i, 'o) server" where
  "sv_client_reset_input i s =
     sv_upd i (\<lambda>c. c\<lparr>k_input := (k_input c)\<lparr>i_state := Header, i_size := 0, i_left := header_sizeof\<rparr>\<rparr>) s"

definition sv_client_start_keep_alive_timer ::
    "nat \<Rightarrow> ('u, 'i, 'o) server \<Rightarrow> int \<times> ('u, 'i, 'o) server" where
  "sv_client_start_keep_alive_timer i s =
     (let (res, os) = sys_timerfd_settime (k_timer (s_clients s i)) 3 (s_sys s)
      in (res, s\<lparr>s_sys := os\<rparr>))"

text \<open>\<open>out1\<close> closes the timer, \<open>out2\<close> deregisters it before that.\<close>

definition sv_client_init_out1 :: "nat \<Rightarrow> ('u, 'i, 'o) server \<Rightarrow> int \<times> ('u, 'i, 'o) server" where
  "sv_client_init_out1 i s = (- 1, sv_close (k_timer (s_clients s i)) s)"

definition sv_client_init_out2 :: "nat \<Rightarrow> ('u, 'i, 'o) server \<Rightarrow> int \<times> ('u, 'i, 'o) server" where
  "sv_client_init_out2 i s = sv_client_init_out1 i (sv_epoll_ctl_del (k_timer (s_clients s i)) s)"

definition sv_client_init :: "nat \<Rightarrow> fd \<Rightarrow> ('u, 'i, 'o) server \<Rightarrow> int \<times> ('u, 'i, 'o) server" where
  "sv_client_init i client_fd s =
     (let s = sv_upd i (\<lambda>c. c\<lparr>k_fd := client_fd\<rparr>) s;
          s = sv_client_reset_input i s;
          s = sv_upd i (\<lambda>c. c\<lparr>k_head := None\<rparr>) s;
          (d, os) = sys_timerfd_create (s_sys s);
          s = sv_upd i (\<lambda>c. c\<lparr>k_timer := d\<rparr>) (s\<lparr>s_sys := os\<rparr>)
      in if d = - 1 then (- 1, s)
         else
      let (res, s) = sv_client_start_keep_alive_timer i s
      in if res = - 1 then sv_client_init_out1 i s
         else
      let (res, s) = sv_epoll_ctl_add (k_timer (s_clients s i)) s
      in if res = - 1 then sv_client_init_out1 i s
         else
      let (res, s) = sv_epoll_ctl_add client_fd s
      in if res = - 1 then sv_client_init_out2 i s
         else (0, s))"

text \<open>\<open>free\<close>, and the loop of \<open>free_client_output\<close>; at most \<open>s_brk\<close> items exist.\<close>

definition sv_free_item :: "nat \<Rightarrow> ('u, 'i, 'o) server \<Rightarrow> ('u, 'i, 'o) server" where
  "sv_free_item a s =
     (if s_heap s a = None then s\<lparr>s_fault := True\<rparr> else s\<lparr>s_heap := (s_heap s)(a := None)\<rparr>)"

primrec sv_free_items :: "nat \<Rightarrow> ptr \<Rightarrow> ('u, 'i, 'o) server \<Rightarrow> ('u, 'i, 'o) server" where
  "sv_free_items 0 p s = (if p = None then s else s\<lparr>s_hang := True\<rparr>)"
| "sv_free_items (Suc n) p s =
     (case p of
        None \<Rightarrow> s
      | Some a \<Rightarrow>
          (case s_heap s a of
             None \<Rightarrow> s\<lparr>s_fault := True\<rparr>
           | Some it \<Rightarrow> sv_free_items n (it_next it) (sv_free_item a s)))"

definition sv_free_client_output :: "nat \<Rightarrow> ('u, 'i, 'o) server \<Rightarrow> ('u, 'i, 'o) server" where
  "sv_free_client_output i s =
     (let p = k_head (s_clients s i); s1 = sv_upd i (\<lambda>c. c\<lparr>k_head := None\<rparr>) s
      in sv_free_items (s_brk s1) p s1)"

definition sv_client_pending_disconnect :: "nat \<Rightarrow> ('u, 'i, 'o) server \<Rightarrow> ('u, 'i, 'o) server" where
  "sv_client_pending_disconnect i s =
     (if k_fd (s_clients s i) = - 1 then s
      else
        (let s1 = sv_close_fd (k_fd (s_clients s i)) s;
             s2 = sv_upd i (\<lambda>c. c\<lparr>k_fd := - 1\<rparr>) s1;
             s3 = sv_free_client_output i s2
         in sv_move_client_to_pending_disconnect_list i s3))"

section \<open>Output\<close>

text \<open>A new item, at an address that was never used before; \<open>NULL\<close> when there is no memory.\<close>

definition sv_malloc :: "item \<Rightarrow> ('u, 'i, 'o) server \<Rightarrow> ptr \<times> ('u, 'i, 'o) server" where
  "sv_malloc it s =
     (let (ok, os) = sys_malloc (s_sys s); s1 = s\<lparr>s_sys := os\<rparr>
      in if ok then (Some (s_brk s1), s1\<lparr>s_heap := (s_heap s1)(s_brk s1 \<mapsto> it), s_brk := Suc (s_brk s1)\<rparr>)
         else (None, s1))"

definition sv_client_output_append ::
    "nat \<Rightarrow> byte list \<Rightarrow> ('u, 'i, 'o) server \<Rightarrow> ('u, 'i, 'o) server" where
  "sv_client_output_append i buf s =
     (case sv_malloc \<lparr>it_offset = 0, it_size = length buf, it_next = None, it_data = buf\<rparr> s of
        (None, s) \<Rightarrow> s
      | (Some a, s) \<Rightarrow>
          (let s1 =
             (if k_head (s_clients s i) = None
              then sv_epoll_ctl_mod (k_fd (s_clients s i)) (EPOLLIN OR EPOLLOUT)
                     (sv_upd i (\<lambda>c. c\<lparr>k_head := Some a\<rparr>) s)
              else case k_tail (s_clients s i) of
                  None \<Rightarrow> s\<lparr>s_fault := True\<rparr>
                | Some t \<Rightarrow>
                    (case s_heap s t of
                       None \<Rightarrow> s\<lparr>s_fault := True\<rparr>
                     | Some it \<Rightarrow> s\<lparr>s_heap := (s_heap s)(t \<mapsto> it\<lparr>it_next := Some a\<rparr>)\<rparr>))
           in sv_upd i (\<lambda>c. c\<lparr>k_tail := Some a\<rparr>) s1))"

text \<open>The loop of \<open>client_write\<close>; \<open>bs\<close> are the \<open>size\<close> bytes from \<open>offset\<close> on.\<close>

function sv_client_write_loop :: "nat \<Rightarrow> byte list \<Rightarrow> ('u, 'i, 'o) server \<Rightarrow> ('u, 'i, 'o) server" where
  "sv_client_write_loop i bs s =
     (if bs = [] then s
      else
        (let (res, os) = sys_write (k_fd (s_clients s i)) bs (s_sys s); s1 = s\<lparr>s_sys := os\<rparr>
         in case res of
              Inr n \<Rightarrow>
                if n = length bs then s1
                else if n > 0 then sv_client_write_loop i (drop n bs) s1
                else sv_client_pending_disconnect i s1
            | Inl e \<Rightarrow>
                if e = EAGAIN then sv_client_output_append i bs s1
                else sv_client_pending_disconnect i s1))"
  by pat_completeness auto
termination
  by (relation "measure (\<lambda>(i, bs, s). length bs)") auto

declare sv_client_write_loop.simps [simp del]

definition sv_client_write :: "nat \<Rightarrow> byte list \<Rightarrow> ('u, 'i, 'o) server \<Rightarrow> ('u, 'i, 'o) server" where
  "sv_client_write i buf s =
     (if k_head (s_clients s i) \<noteq> None then sv_client_output_append i buf s
      else sv_client_write_loop i buf s)"

section \<open>What the application calls\<close>

definition server_new_output_message ::
    "('i, 'o) codec \<Rightarrow> ('u, 'i, 'o) server \<Rightarrow> ('u, 'i, 'o) server" where
  "server_new_output_message k s = s\<lparr>s_out_message := out_new k (s_out_workspace_size s)\<rparr>"

text \<open>
  \<open>NAME_server_init_<message>\<close>: a new message, then its \<open>alloc\<close> function, which selects the
  message; \<open>alloc\<close> also stands for the assignments the application makes to the fields.
\<close>

definition server_init_message ::
    "('i, 'o) codec \<Rightarrow> ('o \<Rightarrow> 'o) \<Rightarrow> ('u, 'i, 'o) server \<Rightarrow> ('u, 'i, 'o) server" where
  "server_init_message k alloc s =
     (let s1 = server_new_output_message k s
      in case s_out_message s1 of
           None \<Rightarrow> s1\<lparr>s_fault := True\<rparr>
         | Some m \<Rightarrow> s1\<lparr>s_out_message := Some (alloc m)\<rparr>)"

text \<open>\<open>encode_user_message\<close>: the length of the frame in the output buffer, or \<open>None\<close> for an error.\<close>

definition sv_encode_user_message ::
    "('i, 'o) codec \<Rightarrow> ('u, 'i, 'o) server \<Rightarrow> nat option \<times> ('u, 'i, 'o) server" where
  "sv_encode_user_message k s =
     (case out_encode k (s_out_message s) (size_sub (s_out_size s) header_sizeof) of
        None \<Rightarrow> (None, s)
      | Some payload \<Rightarrow>
          (let payload_size = length payload;
               buf1 = buf_write header_sizeof payload (s_out_buf s);
               header = (header_at buf1)\<lparr>header_type := MESSI_MESSAGE_TYPE_SERVER_TO_CLIENT_USER\<rparr>;
               header = messi_header_set_size header (of_nat payload_size)
           in (Some (payload_size + header_sizeof),
               s\<lparr>s_out_buf := buf_write 0 (header_bytes header) buf1,
                 s_fault := (s_fault s \<or> length (s_out_buf s) < header_sizeof + payload_size)\<rparr>)))"

definition server_send :: "('i, 'o) codec \<Rightarrow> nat \<Rightarrow> ('u, 'i, 'o) server \<Rightarrow> ('u, 'i, 'o) server" where
  "server_send k i s =
     (case sv_encode_user_message k s of
        (None, s1) \<Rightarrow> s1
      | (Some res, s1) \<Rightarrow> sv_client_write i (take res (s_out_buf s1)) s1)"

definition server_reply :: "('i, 'o) codec \<Rightarrow> ('u, 'i, 'o) server \<Rightarrow> ('u, 'i, 'o) server" where
  "server_reply k s = (case s_current s of None \<Rightarrow> s | Some i \<Rightarrow> server_send k i s)"

text \<open>The loop of \<open>NAME_server_broadcast\<close>; a list has at most \<open>s_max\<close> elements.\<close>

primrec sv_broadcast_loop :: "nat \<Rightarrow> ptr \<Rightarrow> byte list \<Rightarrow> ('u, 'i, 'o) server \<Rightarrow> ('u, 'i, 'o) server" where
  "sv_broadcast_loop 0 p buf s = (if p = None then s else s\<lparr>s_hang := True\<rparr>)"
| "sv_broadcast_loop (Suc n) p buf s =
     (case p of
        None \<Rightarrow> s
      | Some i \<Rightarrow>
          (let next_client = k_next (s_clients s i)
           in sv_broadcast_loop n next_client buf (sv_client_write i buf s)))"

definition server_broadcast :: "('i, 'o) codec \<Rightarrow> ('u, 'i, 'o) server \<Rightarrow> ('u, 'i, 'o) server" where
  "server_broadcast k s =
     (case sv_encode_user_message k s of
        (None, s1) \<Rightarrow> s1
      | (Some res, s1) \<Rightarrow> sv_broadcast_loop (s_max s1) (s_connected s1) (take res (s_out_buf s1)) s1)"

definition server_disconnect :: "ptr \<Rightarrow> ('u, 'i, 'o) server \<Rightarrow> ('u, 'i, 'o) server" where
  "server_disconnect p s =
     (let p1 = (if p = None then s_current s else p)
      in case p1 of None \<Rightarrow> s | Some i \<Rightarrow> sv_client_pending_disconnect i s)"

fun server_call :: "('i, 'o) codec \<Rightarrow> 'o server_request \<Rightarrow> ('u, 'i, 'o) server \<Rightarrow> ('u, 'i, 'o) server" where
  "server_call k (Prepare_message alloc) s = server_init_message k alloc s"
| "server_call k (Send_to i) s = server_send k i s"
| "server_call k Reply s = server_reply k s"
| "server_call k Broadcast s = server_broadcast k s"
| "server_call k (Disconnect_client p) s = server_disconnect p s"

definition sv_callback ::
    "('i, 'o) codec \<Rightarrow> ('u \<Rightarrow> 'u \<times> 'o server_request list) \<Rightarrow> 'i server_event \<Rightarrow>
     ('u, 'i, 'o) server \<Rightarrow> ('u, 'i, 'o) server" where
  "sv_callback k cb ev s =
     (let (u, calls) = cb (s_app s)
      in fold (server_call k) calls (s\<lparr>s_app := u, s_log := s_log s @ [ev]\<rparr>))"

section \<open>Connecting and disconnecting clients\<close>

text \<open>The loop of \<open>destroy_pending_disconnect_clients\<close>.\<close>

primrec sv_destroy_loop :: "('i, 'o) codec \<Rightarrow> nat \<Rightarrow> ptr \<Rightarrow> ('u, 'i, 'o) server \<Rightarrow> ('u, 'i, 'o) server" where
  "sv_destroy_loop k 0 p s = (if p = None then s else s\<lparr>s_hang := True\<rparr>)"
| "sv_destroy_loop k (Suc n) p s =
     (case p of
        None \<Rightarrow> s
      | Some i \<Rightarrow>
          (let s1 = sv_close_fd (k_timer (s_clients s i)) s;
               s2 = sv_upd i (\<lambda>c. c\<lparr>k_timer := - 1\<rparr>) s1;
               s3 = sv_callback k (s_on_client_disconnected s2 i) (Client_disconnected i) s2;
               next_client = k_next (s_clients s3 i)
           in sv_destroy_loop k n next_client (sv_free_pending_disconnect_client i s3)))"

definition sv_destroy_pending_disconnect_clients ::
    "('i, 'o) codec \<Rightarrow> ('u, 'i, 'o) server \<Rightarrow> ('u, 'i, 'o) server" where
  "sv_destroy_pending_disconnect_clients k s = sv_destroy_loop k (s_max s) (s_pending s) s"

text \<open>\<open>out1\<close> closes the socket, \<open>out2\<close> frees the client before that.\<close>

definition sv_process_listener_out1 :: "fd \<Rightarrow> ('u, 'i, 'o) server \<Rightarrow> ('u, 'i, 'o) server" where
  "sv_process_listener_out1 client_fd s = sv_close client_fd s"

definition sv_process_listener_out2 ::
    "nat \<Rightarrow> fd \<Rightarrow> ('u, 'i, 'o) server \<Rightarrow> ('u, 'i, 'o) server" where
  "sv_process_listener_out2 i client_fd s =
     sv_process_listener_out1 client_fd (sv_free_connected_client i s)"

definition sv_process_listener ::
    "('i, 'o) codec \<Rightarrow> ('u, 'i, 'o) server \<Rightarrow> ('u, 'i, 'o) server" where
  "sv_process_listener k s =
     (let (client_fd, os) = sys_accept (s_listener_fd s) (s_sys s); s = s\<lparr>s_sys := os\<rparr>
      in if client_fd = - 1 then s
         else
      let (res, os) = messi_make_non_blocking client_fd (s_sys s); s = s\<lparr>s_sys := os\<rparr>
      in if res = - 1 then sv_process_listener_out1 client_fd s
         else
      let (res, os) = sys_setsockopt client_fd (s_sys s); s = s\<lparr>s_sys := os\<rparr>
      in if res \<noteq> 0 then sv_process_listener_out1 client_fd s
         else
      case sv_alloc_client s of
        (None, s) \<Rightarrow> sv_process_listener_out1 client_fd s
      | (Some i, s) \<Rightarrow>
          (let (res, s) = sv_client_init i client_fd s
           in if res \<noteq> 0 then sv_process_listener_out2 i client_fd s
              else sv_callback k (s_on_client_connected s i) (Client_connected i) s))"

section \<open>Messages from a client\<close>

definition sv_handle_message_user ::
    "('i, 'o) codec \<Rightarrow> nat \<Rightarrow> ('u, 'i, 'o) server \<Rightarrow> int \<times> ('u, 'i, 'o) server" where
  "sv_handle_message_user k i s =
     (let s1 = s\<lparr>s_in_message := in_new k (s_in_workspace_size s)\<rparr>
      in case s_in_message s1 of
           None \<Rightarrow> (- 1, s1)
         | Some message \<Rightarrow>
             (let input = k_input (s_clients s1 i);
                  payload_size = i_size input - header_sizeof;
                  payload = take payload_size (drop header_sizeof (i_buf input));
                  (res, message) = in_decode k message payload;
                  s2 = s1\<lparr>s_in_message := Some message\<rparr>
              in if res \<noteq> int payload_size then (- 1, s2)
                 else
                   (let s3 = s2\<lparr>s_current := Some i\<rparr>;
                        s4 = (case s_on_message s3 (in_choice k message) of
                                None \<Rightarrow> s3
                              | Some cb \<Rightarrow>
                                  sv_callback k (cb i message)
                                    (Client_message i (in_choice k message) message) s3)
                    in (0, s4\<lparr>s_current := None\<rparr>))))"

definition sv_handle_message_ping ::
    "nat \<Rightarrow> ('u, 'i, 'o) server \<Rightarrow> int \<times> ('u, 'i, 'o) server" where
  "sv_handle_message_ping i s =
     (let (res, s1) = sv_client_start_keep_alive_timer i s
      in if res \<noteq> 0 then (res, s1)
         else
           (let header = (header_at (replicate 4 0))\<lparr>header_type := MESSI_MESSAGE_TYPE_PONG\<rparr>;
                header = messi_header_set_size header 0
            in (0, sv_client_write i (header_bytes header) s1)))"

definition sv_handle_message ::
    "('i, 'o) codec \<Rightarrow> nat \<Rightarrow> byte \<Rightarrow> ('u, 'i, 'o) server \<Rightarrow> int \<times> ('u, 'i, 'o) server" where
  "sv_handle_message k i ty s =
     (if ty = MESSI_MESSAGE_TYPE_CLIENT_TO_SERVER_USER then sv_handle_message_user k i s
      else if ty = MESSI_MESSAGE_TYPE_PING then sv_handle_message_ping i s
      else (- 1, s))"

section \<open>Events\<close>

text \<open>
  The loop of \<open>process_client_socket_out\<close>, with the item it stops at. Every round frees an item
  or uses up a result of \<open>write\<close> that is less than everything.
\<close>

primrec sv_write_items ::
    "nat \<Rightarrow> nat \<Rightarrow> ptr \<Rightarrow> ('u, 'i, 'o) server \<Rightarrow> ptr \<times> ('u, 'i, 'o) server" where
  "sv_write_items i 0 p s = (p, if p = None then s else s\<lparr>s_hang := True\<rparr>)"
| "sv_write_items i (Suc n) p s =
     (case p of
        None \<Rightarrow> (None, s)
      | Some a \<Rightarrow>
          (case s_heap s a of
             None \<Rightarrow> (p, s\<lparr>s_fault := True\<rparr>)
           | Some it \<Rightarrow>
               (let (res, os) = sys_write (k_fd (s_clients s i))
                      (take (it_size it) (drop (it_offset it) (it_data it))) (s_sys s);
                    s1 = s\<lparr>s_sys := os\<rparr>
                in case res of
                     Inr m \<Rightarrow>
                       if m = it_size it then sv_write_items i n (it_next it) (sv_free_item a s1)
                       else if m > 0
                       then sv_write_items i n p
                              (s1\<lparr>s_heap := (s_heap s1)
                                 (a \<mapsto> it\<lparr>it_offset := it_offset it + m, it_size := it_size it - m\<rparr>)\<rparr>)
                       else (p, sv_client_pending_disconnect i s1)
                   | Inl e \<Rightarrow>
                       if e = EAGAIN then (p, s1)
                       else (p, sv_client_pending_disconnect i s1))))"

definition sv_process_client_socket_out :: "nat \<Rightarrow> ('u, 'i, 'o) server \<Rightarrow> ('u, 'i, 'o) server" where
  "sv_process_client_socket_out i s =
     (let (p, s1) = sv_write_items i (length (wscript (s_sys s)) + s_brk s) (k_head (s_clients s i)) s;
          s2 = sv_upd i (\<lambda>c. c\<lparr>k_head := p\<rparr>) s1
      in if p = None then sv_epoll_ctl_mod (k_fd (s_clients s2 i)) EPOLLIN s2 else s2)"

text \<open>\<open>process_client_socket_in\<close>: the loop reads until there is nothing to read.\<close>

definition sv_set_input :: "nat \<Rightarrow> input \<Rightarrow> ('u, 'i, 'o) server \<Rightarrow> ('u, 'i, 'o) server" where
  "sv_set_input i inp s = sv_upd i (\<lambda>c. c\<lparr>k_input := inp\<rparr>) s"

function sv_process_client_socket_in ::
    "('i, 'o) codec \<Rightarrow> nat \<Rightarrow> arrival list \<Rightarrow> ('u, 'i, 'o) server \<Rightarrow> ('u, 'i, 'o) server" where
  "sv_process_client_socket_in k i as s =
     (case sys_read (k_fd (s_clients s i)) (i_left (k_input (s_clients s i))) as (s_sys s) of
        (Inl e, as') \<Rightarrow>
          if e = EAGAIN then s else sv_client_pending_disconnect i s
      | (Inr bs, as') \<Rightarrow>
          if bs = [] then sv_client_pending_disconnect i s
          else
            (let inp1 = input_read bs (k_input (s_clients s i)); s1 = sv_set_input i inp1 s
             in if i_left inp1 > 0 then sv_process_client_socket_in k i as' s1
                else
                  (case (if i_state inp1 = Header
                         then
                           (let inp2 = inp1\<lparr>i_left := unat (messi_header_get_size (input_header inp1))\<rparr>
                            in if i_left inp2 + header_sizeof > i_cap inp2
                               then (False, inp2, sv_client_pending_disconnect i (sv_set_input i inp2 s1))
                               else (let inp3 = inp2\<lparr>i_state := Payload\<rparr>
                                     in (True, inp3, sv_set_input i inp3 s1)))
                         else (True, inp1, s1)) of
                     (False, inp4, s2) \<Rightarrow> s2
                   | (True, inp4, s2) \<Rightarrow>
                       if i_left inp4 = 0
                       then
                         (let (res, s3) = sv_handle_message k i (header_type (input_header inp4)) s2
                          in if res = 0
                             then sv_process_client_socket_in k i as' (sv_client_reset_input i s3)
                             else sv_client_pending_disconnect i s3)
                       else sv_process_client_socket_in k i as' s2)))"
  by pat_completeness auto
termination
  by (relation "measure (\<lambda>(k, i, as, s). arrivals_size as)") (auto intro: sys_read_decreases [OF sym])

declare sv_process_client_socket_in.simps [simp del]

definition sv_process_client_socket ::
    "('i, 'o) codec \<Rightarrow> nat \<Rightarrow> u32 \<Rightarrow> arrival list \<Rightarrow> ('u, 'i, 'o) server \<Rightarrow> ('u, 'i, 'o) server" where
  "sv_process_client_socket k i events as s =
     (let s1 = (if events AND EPOLLOUT \<noteq> 0 then sv_process_client_socket_out i s else s)
      in if events AND EPOLLIN \<noteq> 0 then sv_process_client_socket_in k i as s1 else s1)"

definition sv_process_client_keep_alive_timer :: "nat \<Rightarrow> ('u, 'i, 'o) server \<Rightarrow> ('u, 'i, 'o) server" where
  "sv_process_client_keep_alive_timer i s = sv_client_pending_disconnect i s"

section \<open>The public functions\<close>

definition sv_on_client_default :: "nat \<Rightarrow> 'u \<Rightarrow> 'u \<times> 'o server_request list" where
  "sv_on_client_default i u = (u, [])"

definition sv_on_message_default :: "nat \<Rightarrow> 'i \<Rightarrow> 'u \<Rightarrow> 'u \<times> 'o server_request list" where
  "sv_on_message_default i m u = (u, [])"

text \<open>
  The input buffer of client \<open>i\<close> is a part of the memory the application provides for all of
  them. The array of clients has \<open>clients_max\<close> elements: the code writes one even if there is
  none.
\<close>

definition sv_init_client ::
    "byte list \<Rightarrow> nat \<Rightarrow> ptr \<Rightarrow> nat \<Rightarrow> (nat \<Rightarrow> sclient) \<Rightarrow> (nat \<Rightarrow> sclient)" where
  "sv_init_client bufs sz nxt i cs =
     cs(i := (cs i)\<lparr>k_next := nxt,
       k_input := (k_input (cs i))\<lparr>i_buf := take sz (drop (i * sz) bufs), i_cap := sz, i_overrun := False\<rparr>\<rparr>)"

definition server_init ::
    "string \<Rightarrow> int \<Rightarrow> byte list \<Rightarrow> nat \<Rightarrow> byte list \<Rightarrow> nat \<Rightarrow> nat \<Rightarrow>
     (nat \<Rightarrow> 'u \<Rightarrow> 'u \<times> 'o server_request list) option \<Rightarrow>
     (nat \<Rightarrow> 'u \<Rightarrow> 'u \<times> 'o server_request list) option \<Rightarrow>
     (nat \<times> (nat \<Rightarrow> 'i \<Rightarrow> 'u \<Rightarrow> 'u \<times> 'o server_request list) option) list \<Rightarrow>
     fd \<Rightarrow> epoll_ctl_fn option \<Rightarrow>
     ('u, 'i, 'o) server \<Rightarrow> int \<times> ('u, 'i, 'o) server" where
  "server_init server_uri clients_max clients_input_bufs client_input_size message_buf
       workspace_in_size workspace_out_size on_client_connected on_client_disconnected on_messages
       epoll_fd epoll_ctl s =
     (let on_message = map_option (\<lambda>cb. case cb of None \<Rightarrow> sv_on_message_default | Some f \<Rightarrow> f)
            \<circ> map_of on_messages;
          on_client_connected =
            (case on_client_connected of None \<Rightarrow> sv_on_client_default | Some f \<Rightarrow> f);
          on_client_disconnected =
            (case on_client_disconnected of None \<Rightarrow> sv_on_client_default | Some f \<Rightarrow> f);
          epoll_ctl = (case epoll_ctl of None \<Rightarrow> Epoll_default | Some f \<Rightarrow> f)
      in case messi_parse_tcp_uri server_uri 16 of
           None \<Rightarrow> (- 1, s)
         | Some (address, prt) \<Rightarrow>
             (let last = nat (clients_max - 1);
                  cs = fold (\<lambda>i. sv_init_client clients_input_bufs client_input_size (Some (i + 1)) i)
                         [0..<last] (s_clients s);
                  cs = sv_init_client clients_input_bufs client_input_size None last cs
              in (0, s\<lparr>s_address := address, s_port := prt, s_on_message := on_message,
                       s_epoll_fd := epoll_fd, s_epoll_ctl := epoll_ctl, s_free := Some 0,
                       s_input_buffer_size := client_input_size, s_clients := cs,
                       s_connected := None, s_pending := None,
                       s_in_workspace_size := workspace_in_size,
                       s_out_buf := message_buf, s_out_size := length message_buf,
                       s_out_workspace_size := workspace_out_size,
                       s_on_client_connected := on_client_connected,
                       s_on_client_disconnected := on_client_disconnected, s_current := None,
                       s_max := nat clients_max, s_fault := (clients_max < 1), s_hang := False\<rparr>)))"

definition sv_start_out :: "fd \<Rightarrow> ('u, 'i, 'o) server \<Rightarrow> int \<times> ('u, 'i, 'o) server" where
  "sv_start_out listener_fd s = (- 1, sv_close listener_fd s)"

definition sv_sin_port :: "int \<Rightarrow> u16" where
  "sv_sin_port prt = word_of_int prt"

definition server_start :: "('u, 'i, 'o) server \<Rightarrow> int \<times> ('u, 'i, 'o) server" where
  "server_start s =
     (let (listener_fd, os) = sys_socket (s_sys s); s = s\<lparr>s_sys := os\<rparr>
      in if listener_fd = - 1 then (1, s)
         else
      let (res, os) = sys_setsockopt listener_fd (s_sys s); s = s\<lparr>s_sys := os\<rparr>
      in if res \<noteq> 0 then sv_start_out listener_fd s
         else
      case (if s_address s \<noteq> [] then aton (s_sys s) (s_address s) else Some 0) of
        None \<Rightarrow> sv_start_out listener_fd s
      | Some s_addr \<Rightarrow>
      let (res, os) = sys_bind listener_fd s_addr (sv_sin_port (s_port s)) (s_sys s); s = s\<lparr>s_sys := os\<rparr>
      in if res = - 1 then sv_start_out listener_fd s
         else
      let (res, os) = sys_listen listener_fd (s_sys s); s = s\<lparr>s_sys := os\<rparr>
      in if res = - 1 then sv_start_out listener_fd s
         else
      let (res, os) = messi_make_non_blocking listener_fd (s_sys s); s = s\<lparr>s_sys := os\<rparr>
      in if res = - 1 then sv_start_out listener_fd s
         else
      let (res, s) = sv_epoll_ctl_add listener_fd s
      in if res = - 1 then sv_start_out listener_fd s
         else (0, s\<lparr>s_listener_fd := listener_fd\<rparr>))"

text \<open>\<open>NAME_server_stop\<close>: the clients go back to the free list.\<close>

primrec sv_stop_loop :: "nat \<Rightarrow> ptr \<Rightarrow> ('u, 'i, 'o) server \<Rightarrow> ('u, 'i, 'o) server" where
  "sv_stop_loop 0 p s = (if p = None then s else s\<lparr>s_hang := True\<rparr>)"
| "sv_stop_loop (Suc n) p s =
     (case p of
        None \<Rightarrow> s
      | Some i \<Rightarrow>
          (let s1 = sv_close_fd (k_fd (s_clients s i)) s;
               s2 = sv_close_fd (k_timer (s_clients s1 i)) s1;
               s3 = sv_free_client_output i s2;
               next_client = k_next (s_clients s3 i);
               s4 = sv_upd i (\<lambda>c. c\<lparr>k_next := s_free s3\<rparr>) s3
           in sv_stop_loop n next_client (s4\<lparr>s_free := Some i\<rparr>)))"

definition server_stop :: "('u, 'i, 'o) server \<Rightarrow> ('u, 'i, 'o) server" where
  "server_stop s =
     (let s1 = sv_close_fd (s_listener_fd s) s
      in sv_stop_loop (s_max s1) (s_connected s1) s1)"

text \<open>The search of \<open>NAME_server_process\<close> for the client of a descriptor.\<close>

primrec sv_find_client :: "fd \<Rightarrow> nat \<Rightarrow> ptr \<Rightarrow> ('u, 'i, 'o) server \<Rightarrow> ptr option" where
  "sv_find_client d 0 p s = (if p = None then Some None else None)"
| "sv_find_client d (Suc n) p s =
     (case p of
        None \<Rightarrow> Some None
      | Some i \<Rightarrow>
          if d = k_fd (s_clients s i) \<or> d = k_timer (s_clients s i) then Some (Some i)
          else sv_find_client d n (k_next (s_clients s i)) s)"

definition server_process ::
    "('i, 'o) codec \<Rightarrow> fd \<Rightarrow> u32 \<Rightarrow> arrival list \<Rightarrow> ('u, 'i, 'o) server \<Rightarrow> ('u, 'i, 'o) server" where
  "server_process k d events as s =
     (let s1 =
        (if d = s_listener_fd s then sv_process_listener k s
         else case sv_find_client d (s_max s) (s_connected s) s of
             None \<Rightarrow> s\<lparr>s_hang := True\<rparr>
           | Some None \<Rightarrow> s
           | Some (Some i) \<Rightarrow>
               if d = k_fd (s_clients s i) then sv_process_client_socket k i events as s
               else sv_process_client_keep_alive_timer i s)
      in sv_destroy_pending_disconnect_clients k s1)"

end
