(* ===== verification/LinuxServerLists.thy ===== *)
theory LinuxServerLists
  imports LinuxServer
begin

text \<open>
  The clients of a server are kept in three linked lists: connected, waiting for the end of
  their disconnection, and free. Here the pointers are related to the lists they stand for, and
  it is shown that the operations move a client from one list to another. What the rest of the
  server relies on is the interface \<open>client_pool\<close>.
\<close>

section \<open>Paths\<close>

fun lpath :: "(nat \<Rightarrow> ptr) \<Rightarrow> ptr \<Rightarrow> nat list \<Rightarrow> ptr \<Rightarrow> bool" where
  "lpath nxt p [] q \<longleftrightarrow> p = q"
| "lpath nxt p (x # xs) q \<longleftrightarrow> p = Some x \<and> lpath nxt (nxt x) xs q"

lemma lseg_append: "lseg nxt p (xs @ ys) \<longleftrightarrow> (\<exists>q. lpath nxt p xs q \<and> lseg nxt q ys)"
  by (induction xs arbitrary: p) auto

lemma lpath_snoc: "lpath nxt p (xs @ [x]) q \<longleftrightarrow> lpath nxt p xs (Some x) \<and> q = nxt x"
  by (induction xs arbitrary: p) auto

lemma lpath_upd [simp]: "x \<notin> set xs \<Longrightarrow> lpath (nxt(x := r)) p xs q \<longleftrightarrow> lpath nxt p xs q"
  by (induction xs arbitrary: p) auto

text \<open>An element is taken out by making its predecessor point to its successor.\<close>

lemma lseg_skip:
  assumes "lseg nxt p (us @ u # i # vs)" "distinct (us @ u # i # vs)"
  shows "lseg (nxt(u := nxt i)) p (us @ u # vs)"
  using assms by (auto simp: lseg_append)

text \<open>The \<open>prev_p\<close> fields of a list.\<close>

definition prevs_ok :: "(nat \<Rightarrow> ptr) \<Rightarrow> nat list \<Rightarrow> bool" where
  "prevs_ok prv xs \<longleftrightarrow> (\<forall>(a, b) \<in> set (pairs xs). prv b = Some a)"

lemma prevs_ok_simps [simp]: "prevs_ok prv []" "prevs_ok prv [x]"
  "prevs_ok prv (x # y # xs) \<longleftrightarrow> prv y = Some x \<and> prevs_ok prv (y # xs)"
  by (auto simp: prevs_ok_def)

lemma prevs_ok_append:
  "prevs_ok prv (us @ u # v # vs) \<longleftrightarrow> prevs_ok prv (us @ [u]) \<and> prv v = Some u \<and> prevs_ok prv (v # vs)"
  by (auto simp: prevs_ok_def pairs_append [of "us @ [u]" "v # vs", simplified])

lemma prevs_ok_upd:
  "x \<notin> set (tl xs) \<Longrightarrow> prevs_ok (prv(x := p)) xs \<longleftrightarrow> prevs_ok prv xs"
  unfolding prevs_ok_def by (auto dest: pairs_snd_in_tl)

lemma prevs_ok_tl: "prevs_ok prv (x # xs) \<Longrightarrow> prevs_ok prv xs"
  by (cases xs) auto

lemma prevs_ok_cong: "(\<And>x. x \<in> set (tl xs) \<Longrightarrow> f x = g x) \<Longrightarrow> prevs_ok f xs \<longleftrightarrow> prevs_ok g xs"
  unfolding prevs_ok_def by (intro ball_cong) (auto dest: pairs_snd_in_tl)

lemma prevs_ok_skip:
  assumes "prevs_ok prv (us @ u # i # v # vs)" "distinct (us @ u # i # v # vs)"
  shows "prevs_ok (prv(v := prv i)) (us @ u # v # vs)"
proof -
  have "prevs_ok prv (us @ [u])" "prv i = Some u" "prevs_ok prv (v # vs)"
    using assms(1) by (auto simp: prevs_ok_append)
  moreover have "v \<notin> set (tl (us @ [u]))"
    using assms(2) by (cases us) auto
  ultimately show ?thesis
    using assms(2) by (simp add: prevs_ok_append prevs_ok_upd)
qed

section \<open>The lists of a server\<close>

abbreviation nxt :: "('u, 'i, 'o) server \<Rightarrow> nat \<Rightarrow> ptr" where
  "nxt s i \<equiv> k_next (s_clients s i)"

abbreviation prv :: "('u, 'i, 'o) server \<Rightarrow> nat \<Rightarrow> ptr" where
  "prv s i \<equiv> k_prev (s_clients s i)"

text \<open>
  \<open>cs\<close> are the connected clients, \<open>ps\<close> those whose disconnection is pending and \<open>fs\<close> the free
  ones. The \<open>prev_p\<close> fields are only kept up to date in the first list.
\<close>

definition sv_lists :: "('u, 'i, 'o) server \<Rightarrow> nat list \<Rightarrow> nat list \<Rightarrow> nat list \<Rightarrow> bool" where
  "sv_lists s cs ps fs \<longleftrightarrow>
     lseg (nxt s) (s_connected s) cs \<and> lseg (nxt s) (s_pending s) ps \<and> lseg (nxt s) (s_free s) fs \<and>
     distinct (cs @ ps @ fs) \<and> set (cs @ ps @ fs) = {0..<s_max s} \<and> prevs_ok (prv s) cs"

lemma sv_upd_simps [simp]:
  "s_clients (sv_upd i f s) = (s_clients s)(i := f (s_clients s i))"
  "s_connected (sv_upd i f s) = s_connected s" "s_pending (sv_upd i f s) = s_pending s"
  "s_free (sv_upd i f s) = s_free s" "s_max (sv_upd i f s) = s_max s"
  "s_sys (sv_upd i f s) = s_sys s" "s_fault (sv_upd i f s) = s_fault s"
  "s_hang (sv_upd i f s) = s_hang s" "s_log (sv_upd i f s) = s_log s"
  "s_heap (sv_upd i f s) = s_heap s" "s_brk (sv_upd i f s) = s_brk s"
  "s_app (sv_upd i f s) = s_app s" "s_current (sv_upd i f s) = s_current s"
  "s_listener_fd (sv_upd i f s) = s_listener_fd s" "s_epoll_ctl (sv_upd i f s) = s_epoll_ctl s"
  "s_on_message (sv_upd i f s) = s_on_message s"
  "s_on_client_connected (sv_upd i f s) = s_on_client_connected s"
  "s_on_client_disconnected (sv_upd i f s) = s_on_client_disconnected s"
  "s_in_workspace_size (sv_upd i f s) = s_in_workspace_size s"
  "s_out_buf (sv_upd i f s) = s_out_buf s" "s_out_size (sv_upd i f s) = s_out_size s"
  "s_out_message (sv_upd i f s) = s_out_message s"
  "s_out_workspace_size (sv_upd i f s) = s_out_workspace_size s"
  "s_epoll_fd (sv_upd i f s) = s_epoll_fd s"
  by (simp_all add: sv_upd_def)

lemma alloc_client_lists:
  assumes "sv_lists s cs ps (i # fs)"
  shows "fst (sv_alloc_client s) = Some i" and "sv_lists (snd (sv_alloc_client s)) (i # cs) ps fs"
proof -
  have f: "s_free s = Some i" "lseg (nxt s) (nxt s i) fs"
    and i: "i \<notin> set cs" "i \<notin> set ps" "i \<notin> set fs"
    using assms by (auto simp: sv_lists_def)
  show "fst (sv_alloc_client s) = Some i"
    by (simp add: sv_alloc_client_def f Let_def)
  define s' where "s' = snd (sv_alloc_client s)"
  have n: "nxt s' = (nxt s)(i := s_connected s)"
    by (auto simp: s'_def sv_alloc_client_def f Let_def split: option.split)
  have p: "prv s' = (case cs of [] \<Rightarrow> prv s | c # _ \<Rightarrow> (prv s)(c := Some i))"
    using assms by (cases cs) (auto simp: s'_def sv_alloc_client_def f Let_def sv_lists_def)
  have h: "s_connected s' = Some i" "s_pending s' = s_pending s" "s_free s' = nxt s i" "s_max s' = s_max s"
    by (auto simp: s'_def sv_alloc_client_def f Let_def split: option.split)
  have "prevs_ok (prv s') (i # cs)"
    using assms i by (cases cs) (auto simp: p sv_lists_def prevs_ok_upd)
  then show "sv_lists (snd (sv_alloc_client s)) (i # cs) ps fs"
    using assms i f unfolding s'_def [symmetric] by (auto simp: sv_lists_def n h)
qed

lemma alloc_client_none:
  assumes "sv_lists s cs ps []"
  shows "sv_alloc_client s = (None, s)"
  using assms by (simp add: sv_lists_def sv_alloc_client_def)

text \<open>Taking a client out of a list whose \<open>prev_p\<close> fields are in order, or the first of any list.\<close>

lemma remove_client_effect:
  assumes "lseg (nxt s) l (us @ i # vs)" "distinct (us @ i # vs)" "prevs_ok (prv s) (us @ i # vs) \<or> us = []"
    "sv_remove_client_from_list l i s = (l', s')"
  shows "l' = (if us = [] then nxt s i else l) \<and>
    nxt s' = (if us = [] then nxt s else (nxt s)(last us := nxt s i)) \<and>
    prv s' = (case vs of [] \<Rightarrow> prv s | v # _ \<Rightarrow> (prv s)(v := prv s i)) \<and>
    s' = s\<lparr>s_clients := s_clients s'\<rparr> \<and>
    (\<forall>j. s_clients s' j = (s_clients s j)\<lparr>k_next := nxt s' j, k_prev := prv s' j\<rparr>)"
proof -
  have vs: "nxt s i = (case vs of [] \<Rightarrow> None | v # _ \<Rightarrow> Some v)"
    using assms(1) by (cases vs) (auto simp: lseg_append)
  show ?thesis
  proof (cases us rule: rev_cases)
    case Nil
    then have "l = Some i" using assms(1) by simp
    then show ?thesis
      using assms(4) Nil vs by (auto simp: sv_remove_client_from_list_def sv_upd_def fun_eq_iff split: list.splits)
  next
    case (snoc us0 u)
    have "l \<noteq> Some i"
      using assms(1,2) snoc by (cases us0) auto
    moreover have "prv s i = Some u" "u \<noteq> i"
      using assms(2,3) snoc by (auto simp: prevs_ok_append)
    ultimately show ?thesis
      using assms(4) snoc vs
      by (auto simp: sv_remove_client_from_list_def sv_upd_def fun_eq_iff split: list.splits)
  qed
qed

lemma remove_client:
  assumes "lseg (nxt s) l xs" "distinct xs" "i \<in> set xs" "prevs_ok (prv s) xs \<or> l = Some i"
    "sv_remove_client_from_list l i s = (l', s')"
  shows "lseg (nxt s') l' (remove1 i xs)"
    and "prevs_ok (prv s) xs \<Longrightarrow> prevs_ok (prv s') (remove1 i xs)"
    and "\<And>j. j \<notin> set xs \<or> j = i \<Longrightarrow> nxt s' j = nxt s j"
    and "\<And>j. j \<notin> set xs \<Longrightarrow> prv s' j = prv s j"
    and "s' = s\<lparr>s_clients := s_clients s'\<rparr>"
    and "\<And>j. s_clients s' j = (s_clients s j)\<lparr>k_next := nxt s' j, k_prev := prv s' j\<rparr>"
    and "\<And>m ys. set xs \<inter> set ys = {} \<Longrightarrow> lseg (nxt s') m ys = lseg (nxt s) m ys"
proof -
  obtain us vs where xs: "xs = us @ i # vs" using assms(3) by (metis split_list)
  have i: "i \<notin> set us" "i \<notin> set vs" using assms(2) xs by auto
  have rm: "remove1 i xs = us @ vs" using i by (simp add: xs remove1_append)
  have "l = Some i \<Longrightarrow> us = []" using assms(1) i by (cases us) (auto simp: xs)
  then have e: "l' = (if us = [] then nxt s i else l)"
      "nxt s' = (if us = [] then nxt s else (nxt s)(last us := nxt s i))"
      "prv s' = (case vs of [] \<Rightarrow> prv s | v # _ \<Rightarrow> (prv s)(v := prv s i))"
      "s' = s\<lparr>s_clients := s_clients s'\<rparr>"
      "\<forall>j. s_clients s' j = (s_clients s j)\<lparr>k_next := nxt s' j, k_prev := prv s' j\<rparr>"
    using remove_client_effect [OF _ _ _ assms(5), of us vs] assms(1,2,4) by (auto simp: xs)
  show "lseg (nxt s') l' (remove1 i xs)"
  proof (cases us rule: rev_cases)
    case Nil
    then show ?thesis using assms(1) e(1,2) by (simp add: rm xs)
  next
    case (snoc us0 u)
    then show ?thesis
      using lseg_skip [of "nxt s" l us0 u i vs] assms(1,2) e(1,2) unfolding rm by (simp add: xs)
  qed
  show "prevs_ok (prv s') (remove1 i xs)" if "prevs_ok (prv s) xs"
  proof (cases us rule: rev_cases)
    case Nil
    then show ?thesis
      using that assms(2) e(3) by (cases vs) (auto simp: rm xs prevs_ok_upd)
  next
    case (snoc us0 u)
    then show ?thesis
      using that assms(2) e(3) prevs_ok_skip [of "prv s" us0 u i]
      unfolding rm by (cases vs) (auto simp: xs prevs_ok_append)
  qed
  show other: "nxt s' j = nxt s j" if "j \<notin> set xs \<or> j = i" for j
    using that i fun_cong [OF e(2), of j] by (auto simp: xs split: if_splits)
  show "lseg (nxt s') m ys = lseg (nxt s) m ys" if "set xs \<inter> set ys = {}" for m ys
    using that by (intro lseg_cong other) auto
  show "prv s' j = prv s j" if "j \<notin> set xs" for j
    using that fun_cong [OF e(3), of j] by (auto simp: xs split: list.splits)
  show "s' = s\<lparr>s_clients := s_clients s'\<rparr>" by (rule e(4))
  show "s_clients s' j = (s_clients s j)\<lparr>k_next := nxt s' j, k_prev := prv s' j\<rparr>" for j
    using e(5) by blast
qed

section \<open>Moving clients between the lists\<close>

lemma sv_lists_cong:
  assumes "nxt s' = nxt s" "prv s' = prv s" "s_connected s' = s_connected s"
    "s_pending s' = s_pending s" "s_free s' = s_free s" "s_max s' = s_max s"
  shows "sv_lists s' cs ps fs = sv_lists s cs ps fs"
  using assms by (simp add: sv_lists_def)

text \<open>A connected client \<open>i\<close> has been taken out of its list and points to the head of another list.\<close>

lemma take_connected:
  assumes "sv_lists s cs ps fs" "i \<in> set cs" "sv_remove_client_from_list (s_connected s) i s = (l', s1)"
    "s2 = sv_upd i (\<lambda>c. c\<lparr>k_next := q\<rparr>) (s1\<lparr>s_connected := l'\<rparr>)"
  shows "lseg (nxt s2) l' (remove1 i cs)" "lseg (nxt s2) (s_pending s) ps" "lseg (nxt s2) (s_free s) fs"
    "prevs_ok (prv s2) (remove1 i cs)" "nxt s2 i = q" "s_connected s2 = l'"
    "s_pending s1 = s_pending s" "s_free s1 = s_free s" "s_pending s2 = s_pending s"
    "s_free s2 = s_free s" "s_max s2 = s_max s"
proof -
  have s: "lseg (nxt s) (s_connected s) cs" "lseg (nxt s) (s_pending s) ps" "lseg (nxt s) (s_free s) fs"
    "distinct (cs @ ps @ fs)" "prevs_ok (prv s) cs" "distinct cs"
    using assms(1) by (auto simp: sv_lists_def)
  note r = remove_client [OF s(1,6) assms(2) disjI1 [OF s(5)] assms(3)]
  have i: "i \<notin> set ps" "i \<notin> set fs" "i \<notin> set (remove1 i cs)" using s(4) assms(2) by auto
  have n: "nxt s2 = (nxt s1)(i := q)" "prv s2 = prv s1" by (auto simp: assms(4) fun_eq_iff)
  have "set cs \<inter> set ps = {}" "set cs \<inter> set fs = {}" using s(4) by auto
  then show "lseg (nxt s2) (s_pending s) ps" "lseg (nxt s2) (s_free s) fs"
    using s(2,3) r(7) i by (simp_all add: n)
  show "lseg (nxt s2) l' (remove1 i cs)" using r(1) i by (simp add: n)
  show "prevs_ok (prv s2) (remove1 i cs)" using r(2) s(5) by (simp add: n)
  show "nxt s2 i = q" "s_connected s2 = l'" by (simp_all add: assms(4))
  show "s_pending s1 = s_pending s" "s_free s1 = s_free s" by (subst r(5), simp)+
  then show "s_pending s2 = s_pending s" "s_free s2 = s_free s" by (simp_all add: assms(4))
  have "s_max s1 = s_max s" by (subst r(5)) simp
  then show "s_max s2 = s_max s" by (simp add: assms(4))
qed

lemma move_client_lists:
  assumes "sv_lists s cs ps fs" "i \<in> set cs"
  shows "sv_lists (sv_move_client_to_pending_disconnect_list i s) (remove1 i cs) (i # ps) fs"
proof -
  obtain l' s1 where rm: "sv_remove_client_from_list (s_connected s) i s = (l', s1)" by fastforce
  note t = take_connected [OF assms rm, of _ "s_pending s1", OF refl]
  show ?thesis
    using t assms by (auto simp: sv_move_client_to_pending_disconnect_list_def rm sv_lists_def
        Let_def set_remove1_eq distinct_remove1)
qed

lemma free_connected_client_lists:
  assumes "sv_lists s cs ps fs" "i \<in> set cs"
  shows "sv_lists (sv_free_connected_client i s) (remove1 i cs) ps (i # fs)"
proof -
  obtain l' s1 where rm: "sv_remove_client_from_list (s_connected s) i s = (l', s1)" by fastforce
  note t = take_connected [OF assms rm, of _ "s_free s1", OF refl]
  show ?thesis
    using t assms by (auto simp: sv_free_connected_client_def rm sv_lists_def
        Let_def set_remove1_eq distinct_remove1)
qed

lemma free_pending_client_lists:
  assumes "sv_lists s cs (i # ps) fs"
  shows "sv_lists (sv_free_pending_disconnect_client i s) cs ps (i # fs)"
proof -
  obtain l' s1 where rm: "sv_remove_client_from_list (s_pending s) i s = (l', s1)" by fastforce
  have s: "lseg (nxt s) (s_connected s) cs" "lseg (nxt s) (s_pending s) (i # ps)" "lseg (nxt s) (s_free s) fs"
    "distinct (cs @ i # ps @ fs)" "prevs_ok (prv s) cs" "distinct (i # ps)"
    using assms(1) by (auto simp: sv_lists_def)
  have "s_pending s = Some i" using s(2) by simp
  note r = remove_client [OF s(2,6) _ disjI2 [OF this] rm, simplified]
  have heads: "s_connected s1 = s_connected s" "s_free s1 = s_free s" "s_max s1 = s_max s"
    by (subst r(5), simp)+
  have i: "i \<notin> set cs" "i \<notin> set fs" "i \<notin> set ps" using s(4) by auto
  have "prevs_ok (prv s1) cs"
  proof (subst prevs_ok_cong [of cs _ "prv s"])
    fix x
    assume "x \<in> set (tl cs)"
    then have "x \<in> set cs" by (cases cs) auto
    then show "prv s1 x = prv s x" using s(4) r(4) [of x] by auto
  qed (rule s(5))
  moreover define s2 where "s2 = sv_upd i (\<lambda>c. c\<lparr>k_next := s_free s1\<rparr>) (s1\<lparr>s_pending := l'\<rparr>)"
  moreover have "nxt s2 = (nxt s1)(i := s_free s)" "prv s2 = prv s1"
    by (auto simp: s2_def heads fun_eq_iff)
  moreover have "set ps \<inter> set cs = {}" "set ps \<inter> set fs = {}" using s(4) by auto
  moreover have "s_connected s2 = s_connected s" "s_pending s2 = l'" "s_max s2 = s_max s"
    by (simp_all add: s2_def heads)
  ultimately have "sv_lists (s2\<lparr>s_free := Some i\<rparr>) cs ps (i # fs)"
    using r(1,7) i s assms by (auto simp: sv_lists_def)
  then show ?thesis
    by (simp add: sv_free_pending_disconnect_client_def rm s2_def)
qed

section \<open>What the list operations leave alone\<close>

definition links_only :: "('u, 'i, 'o) server \<Rightarrow> ('u, 'i, 'o) server \<Rightarrow> bool" where
  "links_only s s' \<longleftrightarrow>
     s' = s\<lparr>s_clients := s_clients s', s_connected := s_connected s', s_pending := s_pending s',
            s_free := s_free s'\<rparr> \<and>
     (\<forall>j. s_clients s' j = (s_clients s j)\<lparr>k_next := nxt s' j, k_prev := prv s' j\<rparr>)"

lemma links_onlyD:
  assumes "links_only s s'"
  shows "k_fd (s_clients s' j) = k_fd (s_clients s j)" "k_timer (s_clients s' j) = k_timer (s_clients s j)"
    "k_input (s_clients s' j) = k_input (s_clients s j)" "k_head (s_clients s' j) = k_head (s_clients s j)"
    "k_tail (s_clients s' j) = k_tail (s_clients s j)"
    "s_sys s' = s_sys s" "s_heap s' = s_heap s" "s_brk s' = s_brk s" "s_max s' = s_max s"
    "s_fault s' = s_fault s" "s_hang s' = s_hang s" "s_log s' = s_log s" "s_app s' = s_app s"
    "s_current s' = s_current s" "s_listener_fd s' = s_listener_fd s" "s_epoll_ctl s' = s_epoll_ctl s"
    "s_on_message s' = s_on_message s" "s_on_client_connected s' = s_on_client_connected s"
    "s_on_client_disconnected s' = s_on_client_disconnected s"
    "s_in_workspace_size s' = s_in_workspace_size s" "s_out_buf s' = s_out_buf s"
    "s_out_size s' = s_out_size s" "s_out_message s' = s_out_message s"
    "s_out_workspace_size s' = s_out_workspace_size s"
proof -
  have c: "s_clients s' j = (s_clients s j)\<lparr>k_next := nxt s' j, k_prev := prv s' j\<rparr>"
    using assms by (simp add: links_only_def)
  show "k_fd (s_clients s' j) = k_fd (s_clients s j)" "k_timer (s_clients s' j) = k_timer (s_clients s j)"
    "k_input (s_clients s' j) = k_input (s_clients s j)" "k_head (s_clients s' j) = k_head (s_clients s j)"
    "k_tail (s_clients s' j) = k_tail (s_clients s j)"
    by (subst c, simp)+
qed (subst assms [unfolded links_only_def, THEN conjunct1], simp)+

lemma alloc_links: "links_only s (snd (sv_alloc_client s))"
  by (auto simp: links_only_def sv_alloc_client_def sv_upd_def Let_def split: option.split)

lemma links_push:
  assumes "s1 = s\<lparr>s_clients := s_clients s1\<rparr>"
    "\<And>j. s_clients s1 j = (s_clients s j)\<lparr>k_next := nxt s1 j, k_prev := prv s1 j\<rparr>"
    "s2 = (sv_upd i (\<lambda>c. c\<lparr>k_next := q\<rparr>) (s1\<lparr>s_connected := l\<rparr>))\<lparr>s_pending := m, s_free := f\<rparr>"
  shows "links_only s s2"
proof -
  have "s_clients s2 j = (s_clients s j)\<lparr>k_next := nxt s2 j, k_prev := prv s2 j\<rparr>" for j
  proof (cases "j = i")
    case True
    have "(s_clients s1 i)\<lparr>k_next := q\<rparr> = (s_clients s i)\<lparr>k_next := q, k_prev := prv s1 i\<rparr>"
      by (subst assms(2)) simp
    then show ?thesis by (simp add: True assms(3))
  next
    case False
    then show ?thesis using assms(2) [of j] by (simp add: assms(3))
  qed
  moreover have "s2 = s\<lparr>s_clients := s_clients s2, s_connected := s_connected s2,
      s_pending := s_pending s2, s_free := s_free s2\<rparr>"
    unfolding assms(3) by (subst assms(1)) (simp add: sv_upd_def)
  ultimately show ?thesis by (simp add: links_only_def)
qed

lemma move_links:
  assumes "sv_lists s cs ps fs" "i \<in> set cs"
  shows "links_only s (sv_move_client_to_pending_disconnect_list i s)"
proof -
  obtain l' s1 where rm: "sv_remove_client_from_list (s_connected s) i s = (l', s1)" by fastforce
  have s: "lseg (nxt s) (s_connected s) cs" "prevs_ok (prv s) cs" "distinct cs"
    using assms(1) by (auto simp: sv_lists_def)
  note r = remove_client [OF s(1,3) assms(2) disjI1 [OF s(2)] rm]
  show ?thesis
    by (rule links_push [OF r(5,6), where i = i and q = "s_pending s1" and l = l' and m = "Some i"
          and f = "s_free s1"])
      (simp add: sv_move_client_to_pending_disconnect_list_def rm sv_upd_def)
qed

lemma free_connected_links:
  assumes "sv_lists s cs ps fs" "i \<in> set cs"
  shows "links_only s (sv_free_connected_client i s)"
proof -
  obtain l' s1 where rm: "sv_remove_client_from_list (s_connected s) i s = (l', s1)" by fastforce
  have s: "lseg (nxt s) (s_connected s) cs" "prevs_ok (prv s) cs" "distinct cs"
    using assms(1) by (auto simp: sv_lists_def)
  note r = remove_client [OF s(1,3) assms(2) disjI1 [OF s(2)] rm]
  show ?thesis
    by (rule links_push [OF r(5,6), where i = i and q = "s_free s1" and l = l' and m = "s_pending s1"
          and f = "Some i"])
      (simp add: sv_free_connected_client_def rm sv_upd_def)
qed

lemma free_pending_links:
  assumes "sv_lists s cs (i # ps) fs"
  shows "links_only s (sv_free_pending_disconnect_client i s)"
proof -
  obtain l' s1 where rm: "sv_remove_client_from_list (s_pending s) i s = (l', s1)" by fastforce
  have s: "lseg (nxt s) (s_pending s) (i # ps)" "distinct (i # ps)" "s_pending s = Some i"
    using assms(1) by (auto simp: sv_lists_def)
  note r = remove_client [OF s(1,2) _ disjI2 [OF s(3)] rm, simplified]
  show ?thesis
    by (rule links_push [OF r(5,6), where i = i and q = "s_free s1" and l = "s_connected s1" and m = l'
          and f = "Some i"])
      (simp add: sv_free_pending_disconnect_client_def rm sv_upd_def)
qed

section \<open>The interface\<close>

text \<open>
  A pool of clients as the rest of the server uses it: \<open>pool s cs ps fs\<close> says which clients are
  connected, pending and free, in the order of the lists.
\<close>

locale client_pool =
  fixes pool :: "'s \<Rightarrow> nat list \<Rightarrow> nat list \<Rightarrow> nat list \<Rightarrow> bool"
    and alloc :: "'s \<Rightarrow> ptr \<times> 's"
    and release :: "nat \<Rightarrow> 's \<Rightarrow> 's"
    and suspend :: "nat \<Rightarrow> 's \<Rightarrow> 's"
    and destroy :: "nat \<Rightarrow> 's \<Rightarrow> 's"
  assumes pool_distinct: "pool s cs ps fs \<Longrightarrow> distinct (cs @ ps @ fs)"
    and alloc_none: "pool s cs ps [] \<Longrightarrow> alloc s = (None, s)"
    and alloc_fst: "pool s cs ps (i # fs) \<Longrightarrow> fst (alloc s) = Some i"
    and alloc_snd: "pool s cs ps (i # fs) \<Longrightarrow> pool (snd (alloc s)) (i # cs) ps fs"
    and release: "pool s cs ps fs \<Longrightarrow> i \<in> set cs \<Longrightarrow> pool (release i s) (remove1 i cs) ps (i # fs)"
    and suspend: "pool s cs ps fs \<Longrightarrow> i \<in> set cs \<Longrightarrow> pool (suspend i s) (remove1 i cs) (i # ps) fs"
    and destroy: "pool s cs (i # ps) fs \<Longrightarrow> pool (destroy i s) cs ps (i # fs)"
begin

text \<open>A client that cannot be set up is given back: the pool is as before.\<close>

lemma alloc_release:
  assumes "pool s cs ps (i # fs)"
  shows "pool (release i (snd (alloc s))) cs ps (i # fs)"
  using release [OF alloc_snd [OF assms], of i] by simp

text \<open>All clients go the whole way, from connected to free.\<close>

lemma suspend_all:
  "pool s cs ps fs \<Longrightarrow> pool (fold suspend cs s) [] (rev cs @ ps) fs"
proof (induction cs arbitrary: s ps)
  case (Cons i cs)
  then have "pool (suspend i s) cs (i # ps) fs" using suspend [OF Cons.prems, of i] by simp
  then show ?case using Cons.IH by simp
qed simp

lemma destroy_all:
  "pool s cs ps fs \<Longrightarrow> pool (fold destroy ps s) cs [] (rev ps @ fs)"
proof (induction ps arbitrary: s fs)
  case (Cons i ps)
  then show ?case using Cons.IH [OF destroy [OF Cons.prems]] by simp
qed simp

end

interpretation pool: client_pool
  "sv_lists :: ('u, 'i, 'o) server \<Rightarrow> nat list \<Rightarrow> nat list \<Rightarrow> nat list \<Rightarrow> bool"
  sv_alloc_client sv_free_connected_client sv_move_client_to_pending_disconnect_list
  sv_free_pending_disconnect_client
  by unfold_locales
    (simp_all add: alloc_client_none alloc_client_lists free_connected_client_lists move_client_lists
      free_pending_client_lists, simp add: sv_lists_def)

end
