(* ===== verification/LinuxServerQueue.thy ===== *)
theory LinuxServerQueue
  imports LinuxServerLists
begin

text \<open>
  The output queue of a client: items on the heap that are linked from \<open>head_p\<close> to \<open>tail_p\<close>.
  A queue is a list of addresses; what matters of it are the bytes it still has to send. The
  operations are shown to append to it, to send from its front and to free it, and to leave
  the rest of the heap alone.
\<close>

section \<open>Queues in memory\<close>

definition item_ok :: "item \<Rightarrow> bool" where
  "item_ok it \<longleftrightarrow> 0 < it_size it \<and> it_offset it + it_size it \<le> length (it_data it)"

definition item_bytes :: "item \<Rightarrow> byte list" where
  "item_bytes it = take (it_size it) (drop (it_offset it) (it_data it))"

definition hnext :: "(nat \<Rightarrow> item option) \<Rightarrow> nat \<Rightarrow> ptr" where
  "hnext h a = (case h a of None \<Rightarrow> None | Some it \<Rightarrow> it_next it)"

definition queue :: "(nat \<Rightarrow> item option) \<Rightarrow> ptr \<Rightarrow> nat list \<Rightarrow> bool" where
  "queue h p as \<longleftrightarrow>
     lseg (hnext h) p as \<and> distinct as \<and> (\<forall>a \<in> set as. \<exists>it. h a = Some it \<and> item_ok it)"

definition queue_bytes :: "(nat \<Rightarrow> item option) \<Rightarrow> nat list \<Rightarrow> byte list" where
  "queue_bytes h as = concat (map (\<lambda>a. item_bytes (the (h a))) as)"

lemma hnext_upd [simp]:
  "hnext (h(a := x)) = (hnext h)(a := (case x of None \<Rightarrow> None | Some it \<Rightarrow> it_next it))"
  by (auto simp: hnext_def fun_eq_iff)

lemma queue_Nil [simp]: "queue h p [] \<longleftrightarrow> p = None"
  by (auto simp: queue_def)

lemma queue_Cons: "queue h p (a # as) \<longleftrightarrow> p = Some a \<and> a \<notin> set as \<and>
    (\<exists>it. h a = Some it \<and> item_ok it \<and> queue h (it_next it) as)"
  by (auto simp: queue_def hnext_def)

lemma queue_None [simp]: "queue h None as \<longleftrightarrow> as = []"
  by (auto simp: queue_def)

lemma queue_cong: "(\<And>a. a \<in> set as \<Longrightarrow> h a = g a) \<Longrightarrow> queue h p as \<longleftrightarrow> queue g p as"
  by (induction as arbitrary: p) (auto simp: queue_Cons)

lemma queue_bytes_cong: "(\<And>a. a \<in> set as \<Longrightarrow> h a = g a) \<Longrightarrow> queue_bytes h as = queue_bytes g as"
  unfolding queue_bytes_def by (metis (no_types, lifting) map_cong)

lemma queue_bytes_simps [simp]:
  "queue_bytes h [] = []" "queue_bytes h (a # as) = item_bytes (the (h a)) @ queue_bytes h as"
  "queue_bytes h (as @ bs) = queue_bytes h as @ queue_bytes h bs"
  by (simp_all add: queue_bytes_def)

lemma queue_upd [simp]: "a \<notin> set as \<Longrightarrow> queue (h(a := x)) p as = queue h p as"
  by (rule queue_cong) auto

lemma queue_bytes_upd [simp]: "a \<notin> set as \<Longrightarrow> queue_bytes (h(a := x)) as = queue_bytes h as"
  by (rule queue_bytes_cong) auto

lemma queue_unique: "queue h p as \<Longrightarrow> queue h p bs \<Longrightarrow> as = bs"
  unfolding queue_def using lseg_unique by blast

lemma queue_allocated: "queue h p as \<Longrightarrow> set as \<subseteq> dom h"
  unfolding queue_def by blast

text \<open>A new item behind the last one.\<close>

lemma queue_append:
  assumes "queue h p (as @ [t])" "h t = Some it" "a \<notin> set (as @ [t])" "item_ok new" "it_next new = None"
  shows "queue (h(a \<mapsto> new, t \<mapsto> it\<lparr>it_next := Some a\<rparr>)) p (as @ [t, a])"
    "queue_bytes (h(a \<mapsto> new, t \<mapsto> it\<lparr>it_next := Some a\<rparr>)) (as @ [t, a]) =
      queue_bytes h (as @ [t]) @ item_bytes new"
proof -
  have t: "t \<notin> set as" "a \<noteq> t" "a \<notin> set as" using assms(1,3) by (auto simp: queue_def)
  have path: "lpath (hnext h) p as (Some t)"
    using assms(1) by (auto simp: queue_def lseg_append)
  have ok: "item_ok it" using assms(1,2) by (auto simp: queue_def)
  show "queue (h(a \<mapsto> new, t \<mapsto> it\<lparr>it_next := Some a\<rparr>)) p (as @ [t, a])"
    using assms t path ok
    by (auto simp: queue_def lseg_append item_ok_def)
  show "queue_bytes (h(a \<mapsto> new, t \<mapsto> it\<lparr>it_next := Some a\<rparr>)) (as @ [t, a]) =
      queue_bytes h (as @ [t]) @ item_bytes new"
    using t assms(2) by (simp add: item_bytes_def)
qed

section \<open>Freeing a queue\<close>

lemma free_items_queue:
  assumes "queue (s_heap s) p as" "length as \<le> n"
  shows "sv_free_items n p s = s\<lparr>s_heap := \<lambda>a. if a \<in> set as then None else s_heap s a\<rparr>"
  using assms
proof (induction as arbitrary: n p s)
  case Nil
  then show ?case by (cases n) simp_all
next
  case (Cons a as)
  then obtain m it where q: "n = Suc m" "p = Some a" "s_heap s a = Some it" "a \<notin> set as"
      "queue (s_heap s) (it_next it) as" "length as \<le> m"
    by (cases n) (auto simp: queue_Cons)
  define t where "t = sv_free_item a s"
  have t: "t = s\<lparr>s_heap := s_heap t\<rparr>" "s_heap t = (s_heap s)(a := None)"
    by (simp_all add: t_def sv_free_item_def q)
  have "sv_free_items n p s = sv_free_items m (it_next it) t"
    by (simp add: q t_def)
  also have "\<dots> = t\<lparr>s_heap := \<lambda>b. if b \<in> set as then None else s_heap t b\<rparr>"
    by (rule Cons.IH) (simp_all only: t(2) queue_upd [OF q(4)] q)
  also have "(\<lambda>b. if b \<in> set as then None else s_heap t b) =
      (\<lambda>b. if b \<in> set (a # as) then None else s_heap s b)"
    by (auto simp: t(2))
  finally show ?case by (subst (asm) t(1)) simp
qed

section \<open>The queues of a server\<close>

text \<open>
  \<open>Q\<close> maps each connected client to its queue. The queues share no item, every item on the
  heap is in one of them, and \<open>malloc\<close> has not yet reached the next address.
\<close>

definition tail_ok :: "sclient \<Rightarrow> nat list \<Rightarrow> bool" where
  "tail_ok c as \<longleftrightarrow> (as \<noteq> [] \<longrightarrow> k_tail c = Some (last as))"

definition sv_queues :: "('u, 'i, 'o) server \<Rightarrow> nat set \<Rightarrow> (nat \<Rightarrow> nat list) \<Rightarrow> bool" where
  "sv_queues s C Q \<longleftrightarrow>
     (\<forall>i \<in> C. queue (s_heap s) (k_head (s_clients s i)) (Q i) \<and> tail_ok (s_clients s i) (Q i)) \<and>
     (\<forall>i \<in> C. \<forall>j \<in> C. i \<noteq> j \<longrightarrow> set (Q i) \<inter> set (Q j) = {}) \<and>
     dom (s_heap s) = (\<Union>i \<in> C. set (Q i)) \<and> dom (s_heap s) \<subseteq> {..<s_brk s}"

lemma sv_queuesD:
  assumes "sv_queues s C Q"
  shows "i \<in> C \<Longrightarrow> queue (s_heap s) (k_head (s_clients s i)) (Q i)" "i \<in> C \<Longrightarrow> tail_ok (s_clients s i) (Q i)"
    "i \<in> C \<Longrightarrow> j \<in> C \<Longrightarrow> i \<noteq> j \<Longrightarrow> set (Q i) \<inter> set (Q j) = {}"
    "dom (s_heap s) = (\<Union>i \<in> C. set (Q i))" "dom (s_heap s) \<subseteq> {..<s_brk s}"
proof -
  note q = assms [unfolded sv_queues_def]
  show "i \<in> C \<Longrightarrow> queue (s_heap s) (k_head (s_clients s i)) (Q i)"
    "i \<in> C \<Longrightarrow> tail_ok (s_clients s i) (Q i)"
    using bspec [OF q [THEN conjunct1]] by simp_all
  show "i \<in> C \<Longrightarrow> j \<in> C \<Longrightarrow> i \<noteq> j \<Longrightarrow> set (Q i) \<inter> set (Q j) = {}"
    using q [THEN conjunct2, THEN conjunct1] by blast
  show "dom (s_heap s) = (\<Union>i \<in> C. set (Q i))"
    by (rule q [THEN conjunct2, THEN conjunct2, THEN conjunct1])
  show "dom (s_heap s) \<subseteq> {..<s_brk s}"
    by (rule q [THEN conjunct2, THEN conjunct2, THEN conjunct2])
qed

lemma sv_queuesI:
  assumes "\<And>i. i \<in> C \<Longrightarrow> queue (s_heap s) (k_head (s_clients s i)) (Q i) \<and> tail_ok (s_clients s i) (Q i)"
    "\<And>i j. i \<in> C \<Longrightarrow> j \<in> C \<Longrightarrow> i \<noteq> j \<Longrightarrow> set (Q i) \<inter> set (Q j) = {}"
    "dom (s_heap s) = (\<Union>i \<in> C. set (Q i))" "dom (s_heap s) \<subseteq> {..<s_brk s}"
  shows "sv_queues s C Q"
  using assms unfolding sv_queues_def by simp

lemma queue_short: "queue h p as \<Longrightarrow> dom h \<subseteq> {..<n} \<Longrightarrow> length as \<le> n"
proof -
  assume q: "queue h p as" and "dom h \<subseteq> {..<n}"
  then have "set as \<subseteq> {..<n}" using queue_allocated [OF q] by auto
  then have "card (set as) \<le> n" by (metis card_lessThan card_mono finite_lessThan)
  then show "length as \<le> n" using q by (simp add: queue_def distinct_card)
qed

text \<open>
  One client's queue is replaced by another one: items of the old queue that are not in the
  new one have been freed, items that are new come from \<open>malloc\<close>.
\<close>

lemma sv_queues_replace:
  assumes "sv_queues s C Q" "i \<in> C"
    and "queue (s_heap s') (k_head (s_clients s' i)) as" "tail_ok (s_clients s' i) as"
    and "\<And>a. a \<notin> set (Q i) \<union> set as \<Longrightarrow> s_heap s' a = s_heap s a"
    and "\<And>a. a \<in> set (Q i) \<Longrightarrow> a \<notin> set as \<Longrightarrow> s_heap s' a = None"
    and "\<And>a. a \<in> set as \<Longrightarrow> a \<in> set (Q i) \<or> s_brk s \<le> a" "\<And>a. a \<in> set as \<Longrightarrow> a < s_brk s'"
    and "s_brk s \<le> s_brk s'"
    and "\<And>j. j \<in> C \<Longrightarrow> j \<noteq> i \<Longrightarrow> k_head (s_clients s' j) = k_head (s_clients s j) \<and>
      k_tail (s_clients s' j) = k_tail (s_clients s j)"
  shows "sv_queues s' C (Q(i := as))"
    and "\<And>j a. j \<in> C \<Longrightarrow> j \<noteq> i \<Longrightarrow> a \<in> set (Q j) \<Longrightarrow> s_heap s' a = s_heap s a"
proof -
  note q = sv_queuesD [OF assms(1)]
  have old: "a < s_brk s" if "j \<in> C" "a \<in> set (Q j)" for j a
    using that q(4,5) by blast
  have disj: "a \<notin> set (Q i)" "a \<notin> set as" if "j \<in> C" "j \<noteq> i" "a \<in> set (Q j)" for j a
    using q(3) [OF assms(2) that(1)] old [OF that(1,3)] assms(7) [of a] that by auto
  then show same: "s_heap s' a = s_heap s a" if "j \<in> C" "j \<noteq> i" "a \<in> set (Q j)" for j a
    using assms(5) [of a] that by blast
  have others: "queue (s_heap s') (k_head (s_clients s' j)) (Q j)" "tail_ok (s_clients s' j) (Q j)"
    if "j \<in> C" "j \<noteq> i" for j
    using queue_cong [of "Q j" "s_heap s'" "s_heap s"] same that q(1,2) assms(10) [of j]
    by (simp_all add: tail_ok_def)
  have "set as \<subseteq> dom (s_heap s')" using queue_allocated [OF assms(3)] .
  have dom': "dom (s_heap s') = set as \<union> (dom (s_heap s) - set (Q i))"
  proof (intro set_eqI)
    fix a
    show "a \<in> dom (s_heap s') \<longleftrightarrow> a \<in> set as \<union> (dom (s_heap s) - set (Q i))"
      using assms(5,6) [of a] \<open>set as \<subseteq> dom (s_heap s')\<close> by (cases "a \<in> set as"; cases "a \<in> set (Q i)") (auto simp: domIff)
  qed
  have "dom (s_heap s) - set (Q i) = (\<Union>j \<in> C - {i}. set (Q j))"
    using q(3) [OF assms(2)] unfolding q(4) by blast
  then have heap: "dom (s_heap s') = (\<Union>j \<in> C. set ((Q(i := as)) j))"
    using assms(2) unfolding dom' by (auto split: if_splits)
  have brk: "dom (s_heap s') \<subseteq> {..<s_brk s'}"
  proof (rule subsetI)
    fix a
    assume "a \<in> dom (s_heap s')"
    then show "a \<in> {..<s_brk s'}"
      using q(5) assms(8) [of a] assms(9) unfolding dom' by fastforce
  qed
  have apart: "set ((Q(i := as)) j) \<inter> set ((Q(i := as)) l) = {}" if "j \<in> C" "l \<in> C" "j \<noteq> l" for j l
    using that disj(2) [of j] disj(2) [of l] q(3) [OF that] by (cases "j = i"; cases "l = i") auto
  have each: "queue (s_heap s') (k_head (s_clients s' j)) ((Q(i := as)) j) \<and>
      tail_ok (s_clients s' j) ((Q(i := as)) j)" if "j \<in> C" for j
    using that others assms(3,4) by (cases "j = i") auto
  show "sv_queues s' C (Q(i := as))"
    by (rule sv_queuesI [OF each apart heap brk])
qed

section \<open>The stream of a client\<close>

text \<open>The bytes of a queue, read from memory.\<close>

primrec heap_bytes :: "nat \<Rightarrow> ptr \<Rightarrow> (nat \<Rightarrow> item option) \<Rightarrow> byte list" where
  "heap_bytes 0 p h = []"
| "heap_bytes (Suc n) p h =
     (case p of
        None \<Rightarrow> []
      | Some a \<Rightarrow> (case h a of None \<Rightarrow> [] | Some it \<Rightarrow> item_bytes it @ heap_bytes n (it_next it) h))"

lemma heap_bytes_queue: "queue h p as \<Longrightarrow> length as \<le> n \<Longrightarrow> heap_bytes n p h = queue_bytes h as"
proof (induction as arbitrary: p n)
  case Nil
  then show ?case by (cases n) simp_all
next
  case (Cons a as)
  then show ?case by (cases n) (auto simp: queue_Cons)
qed

text \<open>What the kernel has accepted for the socket of a client, then what is queued for it.\<close>

definition sv_stream :: "('u, 'i, 'o) server \<Rightarrow> nat \<Rightarrow> byte list" where
  "sv_stream s i =
     tx (s_sys s) (k_fd (s_clients s i)) @ heap_bytes (s_brk s) (k_head (s_clients s i)) (s_heap s)"

lemma sv_stream_eq:
  assumes "sv_queues s C Q" "i \<in> C"
  shows "sv_stream s i = tx (s_sys s) (k_fd (s_clients s i)) @ queue_bytes (s_heap s) (Q i)"
proof -
  note q = sv_queuesD(1) [OF assms]
  show ?thesis
    using heap_bytes_queue [OF q queue_short [OF q sv_queuesD(5) [OF assms(1)]]]
    by (simp add: sv_stream_def)
qed

end
