(* ===== verification/LinuxServerFrame.thy ===== *)
theory LinuxServerFrame
  imports LinuxServerQueue
begin

text \<open>
  What the operations of the linux server leave alone, whatever the state: what was set up by
  \<open>NAME_server_init\<close> and \<open>NAME_server_start\<close>, the input buffers of the clients, and, unless a
  callback runs, the application. No operation but an accept opens a descriptor.
\<close>

definition sv_cfg where
  "sv_cfg s =
     ((s_on_client_connected s, s_on_client_disconnected s, s_on_message s),
      (s_epoll_fd s, s_epoll_ctl s, s_listener_fd s),
      (s_in_workspace_size s, s_out_workspace_size s, s_out_size s, s_max s))"

definition sv_obs where
  "sv_obs s = (s_app s, s_log s, s_current s, s_out_buf s, s_out_message s)"

lemma sv_cfgD:
  assumes "sv_cfg s' = sv_cfg s"
  shows "s_on_client_connected s' = s_on_client_connected s"
    "s_on_client_disconnected s' = s_on_client_disconnected s" "s_on_message s' = s_on_message s"
    "s_epoll_fd s' = s_epoll_fd s" "s_epoll_ctl s' = s_epoll_ctl s" "s_listener_fd s' = s_listener_fd s"
    "s_in_workspace_size s' = s_in_workspace_size s" "s_out_workspace_size s' = s_out_workspace_size s"
    "s_out_size s' = s_out_size s" "s_max s' = s_max s"
  using assms by (simp_all add: sv_cfg_def)

lemma sv_obsD:
  assumes "sv_obs s' = sv_obs s"
  shows "s_app s' = s_app s" "s_log s' = s_log s" "s_current s' = s_current s"
    "s_out_buf s' = s_out_buf s" "s_out_message s' = s_out_message s"
  using assms by (simp_all add: sv_obs_def)

lemma sv_cfg_simps [simp]:
  "sv_cfg (s\<lparr>s_sys := os\<rparr>) = sv_cfg s" "sv_cfg (s\<lparr>s_clients := cl\<rparr>) = sv_cfg s"
  "sv_cfg (s\<lparr>s_heap := h\<rparr>) = sv_cfg s" "sv_cfg (s\<lparr>s_brk := n\<rparr>) = sv_cfg s"
  "sv_cfg (s\<lparr>s_fault := b\<rparr>) = sv_cfg s" "sv_cfg (s\<lparr>s_hang := b\<rparr>) = sv_cfg s"
  "sv_cfg (s\<lparr>s_connected := p\<rparr>) = sv_cfg s" "sv_cfg (s\<lparr>s_pending := p\<rparr>) = sv_cfg s"
  "sv_cfg (s\<lparr>s_free := p\<rparr>) = sv_cfg s" "sv_cfg (s\<lparr>s_app := u\<rparr>) = sv_cfg s"
  "sv_cfg (s\<lparr>s_log := l\<rparr>) = sv_cfg s" "sv_cfg (s\<lparr>s_current := p\<rparr>) = sv_cfg s"
  "sv_cfg (s\<lparr>s_out_buf := bf\<rparr>) = sv_cfg s" "sv_cfg (s\<lparr>s_out_message := m\<rparr>) = sv_cfg s"
  "sv_cfg (s\<lparr>s_in_message := im\<rparr>) = sv_cfg s" "sv_cfg (sv_upd i f s) = sv_cfg s"
  by (simp_all add: sv_cfg_def sv_upd_def)

lemma sv_obs_simps [simp]:
  "sv_obs (s\<lparr>s_sys := os\<rparr>) = sv_obs s" "sv_obs (s\<lparr>s_clients := cl\<rparr>) = sv_obs s"
  "sv_obs (s\<lparr>s_heap := h\<rparr>) = sv_obs s" "sv_obs (s\<lparr>s_brk := n\<rparr>) = sv_obs s"
  "sv_obs (s\<lparr>s_fault := b\<rparr>) = sv_obs s" "sv_obs (s\<lparr>s_hang := b\<rparr>) = sv_obs s"
  "sv_obs (s\<lparr>s_connected := p\<rparr>) = sv_obs s" "sv_obs (s\<lparr>s_pending := p\<rparr>) = sv_obs s"
  "sv_obs (s\<lparr>s_free := p\<rparr>) = sv_obs s" "sv_obs (s\<lparr>s_in_message := im\<rparr>) = sv_obs s"
  "sv_obs (sv_upd i f s) = sv_obs s"
  by (simp_all add: sv_obs_def sv_upd_def)

section \<open>Operations on clients\<close>

text \<open>Three facts per operation: \<open>sv_cfg\<close>, \<open>sv_obs\<close> and \<open>k_input\<close>; then the descriptors.\<close>

lemma remove_client_frame:
  "sv_cfg (snd (sv_remove_client_from_list l i s)) = sv_cfg s"
  "sv_obs (snd (sv_remove_client_from_list l i s)) = sv_obs s"
  "k_input (s_clients (snd (sv_remove_client_from_list l i s)) j) = k_input (s_clients s j)"
  "k_fd (s_clients (snd (sv_remove_client_from_list l i s)) j) = k_fd (s_clients s j)"
  "s_sys (snd (sv_remove_client_from_list l i s)) = s_sys s"
  by (auto simp: sv_remove_client_from_list_def Let_def split: option.split)

lemma move_client_frame [server_simps]:
  "sv_cfg (sv_move_client_to_pending_disconnect_list i s) = sv_cfg s"
  "sv_obs (sv_move_client_to_pending_disconnect_list i s) = sv_obs s"
  "k_input (s_clients (sv_move_client_to_pending_disconnect_list i s) j) = k_input (s_clients s j)"
  "k_fd (s_clients (sv_move_client_to_pending_disconnect_list i s) j) = k_fd (s_clients s j)"
  "s_sys (sv_move_client_to_pending_disconnect_list i s) = s_sys s"
  using remove_client_frame [of "s_connected s" i s]
  by (auto simp: sv_move_client_to_pending_disconnect_list_def Let_def split: prod.split)

lemma free_client_frame [server_simps]:
  "sv_cfg (sv_free_connected_client i s) = sv_cfg s"
  "sv_obs (sv_free_connected_client i s) = sv_obs s"
  "k_input (s_clients (sv_free_connected_client i s) j) = k_input (s_clients s j)"
  "k_fd (s_clients (sv_free_connected_client i s) j) = k_fd (s_clients s j)"
  "k_fd (s_clients (sv_free_pending_disconnect_client i s) j) = k_fd (s_clients s j)"
  "sv_cfg (sv_free_pending_disconnect_client i s) = sv_cfg s"
  "sv_obs (sv_free_pending_disconnect_client i s) = sv_obs s"
  "k_input (s_clients (sv_free_pending_disconnect_client i s) j) = k_input (s_clients s j)"
  using remove_client_frame [of "s_connected s" i s] remove_client_frame [of "s_pending s" i s]
  by (auto simp: sv_free_connected_client_def sv_free_pending_disconnect_client_def Let_def
      split: prod.split)

lemma alloc_client_frame [server_simps]:
  "sv_cfg (snd (sv_alloc_client s)) = sv_cfg s" "sv_obs (snd (sv_alloc_client s)) = sv_obs s"
  "k_input (s_clients (snd (sv_alloc_client s)) j) = k_input (s_clients s j)"
  by (auto simp: sv_alloc_client_def Let_def split: option.split)

lemma epoll_frame [server_simps]:
  "sv_cfg (sv_epoll_ctl_mod d ev s) = sv_cfg s" "sv_obs (sv_epoll_ctl_mod d ev s) = sv_obs s"
  "s_clients (sv_epoll_ctl_mod d ev s) = s_clients s"
  "fds (s_sys (sv_epoll_ctl_mod d ev s)) = fds (s_sys s)"
  "sv_cfg (sv_close_fd d s) = sv_cfg s" "sv_obs (sv_close_fd d s) = sv_obs s"
  "s_clients (sv_close_fd d s) = s_clients s"
  "fds (s_sys (sv_close_fd d s)) = removeAll d (fds (s_sys s))"
  by (simp_all add: sv_epoll_ctl_mod_def sv_close_fd_def sv_close_def sv_epoll_ctl_del_def os_simps)

lemma close_fd_shrinks:
  "os_shrinks (s_sys s) (s_sys (sv_close_fd d s))" "os_shrinks (s_sys s) (s_sys (sv_epoll_ctl_mod d ev s))"
proof -
  show "os_shrinks (s_sys s) (s_sys (sv_close_fd d s))"
    using os_shrinks_trans [OF call_epoll_ctl_shrinks sys_close_shrinks]
    by (simp add: sv_close_fd_def sv_close_def sv_epoll_ctl_del_def)
  show "os_shrinks (s_sys s) (s_sys (sv_epoll_ctl_mod d ev s))"
    by (simp add: sv_epoll_ctl_mod_def call_epoll_ctl_shrinks)
qed

lemma free_items_frame [server_simps]:
  "sv_cfg (sv_free_items n p s) = sv_cfg s" "sv_obs (sv_free_items n p s) = sv_obs s"
  "s_clients (sv_free_items n p s) = s_clients s" "s_sys (sv_free_items n p s) = s_sys s"
  by (induction n arbitrary: p s) (auto simp: sv_free_item_def split: option.split)

lemma free_client_output_frame [server_simps]:
  "sv_cfg (sv_free_client_output i s) = sv_cfg s" "sv_obs (sv_free_client_output i s) = sv_obs s"
  "k_input (s_clients (sv_free_client_output i s) j) = k_input (s_clients s j)"
  "k_fd (s_clients (sv_free_client_output i s) j) = k_fd (s_clients s j)"
  "s_sys (sv_free_client_output i s) = s_sys s"
  by (auto simp: sv_free_client_output_def Let_def server_simps)

lemma client_pending_disconnect_frame [server_simps]:
  "sv_cfg (sv_client_pending_disconnect i s) = sv_cfg s"
  "sv_obs (sv_client_pending_disconnect i s) = sv_obs s"
  "k_input (s_clients (sv_client_pending_disconnect i s) j) = k_input (s_clients s j)"
  "k_fd (s_clients (sv_client_pending_disconnect i s) j) = (if j = i then - 1 else k_fd (s_clients s j))"
  "os_shrinks (s_sys s) (s_sys (sv_client_pending_disconnect i s))"
  by (auto simp: sv_client_pending_disconnect_def Let_def server_simps close_fd_shrinks)

lemma client_pending_disconnect_again:
  "sv_client_pending_disconnect i (sv_client_pending_disconnect i s) = sv_client_pending_disconnect i s"
  by (subst sv_client_pending_disconnect_def) (simp add: server_simps)

section \<open>Output\<close>

lemma client_output_append_frame [server_simps]:
  "sv_cfg (sv_client_output_append i bs s) = sv_cfg s"
  "sv_obs (sv_client_output_append i bs s) = sv_obs s"
  "k_input (s_clients (sv_client_output_append i bs s) j) = k_input (s_clients s j)"
  "k_fd (s_clients (sv_client_output_append i bs s) j) = k_fd (s_clients s j)"
  "os_shrinks (s_sys s) (s_sys (sv_client_output_append i bs s))"
proof -
  obtain ok os where m: "sys_malloc (s_sys s) = (ok, os)" by fastforce
  then have os: "os_shrinks (s_sys s) os" by (rule sys_malloc_shrinks)
  have ep: "os_shrinks (s_sys s) (s_sys (sv_epoll_ctl_mod d ev t))" if "s_sys t = os" for d ev t
    using os_shrinks_trans [OF os] close_fd_shrinks(2) [of t d ev] that by simp
  show "sv_cfg (sv_client_output_append i bs s) = sv_cfg s"
    "sv_obs (sv_client_output_append i bs s) = sv_obs s"
    "k_input (s_clients (sv_client_output_append i bs s) j) = k_input (s_clients s j)"
    "k_fd (s_clients (sv_client_output_append i bs s) j) = k_fd (s_clients s j)"
    "os_shrinks (s_sys s) (s_sys (sv_client_output_append i bs s))"
    using os
    by (auto simp: sv_client_output_append_def sv_malloc_def m Let_def server_simps ep
        split: option.split)
qed

text \<open>
  \<open>sv_sockets s s'\<close>: from \<open>s\<close> to \<open>s'\<close> no client got another socket. \<open>sv_quiet s s'\<close>: only connections
  changed; the relation is what the operations that write and disconnect have in common.
\<close>

definition sv_sockets :: "('u, 'i, 'o) server \<Rightarrow> ('u, 'i, 'o) server \<Rightarrow> bool" where
  "sv_sockets s s' \<longleftrightarrow>
     (\<forall>j. k_fd (s_clients s' j) = k_fd (s_clients s j) \<or> k_fd (s_clients s' j) = - 1)"

lemma sv_sockets_refl [simp]: "sv_sockets s s"
  by (simp add: sv_sockets_def)

lemma sv_sockets_trans: "sv_sockets s s' \<Longrightarrow> sv_sockets s' s'' \<Longrightarrow> sv_sockets s s''"
  unfolding sv_sockets_def by metis

definition sv_quiet :: "('u, 'i, 'o) server \<Rightarrow> ('u, 'i, 'o) server \<Rightarrow> bool" where
  "sv_quiet s s' \<longleftrightarrow> sv_cfg s' = sv_cfg s \<and> sv_obs s' = sv_obs s \<and>
     (\<forall>j. k_input (s_clients s' j) = k_input (s_clients s j)) \<and>
     sv_sockets s s' \<and> os_shrinks (s_sys s) (s_sys s')"

lemma sv_quiet_refl [simp]: "sv_quiet s s"
  by (simp add: sv_quiet_def)

lemma sv_quiet_trans: "sv_quiet s s' \<Longrightarrow> sv_quiet s' s'' \<Longrightarrow> sv_quiet s s''"
  by (auto simp: sv_quiet_def intro: os_shrinks_trans sv_sockets_trans)

lemma sv_quietD:
  assumes "sv_quiet s s'"
  shows "s_current s' = s_current s" "s_log s' = s_log s" "s_app s' = s_app s"
    "os_shrinks (s_sys s) (s_sys s')"
  using assms sv_obsD [of s' s] by (simp_all add: sv_quiet_def)

lemma sv_quiet_updates [simp]:
  "sv_quiet s (s'\<lparr>s_heap := h\<rparr>) = sv_quiet s s'" "sv_quiet s (s'\<lparr>s_hang := b\<rparr>) = sv_quiet s s'"
  "sv_quiet s (s'\<lparr>s_fault := b\<rparr>) = sv_quiet s s'"
  "sv_quiet s (sv_upd i (\<lambda>c. c\<lparr>k_head := p\<rparr>) s') = sv_quiet s s'"
  "sv_quiet s (s'\<lparr>s_in_message := m\<rparr>) = sv_quiet s s'"
  by (auto simp: sv_quiet_def sv_sockets_def sv_upd_def)

lemma sv_quiet_ops [simp]:
  assumes "sv_quiet s s'"
  shows "sv_quiet s (sv_client_pending_disconnect i s')" "sv_quiet s (sv_client_output_append i bs s')"
    "sv_quiet s (sv_epoll_ctl_mod d ev s')" "sv_quiet s (sv_close_fd d s')"
    "sv_quiet s (sv_free_item a s')"
    "sys_write d bs (s_sys s') = (res, os) \<Longrightarrow> sv_quiet s (s'\<lparr>s_sys := os\<rparr>)"
  using assms sys_write_shrinks [of d bs "s_sys s'" res os] os_shrinks_trans [of "s_sys s" "s_sys s'"]
  by (auto simp: sv_quiet_def sv_sockets_def server_simps sv_free_item_def close_fd_shrinks)

lemma client_write_loop_quiet: "sv_quiet s s' \<Longrightarrow> sv_quiet s (sv_client_write_loop i bs s')"
proof (induction i bs s' rule: sv_client_write_loop.induct)
  case (1 i bs s')
  obtain res os where w: "sys_write (k_fd (s_clients s' i)) bs (s_sys s') = (res, os)" by fastforce
  have q: "sv_quiet s (s'\<lparr>s_sys := os\<rparr>)" using 1(2) w by simp
  show ?case
    using q 1 w
    by (subst sv_client_write_loop.simps) (cases res; simp add: Let_def)
qed

lemma client_write_quiet [simp]: "sv_quiet s s' \<Longrightarrow> sv_quiet s (sv_client_write i bs s')"
  by (simp add: sv_client_write_def client_write_loop_quiet)

lemma broadcast_loop_quiet [simp]: "sv_quiet s s' \<Longrightarrow> sv_quiet s (sv_broadcast_loop n p bs s')"
  by (induction n arbitrary: p s') (simp_all add: Let_def split: option.split)

lemma write_items_quiet: "sv_quiet s s' \<Longrightarrow> sv_quiet s (snd (sv_write_items i n p s'))"
  by (induction n arbitrary: p s') (auto simp: Let_def split: option.split prod.split sum.split)

lemma process_client_socket_out_quiet [simp]:
  "sv_quiet s s' \<Longrightarrow> sv_quiet s (sv_process_client_socket_out i s')"
  using write_items_quiet [of s s']
  by (simp add: sv_process_client_socket_out_def Let_def case_prod_unfold)

section \<open>Calls of the application\<close>

definition sv_keeps :: "('u, 'i, 'o) server \<Rightarrow> ('u, 'i, 'o) server \<Rightarrow> bool" where
  "sv_keeps s s' \<longleftrightarrow> sv_cfg s' = sv_cfg s \<and>
     (\<forall>j. k_input (s_clients s' j) = k_input (s_clients s j)) \<and>
     sv_sockets s s' \<and> os_shrinks (s_sys s) (s_sys s')"

lemma sv_keeps_refl [simp]: "sv_keeps s s"
  by (simp add: sv_keeps_def)

lemma sv_quiet_keeps: "sv_quiet s s' \<Longrightarrow> sv_keeps s s'"
  by (simp add: sv_quiet_def sv_keeps_def)

lemma sv_keeps_trans: "sv_keeps s s' \<Longrightarrow> sv_keeps s' s'' \<Longrightarrow> sv_keeps s s''"
  by (auto simp: sv_keeps_def intro: os_shrinks_trans sv_sockets_trans)

lemma sv_keeps_updates [simp]:
  "sv_keeps s (s'\<lparr>s_out_message := m\<rparr>) = sv_keeps s s'"
  "sv_keeps s (s'\<lparr>s_out_buf := bf\<rparr>) = sv_keeps s s'"
  "sv_keeps s (s'\<lparr>s_fault := b\<rparr>) = sv_keeps s s'"
  "sv_keeps s (s'\<lparr>s_app := u\<rparr>) = sv_keeps s s'" "sv_keeps s (s'\<lparr>s_log := l\<rparr>) = sv_keeps s s'"
  "sv_keeps s (s'\<lparr>s_current := p\<rparr>) = sv_keeps s s'"
  "sv_keeps s (s'\<lparr>s_in_message := im\<rparr>) = sv_keeps s s'"
  by (auto simp: sv_keeps_def sv_sockets_def)

text \<open>A frame is encoded into the output buffer; what was in it before is lost.\<close>

lemma encode_cases:
  obtains (none) "out_encode k (s_out_message s) (size_sub (s_out_size s) header_sizeof) = None"
      "sv_encode_user_message k s = (None, s)"
  | (some) payload buf fault where
      "out_encode k (s_out_message s) (size_sub (s_out_size s) header_sizeof) = Some payload"
      "sv_encode_user_message k s =
        (Some (length payload + header_sizeof), s\<lparr>s_out_buf := buf, s_fault := fault\<rparr>)"
      "header_sizeof \<le> length (s_out_buf s) \<Longrightarrow>
        take (length payload + header_sizeof) buf = frame (MESSI_MESSAGE_TYPE_SERVER_TO_CLIENT_USER, payload)"
      "fault = (s_fault s \<or> length (s_out_buf s) < header_sizeof + length payload)"
      "header_sizeof + length payload \<le> length (s_out_buf s) \<Longrightarrow> length buf = length (s_out_buf s)"
proof (cases "out_encode k (s_out_message s) (size_sub (s_out_size s) header_sizeof)")
  case None
  then show ?thesis by (intro none) (simp_all add: sv_encode_user_message_def)
next
  case (Some payload)
  define h where "h = messi_header_set_size ((header_at (buf_write header_sizeof payload (s_out_buf s)))
      \<lparr>header_type := MESSI_MESSAGE_TYPE_SERVER_TO_CLIENT_USER\<rparr>) (of_nat (length payload))"
  define buf where "buf = buf_write 0 (header_bytes h) (buf_write header_sizeof payload (s_out_buf s))"
  have h: "header_bytes h = header_bytes (messi_header_create (header_at (replicate 4 0))
      MESSI_MESSAGE_TYPE_SERVER_TO_CLIENT_USER (of_nat (length payload)))"
    by (simp add: h_def header_bytes_def messi_header_create_def messi_header_set_size_def)
  show ?thesis
  proof (rule some [OF Some])
    show "sv_encode_user_message k s = (Some (length payload + header_sizeof),
        s\<lparr>s_out_buf := buf, s_fault := (s_fault s \<or> length (s_out_buf s) < header_sizeof + length payload)\<rparr>)"
      by (simp add: sv_encode_user_message_def Some buf_def h_def Let_def)
    show "take (length payload + header_sizeof) buf =
        frame (MESSI_MESSAGE_TYPE_SERVER_TO_CLIENT_USER, payload)" if "header_sizeof \<le> length (s_out_buf s)"
      using that
      by (simp add: buf_def frame_def h buf_write_def)
  qed (simp_all add: buf_def)
qed

lemma encode_keeps [simp]: "sv_keeps s (snd (sv_encode_user_message k s))"
  by (cases rule: encode_cases [of k s]) simp_all

lemma server_send_keeps: "sv_keeps s (server_send k i s)"
proof (cases rule: encode_cases [of k s])
  case (some payload buf fault)
  let ?s = "s\<lparr>s_out_buf := buf, s_fault := fault\<rparr>"
  have "sv_keeps ?s (sv_client_write i bs ?s)" for bs
    by (rule sv_quiet_keeps) simp
  then show ?thesis
    using sv_keeps_trans [of s ?s] some by (simp add: server_send_def)
qed (simp add: server_send_def)

lemma server_broadcast_keeps: "sv_keeps s (server_broadcast k s)"
proof (cases rule: encode_cases [of k s])
  case (some payload buf fault)
  let ?s = "s\<lparr>s_out_buf := buf, s_fault := fault\<rparr>"
  have "sv_keeps ?s (sv_broadcast_loop n p bs ?s)" for n p bs
    by (rule sv_quiet_keeps) simp
  then show ?thesis
    using sv_keeps_trans [of s ?s] some by (simp add: server_broadcast_def)
qed (simp add: server_broadcast_def)

lemma server_call_keeps: "sv_keeps s (server_call k r s)"
proof (cases r)
  case (Disconnect_client p)
  have "sv_keeps s (sv_client_pending_disconnect i s)" for i by (rule sv_quiet_keeps) simp
  then show ?thesis by (simp add: Disconnect_client server_disconnect_def split: option.split)
qed (auto simp: server_init_message_def server_new_output_message_def server_reply_def Let_def
    server_send_keeps server_broadcast_keeps split: option.split)

lemma server_calls_keeps: "sv_keeps s (fold (server_call k) rs s)"
proof (induction rs arbitrary: s)
  case (Cons r rs)
  show ?case using sv_keeps_trans [OF server_call_keeps Cons.IH] by simp
qed simp

lemma server_call_current [simp]:
  "s_current (server_call k r s) = s_current s" "s_log (server_call k r s) = s_log s"
proof -
  have w: "s_current (sv_client_write i bs t) = s_current t" "s_log (sv_client_write i bs t) = s_log t"
    "s_current (sv_broadcast_loop n p bs t) = s_current t" "s_log (sv_broadcast_loop n p bs t) = s_log t"
    "s_current (sv_client_pending_disconnect i t) = s_current t"
    "s_log (sv_client_pending_disconnect i t) = s_log t"
    for i bs n p and t :: "('a, 'b, 'c) server"
    by (rule sv_quietD; simp)+
  have send: "s_current (server_send k i s) = s_current s" "s_log (server_send k i s) = s_log s" for i
    by (cases rule: encode_cases [of k s]; simp add: server_send_def w)+
  have broadcast: "s_current (server_broadcast k s) = s_current s" "s_log (server_broadcast k s) = s_log s"
    by (cases rule: encode_cases [of k s]; simp add: server_broadcast_def w)+
  show "s_current (server_call k r s) = s_current s" "s_log (server_call k r s) = s_log s"
    by (cases r; simp add: send broadcast server_init_message_def server_new_output_message_def w
        server_reply_def server_disconnect_def Let_def split: option.split)+
qed

lemma callback_current [simp]:
  "s_current (sv_callback k cb ev s) = s_current s" "s_log (sv_callback k cb ev s) = s_log s @ [ev]"
proof -
  have "s_current (fold (server_call k) rs t) = s_current t" "s_log (fold (server_call k) rs t) = s_log t"
    for rs and t :: "('a, 'b, 'c) server"
    by (induction rs arbitrary: t) simp_all
  then show "s_current (sv_callback k cb ev s) = s_current s" "s_log (sv_callback k cb ev s) = s_log s @ [ev]"
    by (simp_all add: sv_callback_def case_prod_unfold Let_def)
qed

lemma callback_keeps: "sv_keeps s (sv_callback k cb ev s)"
proof -
  have "sv_keeps s (fold (server_call k) rs (s\<lparr>s_app := u, s_log := l\<rparr>))" for rs u l
    using sv_keeps_trans [OF _ server_calls_keeps, of s "s\<lparr>s_app := u, s_log := l\<rparr>"] by simp
  then show ?thesis by (simp add: sv_callback_def case_prod_unfold Let_def)
qed

section \<open>Messages\<close>

lemma start_keep_alive_eq:
  "sv_client_start_keep_alive_timer i s = (res, s') \<Longrightarrow>
     \<exists>os. s' = s\<lparr>s_sys := os\<rparr> \<and> fds os = fds (s_sys s) \<and> os_shrinks (s_sys s) os"
  using sys_timerfd_settime_shrinks [of "s_sys s" "k_timer (s_clients s i)" 3]
  by (auto simp: sv_client_start_keep_alive_timer_def split: prod.splits dest: fds_results(6))

lemma handle_message_user_keeps: "sv_keeps s (snd (sv_handle_message_user k i s))"
proof -
  have "sv_keeps s (sv_callback k cb ev (s\<lparr>s_in_message := m, s_current := p\<rparr>))" for cb ev m p
    using sv_keeps_trans [OF _ callback_keeps, of s "s\<lparr>s_in_message := m, s_current := p\<rparr>"] by simp
  then show ?thesis
    by (auto simp: sv_handle_message_user_def Let_def split: option.splits prod.splits)
qed

lemma handle_message_ping_keeps: "sv_keeps s (snd (sv_handle_message_ping i s))"
proof -
  obtain res s' where t: "sv_client_start_keep_alive_timer i s = (res, s')" by fastforce
  then obtain os where s': "s' = s\<lparr>s_sys := os\<rparr>" "os_shrinks (s_sys s) os"
    using start_keep_alive_eq by blast
  then have "sv_quiet s s'" by (simp add: sv_quiet_def sv_sockets_def)
  then have "sv_keeps s s'" "sv_keeps s (sv_client_write i bs s')" for bs
    by (simp_all add: sv_quiet_keeps)
  then show ?thesis by (simp add: sv_handle_message_ping_def t Let_def)
qed

lemma handle_message_keeps: "sv_keeps s (snd (sv_handle_message k i ty s))"
  by (simp add: sv_handle_message_def handle_message_user_keeps handle_message_ping_keeps)

end
