(* ===== verification/LinuxServerReceive.thy ===== *)
theory LinuxServerReceive
  imports LinuxServerFrame
begin

text \<open>
  The receiving loop of the linux server is an instance of the interface \<open>frame_receiver\<close>, one
  for each client: what the loop does does not depend on the pieces in which the bytes arrive.
\<close>

section \<open>The receiving loop\<close>

definition sv_receiving :: "nat \<Rightarrow> ('u, 'i, 'o) server \<Rightarrow> bool" where
  "sv_receiving i s \<longleftrightarrow> k_fd (s_clients s i) \<in> set (fds (s_sys s))"

definition sv_no_minus :: "('u, 'i, 'o) server \<Rightarrow> bool" where
  "sv_no_minus s \<longleftrightarrow> - 1 \<notin> set (fds (s_sys s))"

text \<open>A complete message is handled; then the client is ready for the next header or given up.\<close>

definition sv_dispatch :: "('i, 'o) codec \<Rightarrow> nat \<Rightarrow> ('u, 'i, 'o) server \<Rightarrow> ('u, 'i, 'o) server" where
  "sv_dispatch k i s =
     (let (res, s1) = sv_handle_message k i (header_type (input_header (k_input (s_clients s i)))) s
      in if res = 0 then sv_client_reset_input i s1 else sv_client_pending_disconnect i s1)"

lemma set_input_simps [server_simps]:
  "k_input (s_clients (sv_set_input i inp s) i) = inp"
  "k_fd (s_clients (sv_set_input i inp s) j) = k_fd (s_clients s j)"
  "s_sys (sv_set_input i inp s) = s_sys s"
  "sv_set_input i inp (sv_set_input i inp' s) = sv_set_input i inp s"
  "sv_set_input i (k_input (s_clients s i)) s = s"
  by (simp_all add: sv_set_input_def sv_upd_def)

lemma reset_input_eq: "sv_client_reset_input i s = sv_set_input i (input_reset (k_input (s_clients s i))) s"
  by (simp add: sv_client_reset_input_def sv_set_input_def sv_upd_def input_reset_def)

lemma dispatch_cases:
  obtains (again) s1 where "sv_keeps s s1"
      "sv_dispatch k i s = sv_set_input i (input_reset (k_input (s_clients s i))) s1"
  | (gone) s1 where "sv_keeps s s1" "sv_dispatch k i s = sv_client_pending_disconnect i s1"
proof -
  let ?r = "sv_handle_message k i (header_type (input_header (k_input (s_clients s i)))) s"
  have k: "sv_keeps s (snd ?r)" by (rule handle_message_keeps)
  then have "k_input (s_clients (snd ?r) i) = k_input (s_clients s i)" by (simp add: sv_keeps_def)
  then show ?thesis
    using that [OF k]
    by (cases "fst ?r = 0") (simp_all add: sv_dispatch_def case_prod_unfold Let_def reset_input_eq)
qed

lemma pending_dead: "sv_no_minus s \<Longrightarrow> \<not> sv_receiving i (sv_client_pending_disconnect i s)"
  by (auto simp: sv_no_minus_def sv_receiving_def server_simps
      dest: os_shrinks_fds [OF client_pending_disconnect_frame(5)])

lemma keeps_no_minus: "sv_keeps s s' \<Longrightarrow> sv_no_minus s \<Longrightarrow> sv_no_minus s'"
  by (auto simp: sv_keeps_def sv_no_minus_def dest: os_shrinks_fds)

lemma process_in_dead:
  "\<not> sv_receiving i s \<Longrightarrow> sv_process_client_socket_in k i as s = sv_client_pending_disconnect i s"
  by (subst sv_process_client_socket_in.simps) (simp add: sv_receiving_def os_simps)

lemma process_in_alive:
  assumes "sv_receiving i s"
  shows "sv_process_client_socket_in k i [] s = s"
    and "sv_process_client_socket_in k i (Chunk [] # as) s = sv_client_pending_disconnect i s"
    and "sv_process_client_socket_in k i (Arrival_error e # as) s =
      (if e = EAGAIN then s else sv_client_pending_disconnect i s)"
  using assms by (subst sv_process_client_socket_in.simps, simp add: sv_receiving_def sys_read_def)+

text \<open>Once a client is given up, its loop is over.\<close>

lemma process_in_gone:
  "sv_no_minus s \<Longrightarrow>
     sv_process_client_socket_in k i as (sv_client_pending_disconnect i s) = sv_client_pending_disconnect i s"
  using process_in_dead [OF pending_dead] by (simp add: client_pending_disconnect_again)

lemma dispatch_then:
  assumes "sv_no_minus s"
  shows "sv_process_client_socket_in k i as (sv_dispatch k i s) =
    (let (res, s1) = sv_handle_message k i (header_type (input_header (k_input (s_clients s i)))) s
     in if res = 0 then sv_process_client_socket_in k i as (sv_client_reset_input i s1)
        else sv_client_pending_disconnect i s1)"
proof -
  have "sv_no_minus (snd (sv_handle_message k i ty s))" for ty
    using handle_message_keeps assms by (rule keeps_no_minus)
  then show ?thesis by (simp add: sv_dispatch_def case_prod_unfold Let_def process_in_gone)
qed

lemma dispatch_no_minus: "sv_no_minus s \<Longrightarrow> sv_no_minus (sv_dispatch k i s)"
  by (cases rule: dispatch_cases [of s k i])
    (auto simp: sv_no_minus_def server_simps sv_keeps_def dest: os_shrinks_fds
      os_shrinks_fds [OF client_pending_disconnect_frame(5)])

lemma dispatch_input:
  "k_input (s_clients (sv_dispatch k i s) i) = k_input (s_clients s i) \<or>
     k_input (s_clients (sv_dispatch k i s) i) = input_reset (k_input (s_clients s i))"
  by (cases rule: dispatch_cases [of s k i]) (auto simp: sv_keeps_def server_simps)

lemma dispatch_alive:
  "sv_no_minus s \<Longrightarrow> sv_receiving i (sv_dispatch k i s) \<Longrightarrow>
     k_input (s_clients (sv_dispatch k i s) i) = input_reset (k_input (s_clients s i))"
  using pending_dead keeps_no_minus
  by (cases rule: dispatch_cases [of s k i]) (auto simp: server_simps)

lemma process_in_chunk:
  assumes "sv_no_minus s" "sv_receiving i s" "bs \<noteq> []" "0 < i_left (k_input (s_clients s i))"
    "n = min (i_left (k_input (s_clients s i))) (length bs)"
    "s1 = sv_set_input i (input_read (take n bs) (k_input (s_clients s i))) s"
  shows "sv_process_client_socket_in k i (Chunk bs # as) s =
    (if 0 < i_left (k_input (s_clients s1 i)) then sv_process_client_socket_in k i (push_back n bs as) s1
     else case input_complete (k_input (s_clients s1 i)) of
         Too_big inp \<Rightarrow> sv_client_pending_disconnect i (sv_set_input i inp s1)
       | More inp \<Rightarrow> sv_process_client_socket_in k i (push_back n bs as) (sv_set_input i inp s1)
       | Ready inp \<Rightarrow>
           sv_process_client_socket_in k i (push_back n bs as) (sv_dispatch k i (sv_set_input i inp s1)))"
proof -
  define inp where "inp = input_read (take n bs) (k_input (s_clients s i))"
  have tk: "take (i_left (k_input (s_clients s i))) bs = take n bs" "take n bs \<noteq> []"
    using assms by (auto simp: min_def)
  have pb: "(if length bs \<le> i_left (k_input (s_clients s i)) then as
      else Chunk (drop (i_left (k_input (s_clients s i))) bs) # as) = push_back n bs as"
    using assms by (auto simp: min_def)
  have rd: "sys_read (k_fd (s_clients s i)) (i_left (k_input (s_clients s i))) (Chunk bs # as) (s_sys s) =
      (Inr (take n bs), push_back n bs as)"
    using assms(2) by (simp add: sys_read_def sv_receiving_def tk pb del: push_back.simps)
  have st: "i_state inp = Payload" if "i_state inp \<noteq> Header"
    using that by (cases "i_state inp") auto
  have s1: "s1 = sv_set_input i inp s" "k_input (s_clients s1 i) = inp" "sv_set_input i inp s1 = s1"
    by (simp_all add: assms(6) inp_def server_simps)
  have nm: "sv_no_minus s1" "sv_no_minus (sv_set_input i j s1)" for j
    using assms(1) by (simp_all add: sv_no_minus_def assms(6) server_simps)
  note d = dispatch_then [OF nm(1)] dispatch_then [OF nm(2)]
  have "sv_process_client_socket_in k i (Chunk bs # as) s =
    (if 0 < i_left inp then sv_process_client_socket_in k i (push_back n bs as) s1
     else case input_complete inp of
         Too_big j \<Rightarrow> sv_client_pending_disconnect i (sv_set_input i j s1)
       | More j \<Rightarrow> sv_process_client_socket_in k i (push_back n bs as) (sv_set_input i j s1)
       | Ready j \<Rightarrow>
           sv_process_client_socket_in k i (push_back n bs as) (sv_dispatch k i (sv_set_input i j s1)))"
    by (subst sv_process_client_socket_in.simps)
      (use tk(2) st in \<open>auto simp: rd Let_def inp_def [symmetric] s1(1) [symmetric] s1(2,3)
        input_complete_def d server_simps simp del: push_back.simps\<close>)
  then show ?thesis by (simp only: s1(2))
qed

interpretation svr: frame_receiver "\<lambda>s :: ('u, 'i, 'o) server. k_input (s_clients s i)"
  "sv_set_input i" sv_no_minus "sv_receiving i"
  "sv_client_pending_disconnect i" "sv_dispatch k i"
  "sv_client_pending_disconnect i" "sv_process_client_socket_in k i" for k :: "('i, 'o) codec" and i
proof
  fix s :: "('u, 'i, 'o) server" and bs :: "byte list" and as n s1
  assume "sv_no_minus s" "sv_receiving i s" "bs \<noteq> []" "0 < i_left (k_input (s_clients s i))"
    "n = min (i_left (k_input (s_clients s i))) (length bs)"
    "s1 = sv_set_input i (input_read (take n bs) (k_input (s_clients s i))) s"
  then show "sv_process_client_socket_in k i (Chunk bs # as) s =
    (if 0 < i_left (k_input (s_clients s1 i)) then sv_process_client_socket_in k i (push_back n bs as) s1
     else case input_complete (k_input (s_clients s1 i)) of
         Too_big inp \<Rightarrow> sv_client_pending_disconnect i (sv_set_input i inp s1)
       | More inp \<Rightarrow> sv_process_client_socket_in k i (push_back n bs as) (sv_set_input i inp s1)
       | Ready inp \<Rightarrow>
           sv_process_client_socket_in k i (push_back n bs as) (sv_dispatch k i (sv_set_input i inp s1)))"
    by (rule process_in_chunk)
qed (simp_all add: server_simps pending_dead client_pending_disconnect_again process_in_dead
    process_in_alive dispatch_no_minus dispatch_input dispatch_alive,
    simp_all add: sv_receiving_def sv_no_minus_def server_simps)

end
