(* ===== verification/LinuxServerInv.thy ===== *)
theory LinuxServerInv
  imports LinuxServerReceive
begin

text \<open>
  The invariant of the linux server: the lists of clients, the output queues, the descriptors
  each client owns, and that nothing has gone wrong so far. Each operation is shown to keep it.
\<close>

section \<open>The invariant\<close>

definition owned :: "('u, 'i, 'o) server \<Rightarrow> nat \<Rightarrow> fd set" where
  "owned s i = {k_fd (s_clients s i), k_timer (s_clients s i)} - {- 1}"

text \<open>\<open>A\<close> are the open descriptors that belong to no client, among them the listener.\<close>

definition sv_fds :: "fd set \<Rightarrow> ('u, 'i, 'o) server \<Rightarrow> nat list \<Rightarrow> nat list \<Rightarrow> bool" where
  "sv_fds A s cs ps \<longleftrightarrow>
     (\<forall>d \<in> set (fds (s_sys s)). 0 \<le> d) \<and>
     (\<forall>i \<in> set cs. k_fd (s_clients s i) \<in> set (fds (s_sys s)) \<and>
        k_timer (s_clients s i) \<in> set (fds (s_sys s)) \<and>
        k_fd (s_clients s i) \<noteq> k_timer (s_clients s i)) \<and>
     (\<forall>i \<in> set ps. k_fd (s_clients s i) = - 1 \<and> k_head (s_clients s i) = None \<and>
        k_timer (s_clients s i) \<in> set (fds (s_sys s))) \<and>
     (\<forall>i \<in> set (cs @ ps). \<forall>j \<in> set (cs @ ps). i \<noteq> j \<longrightarrow> owned s i \<inter> owned s j = {}) \<and>
     set (fds (s_sys s)) - (\<Union>i \<in> set (cs @ ps). owned s i) = A"

definition sv_inv :: "fd set \<Rightarrow> ('u, 'i, 'o) server \<Rightarrow> nat list \<Rightarrow> nat list \<Rightarrow> nat list \<Rightarrow> bool" where
  "sv_inv A s cs ps fs \<longleftrightarrow>
     sv_lists s cs ps fs \<and> (\<exists>Q. sv_queues s (set cs) Q) \<and> sv_fds A s cs ps \<and>
     \<not> s_fault s \<and> \<not> s_hang s"

text \<open>What the parts of the invariant depend on.\<close>

definition same_clients :: "('u, 'i, 'o) server \<Rightarrow> ('u, 'i, 'o) server \<Rightarrow> bool" where
  "same_clients s s' \<longleftrightarrow>
     (\<forall>j. k_fd (s_clients s' j) = k_fd (s_clients s j) \<and> k_timer (s_clients s' j) = k_timer (s_clients s j) \<and>
        k_head (s_clients s' j) = k_head (s_clients s j) \<and> k_tail (s_clients s' j) = k_tail (s_clients s j) \<and>
        nxt s' j = nxt s j \<and> prv s' j = prv s j) \<and>
     s_connected s' = s_connected s \<and> s_pending s' = s_pending s \<and> s_free s' = s_free s \<and>
     s_max s' = s_max s"

lemma same_clients_lists: "same_clients s s' \<Longrightarrow> sv_lists s' cs ps fs = sv_lists s cs ps fs"
  by (rule sv_lists_cong) (simp_all add: same_clients_def)

lemma same_clients_queues:
  "same_clients s s' \<Longrightarrow> s_heap s' = s_heap s \<Longrightarrow> s_brk s' = s_brk s \<Longrightarrow> sv_queues s' C Q = sv_queues s C Q"
  by (simp add: same_clients_def sv_queues_def tail_ok_def)

lemma same_clients_fds:
  "same_clients s s' \<Longrightarrow> set (fds (s_sys s')) = set (fds (s_sys s)) \<Longrightarrow> sv_fds A s' cs ps = sv_fds A s cs ps"
  by (simp add: same_clients_def sv_fds_def owned_def)

lemma sv_inv_cong:
  assumes "same_clients s s'" "s_heap s' = s_heap s" "s_brk s' = s_brk s"
    "set (fds (s_sys s')) = set (fds (s_sys s))" "s_fault s' = s_fault s" "s_hang s' = s_hang s"
  shows "sv_inv A s' cs ps fs = sv_inv A s cs ps fs"
  using assms by (simp add: sv_inv_def same_clients_lists same_clients_queues same_clients_fds)

section \<open>Descriptors\<close>

lemma sv_close_fd_eq:
  "\<exists>os. sv_close_fd d s = s\<lparr>s_sys := os\<rparr> \<and> fds os = removeAll d (fds (s_sys s)) \<and>
     wscript os = wscript (s_sys s) \<and> tx os = tx (s_sys s) \<and> mallocs os = mallocs (s_sys s)"
proof -
  have ep: "wscript (snd (call_epoll_ctl f e EPOLL_CTL_DEL d 0 os)) = wscript os"
    "tx (snd (call_epoll_ctl f e EPOLL_CTL_DEL d 0 os)) = tx os"
    "mallocs (snd (call_epoll_ctl f e EPOLL_CTL_DEL d 0 os)) = mallocs os" for f e d os
    by (cases f; simp add: messi_epoll_ctl_default_def sys_epoll_ctl_def)+
  show ?thesis
    by (auto simp: sv_close_fd_def sv_close_def sv_epoll_ctl_del_def os_simps ep sys_close_def)
qed

lemma sv_epoll_ctl_add_eq:
  "sv_epoll_ctl_add d s = (res, s') \<Longrightarrow> \<exists>os. s' = s\<lparr>s_sys := os\<rparr> \<and> fds os = fds (s_sys s)"
  by (auto simp: sv_epoll_ctl_add_def split: prod.splits dest: fds_results(5))

lemma sv_epoll_ctl_del_eq:
  "\<exists>os. sv_epoll_ctl_del d s = s\<lparr>s_sys := os\<rparr> \<and> fds os = fds (s_sys s)"
  unfolding sv_epoll_ctl_del_def using fds_call_epoll_ctl by blast

lemma sv_epoll_ctl_mod_eq:
  "\<exists>os. sv_epoll_ctl_mod d ev s = s\<lparr>s_sys := os\<rparr> \<and> fds os = fds (s_sys s) \<and>
     wscript os = wscript (s_sys s) \<and> tx os = tx (s_sys s) \<and> mallocs os = mallocs (s_sys s)"
proof -
  have ep: "P (snd (call_epoll_ctl f e EPOLL_CTL_MOD d ev os)) = P os"
    if "\<And>os g. P (os\<lparr>interest := g\<rparr>) = P os" "\<And>os. P (snd (sys_try os)) = P os" for P :: "os \<Rightarrow> 'x" and f e os
    using that by (cases f) (simp_all add: messi_epoll_ctl_default_def sys_epoll_ctl_def sys_on_fd_def
        Let_def case_prod_unfold)
  show ?thesis
    unfolding sv_epoll_ctl_mod_def
    by (intro exI conjI, rule refl) (auto simp: os_simps intro!: ep)
qed

section \<open>Giving up a client\<close>

text \<open>What a client that is given up looks like, before it is moved to the other list.\<close>

lemma pending_disconnect_eq:
  assumes "sv_queues s C Q" "i \<in> C" "k_fd (s_clients s i) \<noteq> - 1"
  obtains os where
    "sv_client_pending_disconnect i s = sv_move_client_to_pending_disconnect_list i
       (s\<lparr>s_sys := os, s_clients := (s_clients s)(i := (s_clients s i)\<lparr>k_fd := - 1, k_head := None\<rparr>),
          s_heap := \<lambda>a. if a \<in> set (Q i) then None else s_heap s a\<rparr>)"
    "fds os = removeAll (k_fd (s_clients s i)) (fds (s_sys s))" "wscript os = wscript (s_sys s)"
    "tx os = tx (s_sys s)" "mallocs os = mallocs (s_sys s)"
proof -
  obtain os where os: "sv_close_fd (k_fd (s_clients s i)) s = s\<lparr>s_sys := os\<rparr>"
    "fds os = removeAll (k_fd (s_clients s i)) (fds (s_sys s))" "wscript os = wscript (s_sys s)"
    "tx os = tx (s_sys s)" "mallocs os = mallocs (s_sys s)"
    using sv_close_fd_eq by blast
  note q = sv_queuesD(1) [OF assms(1,2)] sv_queuesD(5) [OF assms(1)]
  note free_eq = free_items_queue [OF _ queue_short [OF q]]
  have fr: "sv_free_items (s_brk s) (k_head (s_clients s i)) t =
      t\<lparr>s_heap := \<lambda>a. if a \<in> set (Q i) then None else s_heap s a\<rparr>"
    if "s_heap t = s_heap s" for t :: "('a, 'b, 'c) server"
    by (rule free_eq [of t, unfolded that, OF q(1)])
  show ?thesis
    by (rule that [OF _ os(2-5)])
      (simp add: sv_client_pending_disconnect_def assms(3) os(1) sv_free_client_output_def
        sv_upd_def fr Let_def)
qed


lemma sv_fdsD:
  assumes "sv_fds A s cs ps"
  shows "d \<in> set (fds (s_sys s)) \<Longrightarrow> 0 \<le> d"
    "i \<in> set cs \<Longrightarrow> k_fd (s_clients s i) \<in> set (fds (s_sys s))"
    "i \<in> set cs \<or> i \<in> set ps \<Longrightarrow> k_timer (s_clients s i) \<in> set (fds (s_sys s))"
    "i \<in> set cs \<Longrightarrow> k_fd (s_clients s i) \<noteq> k_timer (s_clients s i)"
    "i \<in> set ps \<Longrightarrow> k_fd (s_clients s i) = - 1" "i \<in> set ps \<Longrightarrow> k_head (s_clients s i) = None"
    "i \<in> set cs \<or> i \<in> set ps \<Longrightarrow> j \<in> set cs \<or> j \<in> set ps \<Longrightarrow> i \<noteq> j \<Longrightarrow> owned s i \<inter> owned s j = {}"
    "set (fds (s_sys s)) - (\<Union>i \<in> set (cs @ ps). owned s i) = A"
    "i \<in> set cs \<Longrightarrow> k_fd (s_clients s i) \<noteq> - 1"
    "i \<in> set cs \<or> i \<in> set ps \<Longrightarrow> k_timer (s_clients s i) \<noteq> - 1" "- 1 \<notin> set (fds (s_sys s))"
proof -
  note d = assms [unfolded sv_fds_def]
  show "d \<in> set (fds (s_sys s)) \<Longrightarrow> 0 \<le> d" using d by blast
  show "i \<in> set cs \<Longrightarrow> k_fd (s_clients s i) \<in> set (fds (s_sys s))" using d by blast
  show "i \<in> set cs \<or> i \<in> set ps \<Longrightarrow> k_timer (s_clients s i) \<in> set (fds (s_sys s))" using d by blast
  show "i \<in> set cs \<Longrightarrow> k_fd (s_clients s i) \<noteq> k_timer (s_clients s i)" using d by blast
  show "i \<in> set ps \<Longrightarrow> k_fd (s_clients s i) = - 1" "i \<in> set ps \<Longrightarrow> k_head (s_clients s i) = None"
    using d by blast+
  show "owned s i \<inter> owned s j = {}"
    if "i \<in> set cs \<or> i \<in> set ps" "j \<in> set cs \<or> j \<in> set ps" "i \<noteq> j"
    using d that unfolding set_append by blast
  show "set (fds (s_sys s)) - (\<Union>i \<in> set (cs @ ps). owned s i) = A" using d by (elim conjE)
  show "i \<in> set cs \<Longrightarrow> k_fd (s_clients s i) \<noteq> - 1" using d by force
  show "i \<in> set cs \<or> i \<in> set ps \<Longrightarrow> k_timer (s_clients s i) \<noteq> - 1" using d by force
  show "- 1 \<notin> set (fds (s_sys s))" using d by force
qed

lemma sv_fdsI:
  assumes "\<And>d. d \<in> set (fds (s_sys s)) \<Longrightarrow> 0 \<le> d"
    "\<And>i. i \<in> set cs \<Longrightarrow> k_fd (s_clients s i) \<in> set (fds (s_sys s))"
    "\<And>i. i \<in> set cs \<or> i \<in> set ps \<Longrightarrow> k_timer (s_clients s i) \<in> set (fds (s_sys s))"
    "\<And>i. i \<in> set cs \<Longrightarrow> k_fd (s_clients s i) \<noteq> k_timer (s_clients s i)"
    "\<And>i. i \<in> set ps \<Longrightarrow> k_fd (s_clients s i) = - 1 \<and> k_head (s_clients s i) = None"
    "\<And>i j. i \<in> set cs \<or> i \<in> set ps \<Longrightarrow> j \<in> set cs \<or> j \<in> set ps \<Longrightarrow> i \<noteq> j \<Longrightarrow>
       owned s i \<inter> owned s j = {}"
    "set (fds (s_sys s)) - (\<Union>i \<in> set (cs @ ps). owned s i) = A"
  shows "sv_fds A s cs ps"
  using assms unfolding sv_fds_def set_append Un_iff by simp

lemma sv_fds_give_up:
  assumes "sv_fds A s cs ps" "i \<in> set cs" "distinct (cs @ ps)"
    "fds (s_sys s') = removeAll (k_fd (s_clients s i)) (fds (s_sys s))"
    "k_fd (s_clients s' i) = - 1" "k_head (s_clients s' i) = None"
    "k_timer (s_clients s' i) = k_timer (s_clients s i)"
    "\<And>j. j \<noteq> i \<Longrightarrow> k_fd (s_clients s' j) = k_fd (s_clients s j) \<and>
       k_timer (s_clients s' j) = k_timer (s_clients s j) \<and> k_head (s_clients s' j) = k_head (s_clients s j)"
  shows "sv_fds A s' (remove1 i cs) (i # ps)"
proof -
  note f = sv_fdsD [OF assms(1)]
  have i: "i \<notin> set ps" "set (remove1 i cs) = set cs - {i}" using assms(2,3) by (auto simp: set_remove1_eq)
  have own: "owned s' i = {k_timer (s_clients s i)}" "\<And>j. j \<noteq> i \<Longrightarrow> owned s' j = owned s j"
    using assms(5-8) f(10) [of i] assms(2) by (auto simp: owned_def)
  have oi: "owned s i = {k_fd (s_clients s i), k_timer (s_clients s i)}"
    using f(9,10) [of i] assms(2) by (auto simp: owned_def)
  have disj: "k_fd (s_clients s i) \<notin> owned s j" if "j \<in> set cs \<or> j \<in> set ps" "j \<noteq> i" for j
    using f(7) [of i j] that assms(2) oi by auto
  have rest: "set (fds (s_sys s')) - (\<Union>j \<in> set (remove1 i cs @ i # ps). owned s' j) = A"
  proof -
    have "(\<Union>j \<in> set (cs @ ps). owned s j) =
        insert (k_fd (s_clients s i)) (\<Union>j \<in> set (remove1 i cs @ i # ps). owned s' j)"
    proof -
      have "(\<Union>j \<in> set (cs @ ps) - {i}. owned s j) = (\<Union>j \<in> set (cs @ ps) - {i}. owned s' j)"
        using own(2) by simp
      moreover have "set (cs @ ps) = insert i (set (cs @ ps) - {i})"
        "set (remove1 i cs @ i # ps) = insert i (set (cs @ ps) - {i})"
        using assms(2) i by auto
      ultimately show ?thesis using own(1) oi by (metis (no_types, lifting) UN_insert insert_is_Un Un_assoc)
    qed
    then show ?thesis using f(8) assms(4) by auto
  qed
  have fd: "k_fd (s_clients s j) \<in> set (fds (s_sys s'))" if "j \<in> set cs" "j \<noteq> i" for j
    using f(2) [of j] f(9) [of j] disj [of j] that by (auto simp: assms(4) owned_def)
  have timer: "k_timer (s_clients s j) \<in> set (fds (s_sys s'))" if "j \<in> set cs \<or> j \<in> set ps" for j
    using f(3,10) [of j] disj [of j] that f(4) [of i] assms(2)
    by (cases "j = i") (auto simp: assms(4) owned_def)
  have disj': "owned s' j \<inter> owned s' l = {}"
    if "j \<in> set cs \<or> j \<in> set ps" "l \<in> set cs \<or> l \<in> set ps" "j \<noteq> l" for j l
    using f(7) [OF that] own oi that by (cases "j = i"; cases "l = i") auto
  have mem: "j \<in> set (remove1 i cs) \<or> j \<in> set (i # ps) \<longleftrightarrow> j \<in> set cs \<or> j \<in> set ps" for j
    using assms(2) i by auto
  show ?thesis
  proof (rule sv_fdsI [OF _ _ _ _ _ _ rest])
    show "0 \<le> d" if "d \<in> set (fds (s_sys s'))" for d using f(1) that by (simp add: assms(4))
    show "owned s' j \<inter> owned s' l = {}"
      if "j \<in> set (remove1 i cs) \<or> j \<in> set (i # ps)" "l \<in> set (remove1 i cs) \<or> l \<in> set (i # ps)" "j \<noteq> l"
      for j l
      by (rule disj' [OF that(1) [unfolded mem] that(2) [unfolded mem] that(3)])
    show "k_timer (s_clients s' j) \<in> set (fds (s_sys s'))"
      if "j \<in> set (remove1 i cs) \<or> j \<in> set (i # ps)" for j
      using timer [OF that [unfolded mem]] assms(7,8) by (cases "j = i") simp_all
  next
    fix j
    assume "j \<in> set (remove1 i cs)"
    then have j: "j \<in> set cs" "j \<noteq> i" by (auto simp: i)
    then show "k_fd (s_clients s' j) \<in> set (fds (s_sys s'))" using fd [OF j] assms(8) by simp
    show "k_fd (s_clients s' j) \<noteq> k_timer (s_clients s' j)" using f(4) [OF j(1)] assms(8) [OF j(2)] by simp
  next
    fix j
    assume "j \<in> set (i # ps)"
    then show "k_fd (s_clients s' j) = - 1 \<and> k_head (s_clients s' j) = None"
      using assms(5,6) assms(8) [of j] f(5,6) [of j] by (cases "j = i") auto
  qed
qed

text \<open>What holds after \<open>client_pending_disconnect\<close> of a connected client.\<close>

lemma pending_disconnect_inv:
  assumes "sv_lists s cs ps fs" "sv_queues s (set cs) Q" "sv_fds A s cs ps" "i \<in> set cs"
    "s' = sv_client_pending_disconnect i s"
  shows "sv_lists s' (remove1 i cs) (i # ps) fs" "sv_queues s' (set (remove1 i cs)) Q"
    "sv_fds A s' (remove1 i cs) (i # ps)" "s_fault s' = s_fault s" "s_hang s' = s_hang s"
    "wscript (s_sys s') = wscript (s_sys s)" "mallocs (s_sys s') = mallocs (s_sys s)"
    "tx (s_sys s') = tx (s_sys s)" "s_brk s' = s_brk s"
    "\<And>j. j \<in> set cs \<Longrightarrow> j \<noteq> i \<Longrightarrow> sv_stream s' j = sv_stream s j"
proof -
  note f = sv_fdsD [OF assms(3)]
  have fd: "k_fd (s_clients s i) \<noteq> - 1" using f(9) assms(4) by blast
  obtain os where pd: "s' = sv_move_client_to_pending_disconnect_list i
       (s\<lparr>s_sys := os, s_clients := (s_clients s)(i := (s_clients s i)\<lparr>k_fd := - 1, k_head := None\<rparr>),
          s_heap := \<lambda>a. if a \<in> set (Q i) then None else s_heap s a\<rparr>)" (is "_ = sv_move_client_to_pending_disconnect_list i ?t")
    and os: "fds os = removeAll (k_fd (s_clients s i)) (fds (s_sys s))" "wscript os = wscript (s_sys s)"
      "tx os = tx (s_sys s)" "mallocs os = mallocs (s_sys s)"
    by (rule pending_disconnect_eq [OF assms(2,4) fd, folded assms(5)])
  have lt: "sv_lists ?t cs ps fs"
    using assms(1) by (subst sv_lists_cong [of _ s]) (auto simp: fun_eq_iff)
  show "sv_lists s' (remove1 i cs) (i # ps) fs"
    unfolding pd by (rule move_client_lists [OF lt assms(4)])
  note l = links_onlyD [OF move_links [OF lt assms(4)], folded pd]
  have ds: "distinct (cs @ ps)" using pool.pool_distinct [OF assms(1)] by auto
  show "sv_fds A s' (remove1 i cs) (i # ps)"
    by (rule sv_fds_give_up [OF assms(3,4) ds]) (simp_all add: l os)
  note q = sv_queuesD [OF assms(2)]
  have i: "set (remove1 i cs) = set cs - {i}" using ds by (simp add: set_remove1_eq)
  have q': "sv_queues s' (set cs) (Q(i := []))"
    by (rule sv_queues_replace(1) [OF assms(2,4)]) (simp_all add: l tail_ok_def)
  have heap: "\<And>j a. j \<in> set cs \<Longrightarrow> j \<noteq> i \<Longrightarrow> a \<in> set (Q j) \<Longrightarrow> s_heap s' a = s_heap s a"
    by (rule sv_queues_replace(2) [OF assms(2,4), of s' "[]"]) (simp_all add: l tail_ok_def)
  show qs: "sv_queues s' (set (remove1 i cs)) Q"
  proof (rule sv_queuesI)
    show "dom (s_heap s') = (\<Union>j \<in> set (remove1 i cs). set (Q j))"
      using sv_queuesD(4) [OF q'] assms(4) unfolding i by (auto split: if_splits)
    show "dom (s_heap s') \<subseteq> {..<s_brk s'}" by (rule sv_queuesD(5) [OF q'])
  next
    fix j
    assume "j \<in> set (remove1 i cs)"
    then have "j \<in> set cs" "j \<noteq> i" by (auto simp: i)
    then show "queue (s_heap s') (k_head (s_clients s' j)) (Q j) \<and> tail_ok (s_clients s' j) (Q j)"
      using sv_queuesD(1,2) [OF q', of j] by simp
  next
    fix j k
    assume "j \<in> set (remove1 i cs)" "k \<in> set (remove1 i cs)" "j \<noteq> k"
    then show "set (Q j) \<inter> set (Q k) = {}" using q(3) [of j k] by (simp add: i)
  qed
  show "s_fault s' = s_fault s" "s_hang s' = s_hang s" "s_brk s' = s_brk s"
    "wscript (s_sys s') = wscript (s_sys s)" "mallocs (s_sys s') = mallocs (s_sys s)"
    "tx (s_sys s') = tx (s_sys s)"
    by (simp_all add: l os)
  show "sv_stream s' j = sv_stream s j" if "j \<in> set cs" "j \<noteq> i" for j
    using sv_stream_eq [OF qs, of j] sv_stream_eq [OF assms(2), of j] that heap [OF that]
      queue_bytes_cong [of "Q j" "s_heap s'" "s_heap s"]
    by (simp add: i l os)
qed

text \<open>The same for an operation that only replaces the queue of a connected client.\<close>

definition same_but_queue :: "nat \<Rightarrow> ('u, 'i, 'o) server \<Rightarrow> ('u, 'i, 'o) server \<Rightarrow> bool" where
  "same_but_queue i s s' \<longleftrightarrow>
     (\<forall>j. k_fd (s_clients s' j) = k_fd (s_clients s j) \<and> k_timer (s_clients s' j) = k_timer (s_clients s j) \<and>
        nxt s' j = nxt s j \<and> prv s' j = prv s j \<and>
        (j \<noteq> i \<longrightarrow> k_head (s_clients s' j) = k_head (s_clients s j) \<and>
           k_tail (s_clients s' j) = k_tail (s_clients s j))) \<and>
     s_connected s' = s_connected s \<and> s_pending s' = s_pending s \<and> s_free s' = s_free s \<and>
     s_max s' = s_max s \<and> s_fault s' = s_fault s \<and> s_hang s' = s_hang s \<and>
     fds (s_sys s') = fds (s_sys s) \<and> s_brk s \<le> s_brk s' \<and>
     (\<forall>d. d \<noteq> k_fd (s_clients s i) \<longrightarrow> tx (s_sys s') d = tx (s_sys s) d)"

lemma replace_queue_inv:
  assumes "sv_lists s cs ps fs" "sv_queues s (set cs) Q" "sv_fds A s cs ps" "i \<in> set cs"
    "same_but_queue i s s'"
    and "queue (s_heap s') (k_head (s_clients s' i)) as" "tail_ok (s_clients s' i) as"
    and "\<And>a. a \<notin> set (Q i) \<union> set as \<Longrightarrow> s_heap s' a = s_heap s a"
    and "\<And>a. a \<in> set (Q i) \<Longrightarrow> a \<notin> set as \<Longrightarrow> s_heap s' a = None"
    and "\<And>a. a \<in> set as \<Longrightarrow> a \<in> set (Q i) \<or> s_brk s \<le> a" "\<And>a. a \<in> set as \<Longrightarrow> a < s_brk s'"
  shows "sv_lists s' cs ps fs" "sv_queues s' (set cs) (Q(i := as))" "sv_fds A s' cs ps"
    and "\<And>j. j \<in> set cs \<Longrightarrow> j \<noteq> i \<Longrightarrow> sv_stream s' j = sv_stream s j"
    and "sv_stream s' i = tx (s_sys s') (k_fd (s_clients s i)) @ queue_bytes (s_heap s') as"
proof -
  note same = assms(5) [unfolded same_but_queue_def]
  note f = sv_fdsD [OF assms(3)]
  have ds: "set cs \<inter> set ps = {}" using pool.pool_distinct [OF assms(1)] by auto
  show "sv_lists s' cs ps fs"
    using assms(1) by (subst sv_lists_cong [of _ s]) (use same in auto)
  have own: "owned s' j = owned s j" for j using same by (simp add: owned_def)
  show "sv_fds A s' cs ps"
  proof (rule sv_fdsI)
    show "set (fds (s_sys s')) - (\<Union>i \<in> set (cs @ ps). owned s' i) = A"
      using f(8) same by (simp add: own)
    show "k_fd (s_clients s' j) = - 1 \<and> k_head (s_clients s' j) = None" if "j \<in> set ps" for j
      using f(5,6) [OF that] same that ds assms(4) by (cases "j = i") auto
  qed (use f same own in auto)
  note r = sv_queues_replace [OF assms(2,4) assms(6-11)]
  have q: "sv_queues s' (set cs) (Q(i := as))" "\<And>j a. j \<in> set cs \<Longrightarrow> j \<noteq> i \<Longrightarrow> a \<in> set (Q j) \<Longrightarrow> s_heap s' a = s_heap s a"
    by (rule r, use same in auto)+
  then show "sv_queues s' (set cs) (Q(i := as))" by blast
  show "sv_stream s' j = sv_stream s j" if "j \<in> set cs" "j \<noteq> i" for j
  proof -
    have "k_fd (s_clients s j) \<noteq> k_fd (s_clients s i)"
      using f(7) [of i j] f(9) [of i] f(9) [of j] that assms(4) by (auto simp: owned_def)
    then show ?thesis
      using sv_stream_eq [OF q(1), of j] sv_stream_eq [OF assms(2), of j] that
        queue_bytes_cong [of "Q j" "s_heap s'" "s_heap s"] q(2) [OF that] same
      by simp
  qed
  show "sv_stream s' i = tx (s_sys s') (k_fd (s_clients s i)) @ queue_bytes (s_heap s') as"
    using sv_stream_eq [OF q(1) assms(4)] same by simp
qed

end
