(* ===== verification/LinuxServerOutput.thy ===== *)
theory LinuxServerOutput
  imports LinuxServerInv
begin

text \<open>
  Writing to a client: whether the kernel takes the bytes at once, in part or not at all, they
  are appended to the stream of the client, or the client is given up. The invariant is kept,
  and the streams of the other clients are not touched.
\<close>

section \<open>Keeping a client or giving it up\<close>

text \<open>
  The possible ends of an operation on the connection of client \<open>i\<close>: it is still connected, or
  it has been moved to the list of pending disconnections.
\<close>

definition sv_kept where
  "sv_kept A s cs ps fs i s' \<longleftrightarrow>
     sv_inv A s' cs ps fs \<and> k_fd (s_clients s' i) = k_fd (s_clients s i) \<and>
     (\<forall>j \<in> set cs - {i}. sv_stream s' j = sv_stream s j)"

definition sv_lost where
  "sv_lost A s cs ps fs i s' \<longleftrightarrow>
     sv_inv A s' (remove1 i cs) (i # ps) fs \<and> k_fd (s_clients s' i) = - 1 \<and>
     (\<forall>j \<in> set cs - {i}. sv_stream s' j = sv_stream s j)"

lemma sv_kept_refl: "sv_inv A s cs ps fs \<Longrightarrow> sv_kept A s cs ps fs i s"
  by (simp add: sv_kept_def)

lemma sv_kept_trans:
  "sv_kept A s cs ps fs i s' \<Longrightarrow> sv_kept A s' cs ps fs i s'' \<Longrightarrow> sv_kept A s cs ps fs i s''"
  "sv_kept A s cs ps fs i s' \<Longrightarrow> sv_lost A s' cs ps fs i s'' \<Longrightarrow> sv_lost A s cs ps fs i s''"
  by (simp_all add: sv_kept_def sv_lost_def)

lemma pending_disconnect_lost:
  assumes "sv_inv A s cs ps fs" "i \<in> set cs"
  shows "sv_lost A s cs ps fs i (sv_client_pending_disconnect i s)"
proof -
  obtain Q where "sv_lists s cs ps fs" "sv_queues s (set cs) Q" "sv_fds A s cs ps" "\<not> s_fault s" "\<not> s_hang s"
    using assms(1) by (auto simp: sv_inv_def)
  note p = pending_disconnect_inv [OF this(1-3) assms(2) refl]
  then show ?thesis
    using \<open>\<not> s_fault s\<close> \<open>\<not> s_hang s\<close> by (auto simp: sv_lost_def sv_inv_def server_simps)
qed

lemma pending_disconnect_pending:
  assumes "sv_inv A s cs ps fs" "i \<in> set ps"
  shows "sv_client_pending_disconnect i s = s"
proof -
  have "k_fd (s_clients s i) = - 1" using assms sv_fdsD(5) [of A s cs ps i] by (simp add: sv_inv_def)
  then show ?thesis by (simp add: sv_client_pending_disconnect_def)
qed

section \<open>Queueing\<close>

lemma sys_malloc_snd:
  "fds (snd (sys_malloc os)) = fds os" "tx (snd (sys_malloc os)) = tx os"
  "wscript (snd (sys_malloc os)) = wscript os"
  by (simp_all add: sys_malloc_def split: list.split)

definition sv_malloc_ok :: "('u, 'i, 'o) server \<Rightarrow> bool" where
  "sv_malloc_ok s \<longleftrightarrow> fst (sys_malloc (s_sys s))"

text \<open>The three branches of \<open>client_output_append\<close>, when the queue is in order.\<close>

lemma output_append_cases:
  assumes "queue (s_heap s) (k_head (s_clients s i)) as" "tail_ok (s_clients s i) as"
    "dom (s_heap s) \<subseteq> {..<s_brk s}"
  obtains (no_memory) os where "\<not> sv_malloc_ok s" "sv_client_output_append i bs s = s\<lparr>s_sys := os\<rparr>"
      "fds os = fds (s_sys s)" "tx os = tx (s_sys s)" "wscript os = wscript (s_sys s)"
  | (first) os where "sv_malloc_ok s" "as = []" "sv_client_output_append i bs s =
        s\<lparr>s_sys := os, s_heap := (s_heap s)(s_brk s \<mapsto>
            \<lparr>it_offset = 0, it_size = length bs, it_next = None, it_data = bs\<rparr>), s_brk := Suc (s_brk s),
          s_clients := (s_clients s)(i := (s_clients s i)\<lparr>k_head := Some (s_brk s), k_tail := Some (s_brk s)\<rparr>)\<rparr>"
      "fds os = fds (s_sys s)" "tx os = tx (s_sys s)" "wscript os = wscript (s_sys s)"
  | (behind) os bs' t it where "sv_malloc_ok s" "as = bs' @ [t]" "s_heap s t = Some it"
      "sv_client_output_append i bs s =
        s\<lparr>s_sys := os, s_heap := (s_heap s)(s_brk s \<mapsto>
            \<lparr>it_offset = 0, it_size = length bs, it_next = None, it_data = bs\<rparr>,
            t \<mapsto> it\<lparr>it_next := Some (s_brk s)\<rparr>), s_brk := Suc (s_brk s),
          s_clients := (s_clients s)(i := (s_clients s i)\<lparr>k_tail := Some (s_brk s)\<rparr>)\<rparr>"
      "fds os = fds (s_sys s)" "tx os = tx (s_sys s)" "wscript os = wscript (s_sys s)"
proof -
  let ?it = "\<lparr>it_offset = 0, it_size = length bs, it_next = None, it_data = bs\<rparr>"
  obtain ok os where m: "sys_malloc (s_sys s) = (ok, os)" by fastforce
  have os: "fds os = fds (s_sys s)" "tx os = tx (s_sys s)" "wscript os = wscript (s_sys s)"
    using sys_malloc_snd [of "s_sys s"] m by simp_all
  consider "\<not> ok" | "ok" "as = []" | t bs' where "ok" "as = bs' @ [t]"
    by (cases as rule: rev_cases) auto
  then show ?thesis
  proof cases
    case 1
    then show ?thesis
      using no_memory [OF _ _ os] m
      by (simp add: sv_client_output_append_def sv_malloc_def sv_malloc_ok_def)
  next
    case 2
    define t where "t = sv_upd i (\<lambda>c. c\<lparr>k_head := Some (s_brk s)\<rparr>)
      (s\<lparr>s_sys := os, s_heap := (s_heap s)(s_brk s \<mapsto> ?it), s_brk := Suc (s_brk s)\<rparr>)"
    obtain os' where "sv_epoll_ctl_mod (k_fd (s_clients s i)) (EPOLLIN OR EPOLLOUT) t = t\<lparr>s_sys := os'\<rparr>"
      "fds os' = fds (s_sys t)" "tx os' = tx (s_sys t)" "wscript os' = wscript (s_sys t)"
      using sv_epoll_ctl_mod_eq by blast
    moreover have "k_head (s_clients s i) = None" using assms(1) 2 by simp
    ultimately show ?thesis
      using first [of os'] 2 m os
      by (simp add: sv_client_output_append_def sv_malloc_def sv_malloc_ok_def t_def sv_upd_def)
  next
    case 3
    then obtain it where it: "s_heap s t = Some it" "k_tail (s_clients s i) = Some t"
      using assms(1,2) by (auto simp: queue_def tail_ok_def)
    have h: "k_head (s_clients s i) \<noteq> None" using assms(1) 3 by (cases bs') (auto simp: queue_Cons)
    have "t \<noteq> s_brk s" using it(1) assms(3) by auto
    then show ?thesis
      using behind [of bs' t it os] 3 m os it h
      by (auto simp: sv_client_output_append_def sv_malloc_def sv_malloc_ok_def sv_upd_def)
  qed
qed

lemma output_append_kept:
  assumes "sv_inv A s cs ps fs" "i \<in> set cs" "bs \<noteq> []" "s' = sv_client_output_append i bs s"
  shows "sv_kept A s cs ps fs i s'"
    and "sv_stream s' i = sv_stream s i @ (if sv_malloc_ok s then bs else [])"
    and "tx (s_sys s') = tx (s_sys s)" "wscript (s_sys s') = wscript (s_sys s)"
proof -
  obtain Q where inv: "sv_lists s cs ps fs" "sv_queues s (set cs) Q" "sv_fds A s cs ps" "\<not> s_fault s" "\<not> s_hang s"
    using assms(1) by (auto simp: sv_inv_def)
  note q = sv_queuesD(1,2) [OF inv(2) assms(2)] sv_queuesD(5) [OF inv(2)]
  have qd: "a < s_brk s" if "a \<in> set (Q j)" "j \<in> set cs" for a j
    using sv_queuesD(4,5) [OF inv(2)] that by blast
  have "sv_kept A s cs ps fs i s' \<and> sv_stream s' i = sv_stream s i @ (if sv_malloc_ok s then bs else []) \<and>
      tx (s_sys s') = tx (s_sys s) \<and> wscript (s_sys s') = wscript (s_sys s)"
    using q
  proof (cases rule: output_append_cases [where bs = bs])
    case (no_memory os)
    have "sv_inv A s' cs ps fs"
      using assms(1) by (subst sv_inv_cong [of s]) (simp_all add: assms(4) no_memory same_clients_def)
    then show ?thesis
      by (simp add: sv_kept_def assms(4) no_memory sv_stream_def)
  next
    case (first os)
    let ?it = "\<lparr>it_offset = 0, it_size = length bs, it_next = None, it_data = bs\<rparr>"
    have same: "same_but_queue i s s'" "\<not> s_fault s'" "\<not> s_hang s'"
      by (simp_all add: same_but_queue_def assms(4) first inv)
    have it: "item_ok ?it" "item_bytes ?it = bs"
      using assms(3) by (simp_all add: item_ok_def item_bytes_def)
    note r = replace_queue_inv [OF inv(1-3) assms(2) same(1), of "[s_brk s]"]
    have r: "sv_lists s' cs ps fs" "sv_queues s' (set cs) (Q(i := [s_brk s]))" "sv_fds A s' cs ps"
      "\<And>j. j \<in> set cs \<Longrightarrow> j \<noteq> i \<Longrightarrow> sv_stream s' j = sv_stream s j"
      "sv_stream s' i = tx (s_sys s') (k_fd (s_clients s i)) @ queue_bytes (s_heap s') [s_brk s]"
      by (rule r; simp add: assms(4) first queue_Cons it tail_ok_def)+
    have "sv_stream s' i = sv_stream s i @ bs"
      using sv_stream_eq [OF inv(2) assms(2)] r(5) by (simp add: assms(4) first it)
    moreover have "sv_kept A s cs ps fs i s'"
      using r same by (auto simp: sv_kept_def sv_inv_def assms(4) first)
    ultimately show ?thesis by (simp add: first(1)) (simp add: assms(4) first)
  next
    case (behind os bs' t it)
    let ?new = "\<lparr>it_offset = 0, it_size = length bs, it_next = None, it_data = bs\<rparr>"
    have same: "same_but_queue i s s'" "\<not> s_fault s'" "\<not> s_hang s'"
      by (simp_all add: same_but_queue_def assms(4) behind inv)
    have new: "item_ok ?new" "item_bytes ?new = bs"
      using assms(3) by (simp_all add: item_ok_def item_bytes_def)
    have fresh: "s_brk s \<notin> set (Q i)" using qd [OF _ assms(2)] by blast
    note app = queue_append [OF q(1) [unfolded behind(2)] behind(3), of "s_brk s" ?new]
    have app: "queue (s_heap s') (k_head (s_clients s' i)) (bs' @ [t, s_brk s])"
      "queue_bytes (s_heap s') (bs' @ [t, s_brk s]) = queue_bytes (s_heap s) (Q i) @ bs"
      using app fresh new by (simp_all add: assms(4) behind)
    note r = replace_queue_inv [OF inv(1-3) assms(2) same(1) app(1)]
    have r: "sv_lists s' cs ps fs" "sv_queues s' (set cs) (Q(i := bs' @ [t, s_brk s]))" "sv_fds A s' cs ps"
      "\<And>j. j \<in> set cs \<Longrightarrow> j \<noteq> i \<Longrightarrow> sv_stream s' j = sv_stream s j"
      "sv_stream s' i = tx (s_sys s') (k_fd (s_clients s i)) @ queue_bytes (s_heap s') (bs' @ [t, s_brk s])"
      by (rule r; use qd [OF _ assms(2)] in \<open>auto simp: assms(4) behind tail_ok_def less_Suc_eq\<close>)+
    have "sv_stream s' i = sv_stream s i @ bs"
      using sv_stream_eq [OF inv(2) assms(2)] r(5) app(2) by (simp add: assms(4) behind)
    moreover have "sv_kept A s cs ps fs i s'"
      using r same by (auto simp: sv_kept_def sv_inv_def assms(4) behind)
    ultimately show ?thesis by (simp add: behind(1)) (simp add: assms(4) behind)
  qed
  then show "sv_kept A s cs ps fs i s'"
    "sv_stream s' i = sv_stream s i @ (if sv_malloc_ok s then bs else [])"
    "tx (s_sys s') = tx (s_sys s)" "wscript (s_sys s') = wscript (s_sys s)"
    by blast+
qed

section \<open>Writing\<close>

text \<open>The kernel takes bytes for the socket of a connected client; its queue is left alone.\<close>

lemma sys_write_kept:
  assumes "sv_inv A s cs ps fs" "i \<in> set cs" "sys_write (k_fd (s_clients s i)) bs (s_sys s) = (res, os)"
    "s' = s\<lparr>s_sys := os\<rparr>"
  shows "sv_kept A s cs ps fs i s'"
    and "tx os (k_fd (s_clients s i)) =
      tx (s_sys s) (k_fd (s_clients s i)) @ (case res of Inl e \<Rightarrow> [] | Inr n \<Rightarrow> take n bs)"
    and "mallocs os = mallocs (s_sys s)"
proof -
  obtain Q where inv: "sv_fds A s cs ps" "sv_queues s (set cs) Q" using assms(1) by (auto simp: sv_inv_def)
  note f = sv_fdsD [OF inv(1)]
  have fd: "k_fd (s_clients s i) \<in> set (fds (s_sys s))" using f(2) assms(2) by blast
  obtain ws where os: "os = (s_sys s)\<lparr>wscript := ws, tx := (tx (s_sys s))(k_fd (s_clients s i) :=
      tx (s_sys s) (k_fd (s_clients s i)) @ (case res of Inl e \<Rightarrow> [] | Inr n \<Rightarrow> take n bs))\<rparr>"
  proof (cases res)
    case (Inl e)
    then show ?thesis using that [of "tl (wscript (s_sys s))"] sys_write_Inl(1) [OF _ fd] assms(3) by simp
  next
    case (Inr n)
    then show ?thesis using that [of "tl (wscript (s_sys s))"] sys_write_Inr(2) assms(3) by simp
  qed
  show "tx os (k_fd (s_clients s i)) =
      tx (s_sys s) (k_fd (s_clients s i)) @ (case res of Inl e \<Rightarrow> [] | Inr n \<Rightarrow> take n bs)"
    "mallocs os = mallocs (s_sys s)"
    by (simp_all add: os)
  have "k_fd (s_clients s j) \<noteq> k_fd (s_clients s i)" if "j \<in> set cs" "j \<noteq> i" for j
    using f(7) [of i j] f(9) [of i] f(9) [of j] that assms(2) by (auto simp: owned_def)
  moreover have "sv_inv A s' cs ps fs"
    using assms(1) by (subst sv_inv_cong [of s]) (simp_all add: assms(4) same_clients_def os)
  ultimately show "sv_kept A s cs ps fs i s'"
    by (auto simp: sv_kept_def sv_stream_def assms(4) os)
qed

lemma client_write_loop_effect:
  assumes "sv_inv A s cs ps fs" "i \<in> set cs" "k_head (s_clients s i) = None"
    "s' = sv_client_write_loop i bs s"
  shows "(sv_kept A s cs ps fs i s' \<and>
      (\<exists>n. sv_stream s' i = sv_stream s i @ take n bs \<and> (sv_malloc_ok s \<longrightarrow> length bs \<le> n))) \<or>
    (sv_lost A s cs ps fs i s' \<and> \<not> soft_writes (s_sys s))"
  using assms
proof (induction i bs s rule: sv_client_write_loop.induct)
  case (1 i bs s)
  show ?case
  proof (cases "bs = []")
    case True
    then show ?thesis
      using "1.prems" sv_kept_refl [of A s cs ps fs i] by (simp add: sv_client_write_loop.simps)
  next
    case False
    obtain res os where w: "sys_write (k_fd (s_clients s i)) bs (s_sys s) = (res, os)" by fastforce
    define s1 where "s1 = s\<lparr>s_sys := os\<rparr>"
    have step: "s' = (case res of
          Inr n \<Rightarrow> if n = length bs then s1 else if 0 < n then sv_client_write_loop i (drop n bs) s1
            else sv_client_pending_disconnect i s1
        | Inl e \<Rightarrow> if e = EAGAIN then sv_client_output_append i bs s1 else sv_client_pending_disconnect i s1)"
      using "1.prems"(4) False
      by (subst (asm) sv_client_write_loop.simps) (simp add: w s1_def split: sum.split)
    note k = sys_write_kept [OF "1.prems"(1,2) w s1_def]
    have s1: "sv_inv A s1 cs ps fs" "k_head (s_clients s1 i) = None" "sv_malloc_ok s1 = sv_malloc_ok s"
      using k "1.prems"(3) by (simp_all add: sv_kept_def s1_def sv_malloc_ok_def sys_malloc_def split: list.split)
    have str: "sv_stream s1 i = sv_stream s i @ (case res of Inl e \<Rightarrow> [] | Inr n \<Rightarrow> take n bs)"
    proof -
      have "heap_bytes n None h = []" for n h by (cases n) simp_all
      then show ?thesis using k(2) "1.prems"(3) by (simp add: sv_stream_def s1_def)
    qed
    have fd: "k_fd (s_clients s i) \<in> set (fds (s_sys s))"
      using "1.prems"(1,2) sv_fdsD(2) by (auto simp: sv_inv_def)
    have lost: "sv_lost A s cs ps fs i (sv_client_pending_disconnect i s1)"
      using sv_kept_trans(2) [OF k(1) pending_disconnect_lost [OF s1(1) "1.prems"(2)]] .
    note soft = soft_writes_result [OF _ fd False]
    show ?thesis
    proof (cases res)
      case (Inr n)
      have n: "n \<le> length bs" using sys_write_Inr(1) w Inr by blast
      consider "n = length bs" | "0 < n" "n \<noteq> length bs" | "n = 0" "n \<noteq> length bs" by (metis neq0_conv)
      then show ?thesis
      proof cases
        case 1
        then show ?thesis using step k(1) str by (intro disjI1 conjI exI [of _ "length bs"]) (simp_all add: Inr)
      next
        case 2
        have "(sv_kept A s1 cs ps fs i s' \<and>
            (\<exists>m. sv_stream s' i = sv_stream s1 i @ take m (drop n bs) \<and>
              (sv_malloc_ok s1 \<longrightarrow> length (drop n bs) \<le> m))) \<or>
            (sv_lost A s1 cs ps fs i s' \<and> \<not> soft_writes (s_sys s1))"
          by (rule "1.IH" [OF False w [symmetric] refl s1_def Inr])
            (use 2 "1.prems"(2) s1 step Inr in auto)
        moreover have "take n bs @ take m (drop n bs) = take (n + m) bs" for m
          by (simp add: take_add)
        moreover have "soft_writes (s_sys s) \<Longrightarrow> soft_writes (s_sys s1)"
          using sys_write_shrinks [OF w] by (auto simp: soft_writes_def os_shrinks_def s1_def)
        ultimately show ?thesis
          using sv_kept_trans(1) [OF k(1), of s'] sv_kept_trans(2) [OF k(1), of s'] str s1(3) n Inr
          by (auto simp: le_diff_conv add.commute)
      next
        case 3
        then show ?thesis
          using step lost soft(1) w by (auto simp: Inr)
      qed
    next
      case (Inl e)
      show ?thesis
      proof (cases "e = EAGAIN")
        case True
        note a = output_append_kept [OF s1(1) "1.prems"(2) False, of s']
        have "s' = sv_client_output_append i bs s1" using step by (simp add: Inl True)
        then have "sv_kept A s cs ps fs i s'" "sv_stream s' i = sv_stream s i @ (if sv_malloc_ok s then bs else [])"
          using a sv_kept_trans(1) [OF k(1)] str s1(3) by (auto simp: Inl)
        then show ?thesis
          by (metis append.right_neutral order_refl take_0 take_all)
      next
        case False
        then show ?thesis using step lost soft(2) w by (auto simp: Inl)
      qed
    qed
  qed
qed

text \<open>\<open>client_write\<close>: the bytes join the stream, as long as memory lasts, or the client is given up.\<close>

lemma client_write_effect:
  assumes "sv_inv A s cs ps fs" "i \<in> set cs" "bs \<noteq> []" "s' = sv_client_write i bs s"
  shows "(sv_kept A s cs ps fs i s' \<and>
      (\<exists>n. sv_stream s' i = sv_stream s i @ take n bs \<and> (sv_malloc_ok s \<longrightarrow> length bs \<le> n))) \<or>
    (sv_lost A s cs ps fs i s' \<and> \<not> soft_writes (s_sys s))"
proof (cases "k_head (s_clients s i) = None")
  case True
  then show ?thesis
    using client_write_loop_effect [OF assms(1,2) True, of s' bs] assms(4) by (simp add: sv_client_write_def)
next
  case False
  then have s': "s' = sv_client_output_append i bs s" using assms(4) by (simp add: sv_client_write_def)
  have "sv_stream s' i = sv_stream s i @ take (if sv_malloc_ok s then length bs else 0) bs"
    using output_append_kept(2) [OF assms(1-3) s'] by simp
  then show ?thesis using output_append_kept(1) [OF assms(1-3) s'] by fastforce
qed

text \<open>A client whose disconnection is pending takes nothing.\<close>

lemma client_write_down:
  assumes "k_fd (s_clients s i) = - 1" "k_head (s_clients s i) = None" "- 1 \<notin> set (fds (s_sys s))"
  shows "sv_client_write i bs s = s"
proof -
  have "sys_write (k_fd (s_clients s i)) bs (s_sys s) = (Inl EBADF, s_sys s)"
    using assms by (simp add: os_simps)
  then show ?thesis
    using assms
    by (subst sv_client_write_def) (subst sv_client_write_loop.simps, simp add: Let_def sv_client_pending_disconnect_def)
qed

lemma client_write_pending:
  assumes "sv_inv A s cs ps fs" "i \<in> set ps"
  shows "sv_client_write i bs s = s"
  by (rule client_write_down) (use assms sv_fdsD(5,6,11) [of A s cs ps] in \<open>auto simp: sv_inv_def\<close>)

lemma client_write_inv:
  assumes "sv_inv A s cs ps fs" "i \<in> set cs \<or> i \<in> set ps" "bs \<noteq> []"
  shows "\<exists>cs' ps'. sv_inv A (sv_client_write i bs s) cs' ps' fs \<and>
     ((cs', ps') = (cs, ps) \<or> i \<in> set cs \<and> (cs', ps') = (remove1 i cs, i # ps))"
proof (cases "i \<in> set cs")
  case True
  then show ?thesis
    using client_write_effect [OF assms(1) True assms(3) refl] by (auto simp: sv_kept_def sv_lost_def)
next
  case False
  then show ?thesis using client_write_pending [OF assms(1)] assms by simp
qed

section \<open>Sending what is queued\<close>

text \<open>
  The loop of \<open>process_client_socket_out\<close>: what is left is an end of the queue. While the
  system only takes less than it is offered or says \<open>EAGAIN\<close>, nothing is lost or repeated.
\<close>

definition sent_some :: "nat \<Rightarrow> nat list \<Rightarrow> nat list \<Rightarrow> ('u, 'i, 'o) server \<Rightarrow> ('u, 'i, 'o) server \<Rightarrow> bool" where
  "sent_some i as as' s s' \<longleftrightarrow>
     (\<exists>bs. as = bs @ as') \<and> s' = s\<lparr>s_sys := s_sys s', s_heap := s_heap s'\<rparr> \<and>
     (\<forall>a. a \<notin> set as \<longrightarrow> s_heap s' a = s_heap s a) \<and> (\<forall>a \<in> set as - set as'. s_heap s' a = None) \<and>
     fds (s_sys s') = fds (s_sys s) \<and>
     (\<forall>d. d \<noteq> k_fd (s_clients s i) \<longrightarrow> tx (s_sys s') d = tx (s_sys s) d) \<and>
     tx (s_sys s') (k_fd (s_clients s i)) @ queue_bytes (s_heap s') as' =
       tx (s_sys s) (k_fd (s_clients s i)) @ queue_bytes (s_heap s) as \<and>
     (wscript (s_sys s) = [] \<longrightarrow> as' = [])"

lemma sent_some_step:
  assumes "sent_some i bs as' s2 s'" "as = ds @ bs"
    "s2 = s\<lparr>s_sys := s_sys s2, s_heap := s_heap s2\<rparr>" "s_clients s2 = s_clients s"
    "fds (s_sys s2) = fds (s_sys s)"
    "\<And>d. d \<noteq> k_fd (s_clients s i) \<Longrightarrow> tx (s_sys s2) d = tx (s_sys s) d"
    "\<And>b. b \<notin> set as \<Longrightarrow> s_heap s2 b = s_heap s b" "\<And>b. b \<in> set ds \<Longrightarrow> s_heap s2 b = None \<and> b \<notin> set bs"
    "tx (s_sys s2) (k_fd (s_clients s i)) @ queue_bytes (s_heap s2) bs =
       tx (s_sys s) (k_fd (s_clients s i)) @ queue_bytes (s_heap s) as"
    "wscript (s_sys s) = [] \<Longrightarrow> wscript (s_sys s2) = []"
  shows "sent_some i as as' s s'"
proof -
  note o = assms(1) [unfolded sent_some_def assms(4)]
  have "s' = s2\<lparr>s_sys := s_sys s', s_heap := s_heap s'\<rparr>" using o by blast
  then have "s' = s\<lparr>s_sys := s_sys s', s_heap := s_heap s'\<rparr>" by (subst (asm) assms(3)) simp
  moreover have "\<exists>cs. as = cs @ as'" using o assms(2) by (metis append.assoc)
  moreover have "s_heap s' b = s_heap s b" if "b \<notin> set as" for b
    using o assms(7) [OF that] that assms(2) by simp
  moreover have "s_heap s' b = None" if "b \<in> set as - set as'" for b
    using o assms(8) [of b] that assms(2) by (cases "b \<in> set bs") auto
  ultimately show ?thesis
    using o assms(5,6,9,10) unfolding sent_some_def by auto
qed

lemma write_items_sends:
  assumes "queue (s_heap s) p as" "k_fd (s_clients s i) \<in> set (fds (s_sys s))" "soft_writes (s_sys s)"
    "length (wscript (s_sys s)) + length as \<le> n" "sv_write_items i n p s = (p', s')"
  shows "\<exists>as'. queue (s_heap s') p' as' \<and> sent_some i as as' s s'"
  using assms
proof (induction n arbitrary: p as s)
  case 0
  then show ?case by (auto simp: sent_some_def)
next
  case (Suc n)
  show ?case
  proof (cases as)
    case Nil
    then show ?thesis using Suc.prems(1,5) by (auto simp: sent_some_def)
  next
    case (Cons a bs)
    then obtain it where q: "p = Some a" "a \<notin> set bs" "s_heap s a = Some it" "item_ok it"
        "queue (s_heap s) (it_next it) bs"
      using Suc.prems(1) by (auto simp: queue_Cons)
    let ?fd = "k_fd (s_clients s i)"
    have len: "length (item_bytes it) = it_size it" "item_bytes it \<noteq> []"
      using q(4) by (auto simp: item_bytes_def item_ok_def)
    obtain res os where w: "sys_write ?fd (item_bytes it) (s_sys s) = (res, os)" by fastforce
    note soft = soft_writes_result [OF Suc.prems(3,2) len(2)]
    have so: "soft_writes os" using sys_write_shrinks [OF w] Suc.prems(3)
      by (auto simp: soft_writes_def os_shrinks_def)
    define s1 where "s1 = s\<lparr>s_sys := os\<rparr>"
    have step: "sv_write_items i (Suc n) p s = (case res of
          Inr m \<Rightarrow>
            if m = it_size it then sv_write_items i n (it_next it) (s1\<lparr>s_heap := (s_heap s)(a := None)\<rparr>)
            else if m > 0
            then sv_write_items i n p (s1\<lparr>s_heap := (s_heap s)
                   (a \<mapsto> it\<lparr>it_offset := it_offset it + m, it_size := it_size it - m\<rparr>)\<rparr>)
            else (p, sv_client_pending_disconnect i s1)
        | Inl e \<Rightarrow> if e = EAGAIN then (p, s1) else (p, sv_client_pending_disconnect i s1))"
      using w by (simp add: q item_bytes_def sv_free_item_def s1_def Let_def split: sum.split)
    show ?thesis
    proof (cases res)
      case (Inl e)
      then have "e = EAGAIN" using soft(2) w by blast
      then have "p' = p" "s' = s1" using step Suc.prems(5) by (simp_all add: Inl)
      moreover have "os = (s_sys s)\<lparr>wscript := tl (wscript (s_sys s))\<rparr>" "wscript (s_sys s) \<noteq> []"
        using sys_write_Inl [OF _ Suc.prems(2)] w Inl by auto
      ultimately show ?thesis
        using Suc.prems(1) by (intro exI [of _ as]) (simp add: sent_some_def s1_def)
    next
      case (Inr m)
      note wr = sys_write_Inr [OF w [unfolded Inr]]
      have m: "0 < m" "m \<le> it_size it" using soft(1) w Inr wr(1) len by auto
      have fewer: "length (wscript os) + length bs \<le> n" "m \<noteq> it_size it \<Longrightarrow> length (wscript os) + length as \<le> n"
        using Suc.prems(4) wr(2,3) len Cons by (auto simp: neq_Nil_conv) (cases "wscript (s_sys s)"; auto)
      show ?thesis
      proof (cases "m = it_size it")
        case True
        define s2 where "s2 = s1\<lparr>s_heap := (s_heap s)(a := None)\<rparr>"
        have s2: "s_sys s2 = os" "k_fd (s_clients s2 i) \<in> set (fds (s_sys s2))" "soft_writes (s_sys s2)"
          using Suc.prems(2) so fds_results(7) [OF w] by (simp_all add: s2_def s1_def)
        have "sv_write_items i n (it_next it) s2 = (p', s')"
          using step Suc.prems(5) by (simp add: Inr True s2_def)
        moreover have heap: "s_heap s2 = (s_heap s)(a := None)" by (simp add: s2_def)
        have "queue (s_heap s2) (it_next it) bs"
          by (simp only: heap queue_upd [OF q(2)] q(5))
        ultimately obtain as' where as': "queue (s_heap s') p' as'" "sent_some i bs as' s2 s'"
          using Suc.IH [OF _ _ _ fewer(1) [folded s2(1)]] s2 by blast
        have "sent_some i as as' s s'"
        proof (rule sent_some_step [OF as'(2), of _ "[a]"])
          show "tx (s_sys s2) ?fd @ queue_bytes (s_heap s2) bs = tx (s_sys s) ?fd @ queue_bytes (s_heap s) as"
            unfolding heap queue_bytes_upd [OF q(2)] using q(3) wr(2) True len s2(1) Cons by simp
        qed (use q(2) wr(2) Cons in \<open>simp_all add: s2_def s1_def\<close>)
        then show ?thesis using as'(1) by blast
      next
        case False
        let ?it = "it\<lparr>it_offset := it_offset it + m, it_size := it_size it - m\<rparr>"
        define s2 where "s2 = s1\<lparr>s_heap := (s_heap s)(a \<mapsto> ?it)\<rparr>"
        have s2: "s_sys s2 = os" "k_fd (s_clients s2 i) \<in> set (fds (s_sys s2))" "soft_writes (s_sys s2)"
          using Suc.prems(2) so fds_results(7) [OF w] by (simp_all add: s2_def s1_def)
        have "sv_write_items i n p s2 = (p', s')"
          using step Suc.prems(5) m by (simp add: Inr False s2_def)
        moreover have heap: "s_heap s2 = (s_heap s)(a \<mapsto> ?it)" by (simp add: s2_def)
        have "queue (s_heap s2) (it_next ?it) bs"
          by (simp only: heap queue_upd [OF q(2)]) (simp add: q(5))
        then have "queue (s_heap s2) p as"
          using q m False by (simp add: heap Cons queue_Cons item_ok_def)
        ultimately obtain as' where as': "queue (s_heap s') p' as'" "sent_some i as as' s2 s'"
          using Suc.IH [OF _ _ _ fewer(2) [OF False, folded s2(1)]] s2 by blast
        have cut: "take m (item_bytes it) @ item_bytes ?it = item_bytes it"
          using q(4) m take_add [of m "it_size it - m" "drop (it_offset it) (it_data it)"]
          by (simp add: item_bytes_def item_ok_def min_def add.commute) linarith
        have "sent_some i as as' s s'"
        proof (rule sent_some_step [OF as'(2), of _ "[]"])
          show "tx (s_sys s2) ?fd @ queue_bytes (s_heap s2) as = tx (s_sys s) ?fd @ queue_bytes (s_heap s) as"
            unfolding heap Cons using q(2,3) wr(2) s2(1) cut by simp
        qed (use wr(2) Cons in \<open>simp_all add: s2_def s1_def\<close>)
        then show ?thesis using as'(1) by blast
      qed
    qed
  qed
qed

text \<open>
  \<open>process_client_socket_out\<close>: the stream of the client does not change, what is sent goes from
  the queue to the kernel; if the kernel takes everything, the queue is empty afterwards.
\<close>

lemma process_out_effect:
  assumes "sv_inv A s cs ps fs" "i \<in> set cs" "soft_writes (s_sys s)"
    "s' = sv_process_client_socket_out i s"
  shows "sv_kept A s cs ps fs i s'" "sv_stream s' i = sv_stream s i"
    "wscript (s_sys s) = [] \<Longrightarrow> k_head (s_clients s' i) = None"
proof -
  obtain Q where inv: "sv_lists s cs ps fs" "sv_queues s (set cs) Q" "sv_fds A s cs ps" "\<not> s_fault s" "\<not> s_hang s"
    using assms(1) by (auto simp: sv_inv_def)
  note q = sv_queuesD(1,2) [OF inv(2) assms(2)] sv_queuesD(5) [OF inv(2)]
  note short = queue_short [OF q(1,3)]
  have fd: "k_fd (s_clients s i) \<in> set (fds (s_sys s))" using sv_fdsD(2) [OF inv(3) assms(2)] .
  obtain p s1 where w: "sv_write_items i (length (wscript (s_sys s)) + s_brk s) (k_head (s_clients s i)) s = (p, s1)"
    by fastforce
  obtain as where as: "queue (s_heap s1) p as" "sent_some i (Q i) as s s1"
    using write_items_sends [OF q(1) fd assms(3) _ w] short by auto
  note o = as(2) [unfolded sent_some_def]
  have s1: "s1 = s\<lparr>s_sys := s_sys s1, s_heap := s_heap s1\<rparr>" using o by blast
  define s2 where "s2 = sv_upd i (\<lambda>c. c\<lparr>k_head := p\<rparr>) s1"
  have c: "s_clients s1 = s_clients s" "s_brk s1 = s_brk s" "s_connected s1 = s_connected s"
    "s_pending s1 = s_pending s" "s_free s1 = s_free s" "s_max s1 = s_max s" "s_fault s1 = s_fault s"
    "s_hang s1 = s_hang s"
    by (subst s1, simp)+
  have same: "same_but_queue i s s2"
    using o by (simp add: same_but_queue_def c s2_def)
  obtain ds where ds: "Q i = ds @ as" using o by blast
  have tail: "tail_ok (s_clients s2 i) as"
    using q(2) by (auto simp: tail_ok_def s2_def c ds)
  have brk: "a < s_brk s" if "a \<in> set (Q i)" for a
    using sv_queuesD(4,5) [OF inv(2)] assms(2) that by blast
  note r = replace_queue_inv [OF inv(1-3) assms(2) same, of as]
  have r: "sv_lists s2 cs ps fs" "sv_queues s2 (set cs) (Q(i := as))" "sv_fds A s2 cs ps"
    "\<And>j. j \<in> set cs \<Longrightarrow> j \<noteq> i \<Longrightarrow> sv_stream s2 j = sv_stream s j"
    "sv_stream s2 i = tx (s_sys s2) (k_fd (s_clients s i)) @ queue_bytes (s_heap s2) as"
    by (rule r; use o tail as(1) ds brk in \<open>auto simp: s2_def c\<close>)+
  have f: "\<not> s_fault s2" "\<not> s_hang s2" using same inv by (simp_all add: same_but_queue_def)
  have kept2: "sv_kept A s cs ps fs i s2"
    using r f by (auto simp: sv_kept_def sv_inv_def s2_def c)
  have str2: "sv_stream s2 i = sv_stream s i"
    using o r(5) sv_stream_eq [OF inv(2) assms(2)] by (simp add: s2_def)
  have drained: "wscript (s_sys s) = [] \<Longrightarrow> p = None" using o as(1) by auto
  have s': "s' = (if p = None then sv_epoll_ctl_mod (k_fd (s_clients s2 i)) EPOLLIN s2 else s2)"
    using assms(4) by (simp add: sv_process_client_socket_out_def w s2_def Let_def)
  obtain os where os: "sv_epoll_ctl_mod (k_fd (s_clients s2 i)) EPOLLIN s2 = s2\<lparr>s_sys := os\<rparr>"
    "fds os = fds (s_sys s2)" "tx os = tx (s_sys s2)"
    using sv_epoll_ctl_mod_eq by blast
  have "sv_inv A (s2\<lparr>s_sys := os\<rparr>) cs ps fs"
    using kept2 by (subst sv_inv_cong [of s2]) (simp_all add: same_clients_def os sv_kept_def)
  then have "sv_kept A s2 cs ps fs i (s2\<lparr>s_sys := os\<rparr>)" "sv_stream (s2\<lparr>s_sys := os\<rparr>) i = sv_stream s2 i"
    by (simp_all add: sv_kept_def sv_stream_def os)
  then show "sv_kept A s cs ps fs i s'" "sv_stream s' i = sv_stream s i"
    using kept2 str2 sv_kept_trans(1) [OF kept2] by (auto simp: s' os(1))
  show "wscript (s_sys s) = [] \<Longrightarrow> k_head (s_clients s' i) = None"
    using drained by (simp add: s' server_simps s2_def)
qed

end
