(* ===== verification/LinuxServerCalls.thy ===== *)
theory LinuxServerCalls
  imports LinuxServerOutput
begin

text \<open>
  What an application may do in a callback, and messages from clients: the invariant is kept,
  and a broadcast reaches every connected client. An application refers to clients by pointers;
  the requests are those that only refer to the client of the callback.
\<close>

section \<open>Applications\<close>

fun request_for :: "nat \<Rightarrow> 'o server_request \<Rightarrow> bool" where
  "request_for i (Send_to j) \<longleftrightarrow> j = i"
| "request_for i (Disconnect_client p) \<longleftrightarrow> p = None \<or> p = Some i"
| "request_for i _ \<longleftrightarrow> True"

fun is_broadcast :: "'o server_request \<Rightarrow> bool" where
  "is_broadcast Broadcast \<longleftrightarrow> True"
| "is_broadcast _ \<longleftrightarrow> False"

definition server_app_ok :: "('u, 'i, 'o) server \<Rightarrow> bool" where
  "server_app_ok s \<longleftrightarrow>
     (\<forall>i u. \<forall>r \<in> set (snd (s_on_client_connected s i u)). request_for i r) \<and>
     (\<forall>i u. \<forall>r \<in> set (snd (s_on_client_disconnected s i u)). request_for i r \<and> \<not> is_broadcast r) \<and>
     (\<forall>c cb i m u. s_on_message s c = Some cb \<longrightarrow> (\<forall>r \<in> set (snd (cb i m u)). request_for i r))"

text \<open>The generated code: encoding fits, and the workspace is large enough for a message.\<close>

definition server_codec_ok :: "('i, 'o) codec \<Rightarrow> ('u, 'i, 'o) server \<Rightarrow> bool" where
  "server_codec_ok k s \<longleftrightarrow> codec_fits k \<and> out_new k (s_out_workspace_size s) \<noteq> None"

definition sv_buffers_ok :: "('u, 'i, 'o) server \<Rightarrow> bool" where
  "sv_buffers_ok s \<longleftrightarrow>
     s_out_size s = length (s_out_buf s) \<and> header_sizeof \<le> s_out_size s \<and> s_out_size s < 2 ^ 64"

definition sv_active :: "nat list \<Rightarrow> ('u, 'i, 'o) server \<Rightarrow> nat \<Rightarrow> bool" where
  "sv_active fs s i \<longleftrightarrow> i < s_max s \<and> i \<notin> set fs"

definition sv_good :: "fd set \<Rightarrow> nat list \<Rightarrow> ('u, 'i, 'o) server \<Rightarrow> bool" where
  "sv_good A fs s \<longleftrightarrow> (\<exists>cs ps. sv_inv A s cs ps fs) \<and> sv_buffers_ok s \<and>
     (\<forall>i. s_current s = Some i \<longrightarrow> sv_active fs s i)"

lemma sv_inv_lists: "sv_inv A s cs ps fs \<Longrightarrow> sv_lists s cs ps fs"
  by (simp add: sv_inv_def)

lemma sv_active_iff:
  assumes "sv_inv A s cs ps fs"
  shows "sv_active fs s i \<longleftrightarrow> i \<in> set cs \<or> i \<in> set ps"
proof -
  have "set (cs @ ps @ fs) = {0..<s_max s}" "distinct (cs @ ps @ fs)"
    using sv_inv_lists [OF assms] by (simp_all add: sv_lists_def)
  then have "i < s_max s \<longleftrightarrow> i \<in> set cs \<or> i \<in> set ps \<or> i \<in> set fs" "i \<in> set fs \<longrightarrow> i \<notin> set cs \<and> i \<notin> set ps"
    by (auto simp: set_eq_iff)
  then show ?thesis by (auto simp: sv_active_def)
qed

lemma sv_good_obs:
  assumes "sv_cfg s' = sv_cfg s" "sv_obs s' = sv_obs s"
  shows "sv_buffers_ok s' = sv_buffers_ok s" "s_current s' = s_current s" "sv_active fs s' i = sv_active fs s i"
    "server_codec_ok k s' = server_codec_ok k s" "server_app_ok s' = server_app_ok s"
  using sv_cfgD [OF assms(1)] sv_obsD [OF assms(2)]
  by (simp_all add: sv_buffers_ok_def sv_active_def server_codec_ok_def server_app_ok_def)

lemma sv_good_quiet:
  assumes "sv_good A fs s" "sv_quiet s s'" "\<exists>cs ps. sv_inv A s' cs ps fs"
  shows "sv_good A fs s'"
proof -
  have "sv_cfg s' = sv_cfg s" "sv_obs s' = sv_obs s" using assms(2) by (simp_all add: sv_quiet_def)
  note o = sv_good_obs [OF this]
  show ?thesis using assms(1,3) by (simp add: sv_good_def o)
qed

text \<open>A client and a frame: what the application sends.\<close>

lemma client_write_good:
  assumes "sv_good A fs s" "sv_active fs s i" "bs \<noteq> []"
  shows "sv_good A fs (sv_client_write i bs s)"
proof (rule sv_good_quiet [OF assms(1)])
  obtain cs ps where inv: "sv_inv A s cs ps fs" using assms(1) by (auto simp: sv_good_def)
  then show "\<exists>cs ps. sv_inv A (sv_client_write i bs s) cs ps fs"
    using client_write_inv [OF inv _ assms(3), of i] assms(2) sv_active_iff [OF inv] by blast
qed simp

lemma pending_disconnect_good:
  assumes "sv_good A fs s" "sv_active fs s i"
  shows "sv_good A fs (sv_client_pending_disconnect i s)"
proof (rule sv_good_quiet [OF assms(1)])
  obtain cs ps where inv: "sv_inv A s cs ps fs" using assms(1) by (auto simp: sv_good_def)
  then show "\<exists>cs ps. sv_inv A (sv_client_pending_disconnect i s) cs ps fs"
    using pending_disconnect_lost [OF inv, of i] pending_disconnect_pending [OF inv, of i] assms(2)
    unfolding sv_active_iff [OF inv] sv_lost_def by metis
qed simp

section \<open>Encoding\<close>

text \<open>The parts of the state that the invariant of the connections does not read.\<close>

lemma sv_inv_updates [simp]:
  "sv_inv A (s\<lparr>s_out_message := m\<rparr>) cs ps fs = sv_inv A s cs ps fs"
  "sv_inv A (s\<lparr>s_out_buf := bf\<rparr>) cs ps fs = sv_inv A s cs ps fs"
  "sv_inv A (s\<lparr>s_app := u\<rparr>) cs ps fs = sv_inv A s cs ps fs"
  "sv_inv A (s\<lparr>s_log := l\<rparr>) cs ps fs = sv_inv A s cs ps fs"
  "sv_inv A (s\<lparr>s_current := p\<rparr>) cs ps fs = sv_inv A s cs ps fs"
  "sv_inv A (s\<lparr>s_in_message := im\<rparr>) cs ps fs = sv_inv A s cs ps fs"
  by (rule sv_inv_cong; simp add: same_clients_def)+

lemma sv_stream_updates [simp]:
  "sv_stream (s\<lparr>s_out_message := m\<rparr>) i = sv_stream s i"
  "sv_stream (s\<lparr>s_out_buf := bf\<rparr>) i = sv_stream s i"
  "sv_stream (s\<lparr>s_app := u\<rparr>) i = sv_stream s i" "sv_stream (s\<lparr>s_log := l\<rparr>) i = sv_stream s i"
  "sv_stream (s\<lparr>s_current := p\<rparr>) i = sv_stream s i"
  "sv_stream (s\<lparr>s_in_message := im\<rparr>) i = sv_stream s i"
  by (simp_all add: sv_stream_def)

lemma encode_good_cases:
  assumes "sv_buffers_ok s" "codec_fits k"
  obtains (none) "out_encode k (s_out_message s) (s_out_size s - header_sizeof) = None"
      "sv_encode_user_message k s = (None, s)"
  | (some) payload buf where
      "out_encode k (s_out_message s) (s_out_size s - header_sizeof) = Some payload"
      "sv_encode_user_message k s = (Some (length payload + header_sizeof), s\<lparr>s_out_buf := buf\<rparr>)"
      "take (length payload + header_sizeof) buf = frame (MESSI_MESSAGE_TYPE_SERVER_TO_CLIENT_USER, payload)"
      "length buf = length (s_out_buf s)"
proof -
  have sz: "size_sub (s_out_size s) header_sizeof = s_out_size s - header_sizeof"
    using assms(1) by (simp add: sv_buffers_ok_def)
  show ?thesis
  proof (cases rule: encode_cases [of k s])
    case none
    then show ?thesis using that(1) by (simp add: sz)
  next
    case (some payload buf fault)
    have "header_sizeof + length payload \<le> length (s_out_buf s)"
      using assms some(1) unfolding sz codec_fits_def sv_buffers_ok_def by fastforce
    then show ?thesis
      using that(2) [OF some(1) [unfolded sz], of buf] some assms(1)
      by (simp add: sv_buffers_ok_def)
  qed
qed

lemma frame_not_empty: "frame f \<noteq> []"
  by (simp add: frame_def header_bytes_def)

lemma sv_good_out_buf:
  "sv_good A fs s \<Longrightarrow> length bf = length (s_out_buf s) \<Longrightarrow> sv_good A fs (s\<lparr>s_out_buf := bf\<rparr>)"
  by (simp add: sv_good_def sv_buffers_ok_def sv_active_def)

lemma server_send_good:
  assumes "sv_good A fs s" "sv_active fs s i" "codec_fits k"
  shows "sv_good A fs (server_send k i s)"
proof -
  have "sv_buffers_ok s" using assms(1) by (simp add: sv_good_def)
  then show ?thesis
    using assms(3)
  proof (cases rule: encode_good_cases)
    case (some payload buf)
    have "sv_active fs (s\<lparr>s_out_buf := buf\<rparr>) i" using assms(2) by (simp add: sv_active_def)
    then show ?thesis
      using client_write_good [OF sv_good_out_buf [OF assms(1) some(4)]] some(2,3) frame_not_empty
      by (simp add: server_send_def)
  qed (simp add: server_send_def assms)
qed

section \<open>Broadcast\<close>

definition hd_ptr :: "nat list \<Rightarrow> ptr" where
  "hd_ptr xs = (case xs of [] \<Rightarrow> None | x # _ \<Rightarrow> Some x)"

lemma lseg_hd: "lseg f p xs \<Longrightarrow> p = hd_ptr xs"
  by (cases xs) (simp_all add: hd_ptr_def)

lemma lists_next: "sv_lists s (us @ v # vs) ps fs \<Longrightarrow> nxt s v = hd_ptr vs"
  using lseg_hd by (auto simp: sv_lists_def lseg_append)

text \<open>
  The loop over the connected clients, from any of them on: a client that is given up on the way
  does not stop the loop; without failures all get the bytes and all stay.
\<close>

lemma broadcast_loop_effect:
  assumes "sv_inv A s (us @ vs) ps fs" "p = hd_ptr vs" "length vs \<le> n" "bs \<noteq> []"
  shows "\<exists>cs' ps'. sv_inv A (sv_broadcast_loop n p bs s) cs' ps' fs \<and>
    (smooth (s_sys s) \<longrightarrow> cs' = us @ vs \<and> ps' = ps \<and>
      (\<forall>j \<in> set us. sv_stream (sv_broadcast_loop n p bs s) j = sv_stream s j) \<and>
      (\<forall>j \<in> set vs. sv_stream (sv_broadcast_loop n p bs s) j = sv_stream s j @ bs))"
  using assms
proof (induction vs arbitrary: us ps s p n)
  case Nil
  then show ?case by (cases n) (auto simp: hd_ptr_def)
next
  case (Cons v vs)
  obtain m where n: "n = Suc m" "length vs \<le> m" using Cons.prems(3) by (cases n) auto
  define s1 where "s1 = sv_client_write v bs s"
  have p: "p = Some v" "nxt s v = hd_ptr vs"
    using Cons.prems(2) lists_next [OF sv_inv_lists [OF Cons.prems(1)]] by (simp_all add: hd_ptr_def)
  have loop: "sv_broadcast_loop n p bs s = sv_broadcast_loop m (hd_ptr vs) bs s1"
    by (simp add: n p s1_def)
  have quiet: "os_shrinks (s_sys s) (s_sys s1)"
    using client_write_quiet [OF sv_quiet_refl, of s v bs] unfolding sv_quiet_def s1_def by (elim conjE)
  have d: "v \<notin> set us" "v \<notin> set vs" "set us \<inter> set vs = {}"
    using pool.pool_distinct [OF sv_inv_lists [OF Cons.prems(1)]] by auto
  have "(sv_kept A s (us @ v # vs) ps fs v s1 \<and>
      (\<exists>n. sv_stream s1 v = sv_stream s v @ take n bs \<and> (sv_malloc_ok s \<longrightarrow> length bs \<le> n))) \<or>
    (sv_lost A s (us @ v # vs) ps fs v s1 \<and> \<not> soft_writes (s_sys s))"
    by (rule client_write_effect [OF Cons.prems(1) _ Cons.prems(4)]) (simp_all add: s1_def)
  then show ?case
  proof
    assume kept: "sv_kept A s (us @ v # vs) ps fs v s1 \<and>
      (\<exists>n. sv_stream s1 v = sv_stream s v @ take n bs \<and> (sv_malloc_ok s \<longrightarrow> length bs \<le> n))"
    then have "sv_inv A s1 ((us @ [v]) @ vs) ps fs" by (simp add: sv_kept_def)
    from Cons.IH [OF this refl n(2) Cons.prems(4)]
    obtain cs' ps' where IH: "sv_inv A (sv_broadcast_loop n p bs s) cs' ps' fs"
      "smooth (s_sys s1) \<longrightarrow> cs' = (us @ [v]) @ vs \<and> ps' = ps \<and>
        (\<forall>j \<in> set (us @ [v]). sv_stream (sv_broadcast_loop n p bs s) j = sv_stream s1 j) \<and>
        (\<forall>j \<in> set vs. sv_stream (sv_broadcast_loop n p bs s) j = sv_stream s1 j @ bs)"
      unfolding loop by blast
    have "smooth (s_sys s) \<Longrightarrow> sv_stream s1 v = sv_stream s v @ bs"
      using kept smooth_malloc by (auto simp: sv_malloc_ok_def)
    then show ?thesis
      using IH kept smooth_shrinks [OF quiet] d
      by (intro exI [of _ cs'] exI [of _ ps']) (auto simp: sv_kept_def)
  next
    assume lost: "sv_lost A s (us @ v # vs) ps fs v s1 \<and> \<not> soft_writes (s_sys s)"
    then have "sv_inv A s1 (us @ vs) (v # ps) fs"
      using d by (simp add: sv_lost_def remove1_append)
    from Cons.IH [OF this refl n(2) Cons.prems(4)] show ?thesis
      using lost unfolding loop by (auto simp: smooth_def)
  qed
qed

lemma server_broadcast_good:
  assumes "sv_good A fs s" "codec_fits k"
  shows "sv_good A fs (server_broadcast k s)"
proof -
  have "sv_buffers_ok s" using assms(1) by (simp add: sv_good_def)
  then show ?thesis
    using assms(2)
  proof (cases rule: encode_good_cases)
    case (some payload buf)
    let ?s = "s\<lparr>s_out_buf := buf\<rparr>"
    let ?bs = "frame (MESSI_MESSAGE_TYPE_SERVER_TO_CLIENT_USER, payload)"
    have good: "sv_good A fs ?s" by (rule sv_good_out_buf [OF assms(1) some(4)])
    then obtain cs ps where inv: "sv_inv A ?s cs ps fs" by (auto simp: sv_good_def)
    note l = sv_inv_lists [OF inv]
    have "length cs \<le> s_max ?s"
    proof -
      have "distinct cs" "set cs \<subseteq> {0..<s_max ?s}" using l by (auto simp: sv_lists_def)
      then show ?thesis by (metis card_atLeastLessThan card_mono diff_zero distinct_card finite_atLeastLessThan)
    qed
    moreover have "s_connected ?s = hd_ptr cs" using l lseg_hd by (auto simp: sv_lists_def)
    ultimately obtain cs' ps' where "sv_inv A (sv_broadcast_loop (s_max ?s) (s_connected ?s) ?bs ?s) cs' ps' fs"
      using broadcast_loop_effect [of A ?s "[]" cs ps fs "s_connected ?s" "s_max ?s" ?bs] inv frame_not_empty
      by auto
    then have "sv_good A fs (sv_broadcast_loop (s_max ?s) (s_connected ?s) ?bs ?s)"
      by (intro sv_good_quiet [OF good]) auto
    then show ?thesis using some(2,3) by (simp add: server_broadcast_def)
  qed (simp add: server_broadcast_def assms)
qed

section \<open>Callbacks\<close>

lemma init_message_eq:
  assumes "server_codec_ok k s"
  obtains m where "server_init_message k a s = s\<lparr>s_out_message := m\<rparr>"
  using assms
  by (auto simp: server_codec_ok_def server_init_message_def server_new_output_message_def Let_def)

lemma server_call_good:
  assumes "sv_good A fs s" "sv_active fs s i" "server_codec_ok k s" "request_for i r"
  shows "sv_good A fs (server_call k r s)"
proof (cases r)
  case (Prepare_message a)
  obtain m where "server_init_message k a s = s\<lparr>s_out_message := m\<rparr>"
    using init_message_eq [OF assms(3)] .
  then show ?thesis
    using assms(1) by (simp add: Prepare_message sv_good_def sv_buffers_ok_def sv_active_def)
next
  case (Send_to j)
  then show ?thesis
    using server_send_good [OF assms(1,2)] assms(3,4) by (simp add: server_codec_ok_def)
next
  case Reply
  then show ?thesis
    using server_send_good [OF assms(1)] assms(1,3)
    by (auto simp: server_codec_ok_def server_reply_def sv_good_def split: option.split)
next
  case Broadcast
  then show ?thesis
    using server_broadcast_good [OF assms(1)] assms(3) by (simp add: server_codec_ok_def)
next
  case (Disconnect_client p)
  then show ?thesis
    using pending_disconnect_good [OF assms(1)] assms
    by (auto simp: server_disconnect_def sv_good_def Let_def split: option.split)
qed

lemma sv_keepsD:
  assumes "sv_keeps s s'"
  shows "sv_cfg s' = sv_cfg s" "os_shrinks (s_sys s) (s_sys s')"
  using assms by (simp_all add: sv_keeps_def)

lemma sv_cfg_ok:
  assumes "sv_cfg s' = sv_cfg s"
  shows "sv_active fs s' i = sv_active fs s i" "server_codec_ok k s' = server_codec_ok k s"
    "server_app_ok s' = server_app_ok s"
  using sv_cfgD [OF assms] by (simp_all add: sv_active_def server_codec_ok_def server_app_ok_def)

lemma sv_keeps_ok:
  assumes "sv_keeps s s'"
  shows "sv_active fs s' i = sv_active fs s i" "server_codec_ok k s' = server_codec_ok k s"
    "server_app_ok s' = server_app_ok s"
  using sv_cfgD [of s' s] assms
  by (simp_all add: sv_keeps_def sv_active_def server_codec_ok_def server_app_ok_def)

lemma server_calls_good:
  assumes "sv_good A fs s" "sv_active fs s i" "server_codec_ok k s" "\<forall>r \<in> set rs. request_for i r"
  shows "sv_good A fs (fold (server_call k) rs s)"
  using assms
proof (induction rs arbitrary: s)
  case (Cons r rs)
  have "sv_good A fs (server_call k r s)" using server_call_good [OF Cons.prems(1-3)] Cons.prems(4) by simp
  then show ?case
    using Cons.IH [of "server_call k r s"] Cons.prems by (simp add: sv_keeps_ok [OF server_call_keeps])
qed simp

lemma callback_good:
  assumes "sv_good A fs s" "sv_active fs s i" "server_codec_ok k s" "\<forall>u. \<forall>r \<in> set (snd (cb u)). request_for i r"
  shows "sv_good A fs (sv_callback k cb ev s)"
proof -
  obtain u rs where cb: "cb (s_app s) = (u, rs)" by fastforce
  let ?s = "s\<lparr>s_app := u, s_log := s_log s @ [ev]\<rparr>"
  have "sv_good A fs ?s" using assms(1) by (simp add: sv_good_def sv_buffers_ok_def sv_active_def)
  moreover have "\<forall>r \<in> set rs. request_for i r" using assms(4) cb by (metis snd_conv)
  ultimately show ?thesis
    using server_calls_good [of A fs ?s i k rs] assms(2,3)
    by (simp add: sv_callback_def cb sv_active_def server_codec_ok_def)
qed

text \<open>
  In the callback for a disconnected client, requests that refer to that client do nothing to
  any connection.
\<close>

lemma disconnected_call_eq:
  assumes "k_fd (s_clients s i) = - 1" "k_head (s_clients s i) = None" "- 1 \<notin> set (fds (s_sys s))"
    "server_codec_ok k s" "request_for i r" "\<not> is_broadcast r" "s_current s = None" "sv_buffers_ok s"
  obtains m buf where "server_call k r s = s\<lparr>s_out_message := m, s_out_buf := buf\<rparr>"
    "length buf = length (s_out_buf s)"
proof (cases r)
  case (Prepare_message a)
  obtain m where "server_init_message k a s = s\<lparr>s_out_message := m\<rparr>"
    using init_message_eq [OF assms(4)] .
  then show ?thesis using that [of "s_out_buf s" m] by (simp add: Prepare_message)
next
  case (Send_to j)
  have "codec_fits k" using assms(4) by (simp add: server_codec_ok_def)
  with assms(8) show ?thesis
  proof (cases rule: encode_good_cases)
    case none
    then show ?thesis
      using that [of "s_out_buf s" "s_out_message s"] assms Send_to by (simp add: server_send_def)
  next
    case (some payload buf)
    then show ?thesis
      using that [of buf "s_out_message s"] assms client_write_down [of "s\<lparr>s_out_buf := buf\<rparr>" i] Send_to
      by (simp add: server_send_def)
  qed
next
  case Reply
  then show ?thesis
    using that [of "s_out_buf s" "s_out_message s"] assms(7) by (simp add: server_reply_def)
next
  case Broadcast
  then show ?thesis using assms(6) by simp
next
  case (Disconnect_client p)
  then have "p = None \<or> p = Some i" using assms(5) by simp
  then have "server_call k r s = s"
    using assms(1,7) Disconnect_client by (auto simp: server_disconnect_def sv_client_pending_disconnect_def)
  then show ?thesis using that [of "s_out_buf s" "s_out_message s"] by simp
qed

lemma disconnected_callback_eq:
  assumes "k_fd (s_clients s i) = - 1" "k_head (s_clients s i) = None" "- 1 \<notin> set (fds (s_sys s))"
    "server_codec_ok k s" "\<forall>u. \<forall>r \<in> set (snd (cb u)). request_for i r \<and> \<not> is_broadcast r"
    "s_current s = None" "sv_buffers_ok s"
  obtains u l m buf where
    "sv_callback k cb ev s = s\<lparr>s_app := u, s_log := l, s_out_message := m, s_out_buf := buf\<rparr>"
    "length buf = length (s_out_buf s)"
proof -
  have calls: "\<exists>m buf. fold (server_call k) rs t = t\<lparr>s_out_message := m, s_out_buf := buf\<rparr> \<and>
      length buf = length (s_out_buf t)"
    if "k_fd (s_clients t i) = - 1" "k_head (s_clients t i) = None" "- 1 \<notin> set (fds (s_sys t))"
      "s_current t = None" "sv_buffers_ok t" "server_codec_ok k t"
      "\<forall>r \<in> set rs. request_for i r \<and> \<not> is_broadcast r" for rs t
    using that
  proof (induction rs arbitrary: t)
    case Nil
    then show ?case by (intro exI [of _ "s_out_message t"] exI [of _ "s_out_buf t"]) simp
  next
    case (Cons r rs)
    obtain m buf where r: "server_call k r t = t\<lparr>s_out_message := m, s_out_buf := buf\<rparr>"
      "length buf = length (s_out_buf t)"
      by (rule disconnected_call_eq [OF Cons.prems(1-3,6) _ _ Cons.prems(4,5), of r])
        (use Cons.prems(7) in auto)
    have "\<exists>m buf. fold (server_call k) rs (server_call k r t) =
        (server_call k r t)\<lparr>s_out_message := m, s_out_buf := buf\<rparr> \<and>
        length buf = length (s_out_buf (server_call k r t))"
      by (rule Cons.IH) (use Cons.prems r in \<open>auto simp: sv_buffers_ok_def server_codec_ok_def\<close>)
    then show ?case using r by auto
  qed
  obtain u rs where cb: "cb (s_app s) = (u, rs)" by fastforce
  have "\<forall>r \<in> set rs. request_for i r \<and> \<not> is_broadcast r" using assms(5) cb by (metis snd_conv)
  then obtain m buf where
    "sv_callback k cb ev s = s\<lparr>s_app := u, s_log := s_log s @ [ev], s_out_message := m, s_out_buf := buf\<rparr>"
    "length buf = length (s_out_buf s)"
    using calls [of "s\<lparr>s_app := u, s_log := s_log s @ [ev]\<rparr>" rs] assms
    by (auto simp: sv_callback_def cb sv_buffers_ok_def server_codec_ok_def)
  then show ?thesis by (rule that)
qed

section \<open>Messages from a client\<close>

lemma handle_message_good:
  assumes "sv_good A fs s" "sv_active fs s i" "server_codec_ok k s" "server_app_ok s"
  shows "sv_good A fs (snd (sv_handle_message k i ty s))"
proof -
  have user: "sv_good A fs (snd (sv_handle_message_user k i s))"
  proof -
    have cb: "sv_good A fs ((sv_callback k (cb i m) ev (s\<lparr>s_in_message := im, s_current := Some i\<rparr>))\<lparr>s_current := None\<rparr>)"
      if "s_on_message s c = Some cb" for cb m ev im c
    proof -
      let ?s = "s\<lparr>s_in_message := im, s_current := Some i\<rparr>"
      have "sv_good A fs ?s" using assms(1,2) by (simp add: sv_good_def sv_buffers_ok_def sv_active_def)
      moreover have "\<forall>u. \<forall>r \<in> set (snd (cb i m u)). request_for i r"
        using assms(4) that unfolding server_app_ok_def by blast
      ultimately have "sv_good A fs (sv_callback k (cb i m) ev ?s)"
        using callback_good [of A fs ?s i k "cb i m" ev] assms(2,3) by (simp add: sv_active_def server_codec_ok_def)
      then show ?thesis by (simp add: sv_good_def sv_buffers_ok_def)
    qed
    have "sv_good A fs (s\<lparr>s_in_message := im\<rparr>)" "sv_good A fs (s\<lparr>s_in_message := im, s_current := None\<rparr>)" for im
      using assms(1) by (simp_all add: sv_good_def sv_buffers_ok_def sv_active_def)
    then show ?thesis
      using cb by (auto simp: sv_handle_message_user_def Let_def split: option.splits prod.splits)
  qed
  have ping: "sv_good A fs (snd (sv_handle_message_ping i s))"
  proof -
    obtain res s1 where t: "sv_client_start_keep_alive_timer i s = (res, s1)" by fastforce
    then obtain os where s1: "s1 = s\<lparr>s_sys := os\<rparr>" "fds os = fds (s_sys s)"
      using start_keep_alive_eq by blast
    obtain cs ps where inv: "sv_inv A s cs ps fs" using assms(1) by (auto simp: sv_good_def)
    have "sv_inv A s1 cs ps fs" using inv by (subst sv_inv_cong [of s]) (simp_all add: s1 same_clients_def)
    then have "sv_good A fs s1" using assms(1) by (auto simp: sv_good_def s1 sv_buffers_ok_def sv_active_def)
    then show ?thesis
      using client_write_good [of A fs s1 i] assms(2)
      by (simp add: sv_handle_message_ping_def t Let_def sv_active_def s1(1) header_bytes_def)
  qed
  show ?thesis
    using user ping assms(1) by (simp add: sv_handle_message_def)
qed

lemma handle_message_current:
  assumes "s_current s = None"
  shows "s_current (snd (sv_handle_message k i ty s)) = None"
proof -
  have "s_current (snd (sv_handle_message_user k i s)) = None"
    using assms by (auto simp: sv_handle_message_user_def Let_def split: option.split prod.split)
  moreover have "s_current (snd (sv_handle_message_ping i s)) = None"
  proof -
    obtain res s1 where t: "sv_client_start_keep_alive_timer i s = (res, s1)" by fastforce
    then have "s_current s1 = None" using start_keep_alive_eq assms by fastforce
    then show ?thesis
      using sv_quietD(1) [OF client_write_quiet [OF sv_quiet_refl], of i _ s1]
      by (simp add: sv_handle_message_ping_def t Let_def)
  qed
  ultimately show ?thesis using assms by (simp add: sv_handle_message_def)
qed

lemma set_input_good: "sv_good A fs s \<Longrightarrow> sv_good A fs (sv_set_input i inp s)"
proof -
  have "sv_inv A (sv_set_input i inp s) cs ps fs = sv_inv A s cs ps fs" for cs ps
    by (rule sv_inv_cong) (simp_all add: sv_set_input_def same_clients_def)
  then show "sv_good A fs s \<Longrightarrow> sv_good A fs (sv_set_input i inp s)"
    by (simp add: sv_good_def sv_buffers_ok_def sv_active_def) (simp add: sv_set_input_def)
qed

text \<open>What the parts of the receiving loop keep, the loop keeps.\<close>

lemma process_in_keeps:
  assumes "P s" "\<And>s inp. P s \<Longrightarrow> P (sv_set_input i inp s)" "\<And>s. P s \<Longrightarrow> P (sv_client_pending_disconnect i s)"
    "\<And>s ty. P s \<Longrightarrow> P (snd (sv_handle_message k i ty s))"
  shows "P (sv_process_client_socket_in k i as s)"
  using assms(1)
proof (induction "arrivals_size as" arbitrary: as s rule: less_induct)
  case less
  obtain res as' where rd: "sys_read (k_fd (s_clients s i)) (i_left (k_input (s_clients s i))) as (s_sys s) = (res, as')"
    by fastforce
  show ?case
  proof (cases "\<exists>bs. res = Inr bs \<and> bs \<noteq> []")
    case False
    then show ?thesis
      using less.prems assms(3)
      by (subst sv_process_client_socket_in.simps) (auto simp: rd split: sum.split)
  next
    case True
    then obtain bs where bs: "res = Inr bs" "bs \<noteq> []" by blast
    have IH: "P (sv_process_client_socket_in k i as' t)" if "P t" for t
      using less.hyps [OF _ that] sys_read_decreases rd bs by blast
    have reset: "P (sv_client_reset_input i t)" if "P t" for t
      using assms(2) [OF that] by (simp add: reset_input_eq)
    have msg: "P (case sv_handle_message k i ty t of (res, s3) \<Rightarrow>
        if res = 0 then sv_process_client_socket_in k i as' (sv_client_reset_input i s3)
        else sv_client_pending_disconnect i s3)" if "P t" for ty t
      using assms(4) [OF that, of ty] IH reset assms(3) by (simp add: case_prod_unfold)
    show ?thesis
      using bs less.prems
      by (subst sv_process_client_socket_in.simps)
        (simp add: rd Let_def IH msg assms(2,3))
  qed
qed

lemma process_in_good:
  assumes "sv_good A fs s" "sv_active fs s i" "server_codec_ok k s" "server_app_ok s"
  shows "sv_good A fs (sv_process_client_socket_in k i as s)"
    and "sv_cfg (sv_process_client_socket_in k i as s) = sv_cfg s"
proof -
  let ?P = "\<lambda>t. sv_good A fs t \<and> sv_cfg t = sv_cfg s"
  have "?P (sv_process_client_socket_in k i as s)"
  proof (rule process_in_keeps [where P = ?P])
    show "?P (sv_set_input i j t)" if "?P t" for t j
      using that by (simp add: set_input_good) (simp add: sv_set_input_def)
    show "?P (sv_client_pending_disconnect i t)" if "?P t" for t
      using that pending_disconnect_good [of A fs t i] assms(2) sv_cfg_ok(1) [of t s fs i]
      by (simp add: server_simps)
    show "?P (snd (sv_handle_message k i ty t))" if "?P t" for t ty
      using that handle_message_good [of A fs t i k ty] assms sv_cfg_ok [of t s] handle_message_keeps [of t k i ty]
      by (simp add: sv_keeps_def)
  qed (use assms(1) in simp)
  then show "sv_good A fs (sv_process_client_socket_in k i as s)"
    "sv_cfg (sv_process_client_socket_in k i as s) = sv_cfg s" by blast+
qed

end
