(* ===== verification/LinuxServerProcess.thy ===== *)
theory LinuxServerProcess
  imports LinuxServerCalls
begin

text \<open>
  The public operations of the linux server keep the invariant: connecting a client, the end of
  a disconnection, and \<open>NAME_server_process\<close> as a whole.
\<close>

section \<open>Connecting a client\<close>

lemma new_fd_effect:
  assumes "sys_new_fd os = (d, os')"
  shows "d = - 1 \<and> fds os' = fds os \<or> 0 \<le> d \<and> d \<notin> set (fds os) \<and> fds os' = d # fds os"
  using assms by (cases rule: sys_new_fd_cases [of os]) (auto simp: sys_try_simps)

lemma accept_effect:
  "sys_accept l os = (d, os') \<Longrightarrow>
     d = - 1 \<and> fds os' = fds os \<or> 0 \<le> d \<and> d \<notin> set (fds os) \<and> fds os' = d # fds os"
  using new_fd_effect by (auto simp: sys_accept_def split: if_splits)

lemma timer_effect:
  "sys_timerfd_create os = (d, os') \<Longrightarrow>
     d = - 1 \<and> fds os' = fds os \<or> 0 \<le> d \<and> d \<notin> set (fds os) \<and> fds os' = d # fds os"
  using new_fd_effect by (simp add: sys_timerfd_create_def)

text \<open>Only the struct of the client and the system change; a failure closes the timer again.\<close>

lemma client_init_effect:
  assumes "sv_client_init i d s = (res, s')"
  obtains os inp t where
    "s' = s\<lparr>s_sys := os, s_clients := (s_clients s)(i :=
       (s_clients s i)\<lparr>k_fd := d, k_input := inp, k_head := None, k_timer := t\<rparr>)\<rparr>"
    "res = 0 \<and> 0 \<le> t \<and> t \<notin> set (fds (s_sys s)) \<and> fds os = t # fds (s_sys s) \<or>
     res = - 1 \<and> fds os = fds (s_sys s)"
proof -
  obtain t os1 where t: "sys_timerfd_create (s_sys s) = (t, os1)" by fastforce
  define inp where "inp = input_reset (k_input (s_clients s i))"
  define u where "u = (\<lambda>os. s\<lparr>s_sys := os, s_clients := (s_clients s)(i :=
    (s_clients s i)\<lparr>k_fd := d, k_input := inp, k_head := None, k_timer := t\<rparr>)\<rparr>)"
  have fd: "k_timer (s_clients (u os) i) = t" "s_sys (u os) = os" "s_epoll_ctl (u os) = s_epoll_ctl s"
    "s_epoll_fd (u os) = s_epoll_fd s" "(u os)\<lparr>s_sys := os'\<rparr> = u os'" for os os'
    by (simp_all add: u_def)
  have start: "sv_client_init i d s = (if t = - 1 then (- 1, u os1) else
      let (res, os) = sys_timerfd_settime t 3 os1
      in if res = - 1 then (- 1, u (sys_close t os)) else
      let (res, os) = call_epoll_ctl (s_epoll_ctl s) (s_epoll_fd s) EPOLL_CTL_ADD t EPOLLIN os
      in if res = - 1 then (- 1, u (sys_close t os)) else
      let (res, os) = call_epoll_ctl (s_epoll_ctl s) (s_epoll_fd s) EPOLL_CTL_ADD d EPOLLIN os
      in if res = - 1
         then (- 1, u (sys_close t
           (snd (call_epoll_ctl (s_epoll_ctl s) (s_epoll_fd s) EPOLL_CTL_DEL t 0 os))))
         else (0, u os))"
    by (simp add: sv_client_init_def sv_client_reset_input_def sv_upd_def t sv_close_def
        sv_client_start_keep_alive_timer_def sv_epoll_ctl_add_def sv_epoll_ctl_del_def
        sv_client_init_out1_def sv_client_init_out2_def Let_def u_def inp_def input_reset_def
        split: prod.split)
  note te = timer_effect [OF t]
  have "\<exists>os. s' = u os \<and> (res = 0 \<and> 0 \<le> t \<and> t \<notin> set (fds (s_sys s)) \<and> fds os = t # fds (s_sys s) \<or>
     res = - 1 \<and> fds os = fds (s_sys s))"
    using te assms unfolding start
    by (auto simp: Let_def os_simps split: prod.splits if_splits dest!: fds_results)
  then show ?thesis using that unfolding u_def by blast
qed

text \<open>The structs of free clients do not matter.\<close>

lemma sv_queues_on:
  assumes "sv_queues s C Q" "s_heap s' = s_heap s" "s_brk s' = s_brk s"
    "\<And>j. j \<in> C \<Longrightarrow> k_head (s_clients s' j) = k_head (s_clients s j) \<and> k_tail (s_clients s' j) = k_tail (s_clients s j)"
  shows "sv_queues s' C Q"
proof (rule sv_queuesI)
  show "queue (s_heap s') (k_head (s_clients s' i)) (Q i) \<and> tail_ok (s_clients s' i) (Q i)" if "i \<in> C" for i
    using sv_queuesD(1,2) [OF assms(1) that] assms(2) assms(4) [OF that] by (simp add: tail_ok_def)
  show "dom (s_heap s') = (\<Union>i \<in> C. set (Q i))" "dom (s_heap s') \<subseteq> {..<s_brk s'}"
    using sv_queuesD(4,5) [OF assms(1)] assms(2,3) by simp_all
qed (rule sv_queuesD(3) [OF assms(1)])

lemma sv_queues_add:
  assumes "sv_queues s C Q" "s_heap s' = s_heap s" "s_brk s' = s_brk s"
    "\<And>j. j \<in> C \<Longrightarrow> k_head (s_clients s' j) = k_head (s_clients s j) \<and> k_tail (s_clients s' j) = k_tail (s_clients s j)"
    "i \<notin> C" "k_head (s_clients s' i) = None"
  shows "sv_queues s' (insert i C) (Q(i := []))"
proof -
  note q = sv_queuesD [OF sv_queues_on [OF assms(1-4)]]
  show ?thesis
  proof (rule sv_queuesI)
    show "dom (s_heap s') = (\<Union>j \<in> insert i C. set ((Q(i := [])) j))"
      using q(4) assms(5) by (auto split: if_splits)
    show "dom (s_heap s') \<subseteq> {..<s_brk s'}" by (rule q(5))
  next
    fix j
    assume "j \<in> insert i C"
    then show "queue (s_heap s') (k_head (s_clients s' j)) ((Q(i := [])) j) \<and> tail_ok (s_clients s' j) ((Q(i := [])) j)"
      using q(1,2) [of j] assms(6) by (cases "j = i") (auto simp: tail_ok_def)
  next
    fix j l
    assume "j \<in> insert i C" "l \<in> insert i C" "j \<noteq> l"
    then show "set ((Q(i := [])) j) \<inter> set ((Q(i := [])) l) = {}"
      using q(3) [of j l] by (cases "j = i"; cases "l = i") auto
  qed
qed

definition same_conn :: "sclient \<Rightarrow> sclient \<Rightarrow> bool" where
  "same_conn c c' \<longleftrightarrow> k_fd c' = k_fd c \<and> k_timer c' = k_timer c \<and> k_head c' = k_head c \<and> k_tail c' = k_tail c"

lemma sv_fds_on:
  assumes "sv_fds A s cs ps" "set (fds (s_sys s')) = set (fds (s_sys s))"
    "\<And>j. j \<in> set cs \<or> j \<in> set ps \<Longrightarrow> same_conn (s_clients s j) (s_clients s' j)"
  shows "sv_fds A s' cs ps"
proof -
  note f = sv_fdsD [OF assms(1)] assms(3) [unfolded same_conn_def]
  have own: "owned s' j = owned s j" if "j \<in> set cs \<or> j \<in> set ps" for j
    using f(12) [OF that] by (simp add: owned_def)
  show ?thesis
  proof (rule sv_fdsI)
    show "set (fds (s_sys s')) - (\<Union>i \<in> set (cs @ ps). owned s' i) = A"
      using f(8) assms(2) own by simp
  qed (use f own assms(2) in auto)
qed

text \<open>A new client \<open>i\<close> with two new descriptors.\<close>

lemma sv_fds_add:
  assumes "sv_fds A s cs ps" "fds (s_sys s') = t # d # fds (s_sys s)"
    "d \<notin> set (fds (s_sys s))" "t \<notin> set (fds (s_sys s))" "t \<noteq> d" "0 \<le> t" "0 \<le> d"
    "k_fd (s_clients s' i) = d" "k_timer (s_clients s' i) = t" "i \<notin> set cs" "i \<notin> set ps"
    "\<And>j. j \<in> set cs \<or> j \<in> set ps \<Longrightarrow> same_conn (s_clients s j) (s_clients s' j)"
  shows "sv_fds A s' (i # cs) ps"
proof -
  note f = sv_fdsD [OF assms(1)] assms(12) [unfolded same_conn_def]
  have own: "owned s' j = owned s j" "owned s j \<subseteq> set (fds (s_sys s))" if "j \<in> set cs \<or> j \<in> set ps" for j
    using f(12) [OF that] f(2,3,5) [of j] that by (auto simp: owned_def)
  have oi: "owned s' i = {d, t}" using assms(6-9) by (auto simp: owned_def)
  show ?thesis
  proof (rule sv_fdsI)
    show "owned s' j \<inter> owned s' l = {}"
      if "j \<in> set (i # cs) \<or> j \<in> set ps" "l \<in> set (i # cs) \<or> l \<in> set ps" "j \<noteq> l" for j l
    proof -
      have new: "owned s' i \<inter> owned s' m = {}" if "m \<in> set cs \<or> m \<in> set ps" for m
        using own [OF that] oi assms(3,4) by auto
      consider "j = i" | "l = i" | "j \<noteq> i" "l \<noteq> i" by blast
      then show ?thesis
      proof cases
        case 1
        then show ?thesis using new [of l] that by simp
      next
        case 2
        then show ?thesis using new [of j] that by (simp add: Int_commute)
      next
        case 3
        then show ?thesis using f(7) [of j l] own(1) [of j] own(1) [of l] that by simp
      qed
    qed
    show "set (fds (s_sys s')) - (\<Union>j \<in> set ((i # cs) @ ps). owned s' j) = A"
    proof -
      have "(\<Union>j \<in> set ((i # cs) @ ps). owned s' j) = {d, t} \<union> (\<Union>j \<in> set (cs @ ps). owned s j)"
        using own(1) oi by simp
      moreover have "set (t # d # F) - ({d, t} \<union> U) = set F - U" if "d \<notin> set F" "t \<notin> set F" for F U
        using that by auto
      ultimately show ?thesis using f(8) assms(3,4) unfolding assms(2) by simp
    qed
  next
    fix j
    assume "j \<in> set (i # cs)"
    then show "k_fd (s_clients s' j) \<in> set (fds (s_sys s'))" "k_fd (s_clients s' j) \<noteq> k_timer (s_clients s' j)"
      using f(2,4,12) [of j] assms(5,8,9) by (cases "j = i"; simp add: assms(2))+
  next
    fix j
    assume "j \<in> set (i # cs) \<or> j \<in> set ps"
    then show "k_timer (s_clients s' j) \<in> set (fds (s_sys s'))"
      using f(3,12) [of j] assms(9) by (cases "j = i") (auto simp: assms(2))
  next
    fix j
    assume "j \<in> set ps"
    then show "k_fd (s_clients s' j) = - 1 \<and> k_head (s_clients s' j) = None" using f(5,6,12) [of j] by simp
  next
    fix e
    assume "e \<in> set (fds (s_sys s'))"
    then show "0 \<le> e" using f(1) [of e] assms(6,7) by (auto simp: assms(2))
  qed
qed

lemma listener_inv:
  assumes "sv_inv A s cs ps fs" "sv_buffers_ok s" "s_current s = None" "server_codec_ok k s" "server_app_ok s"
  obtains fs' where "sv_good A fs' (sv_process_listener k s)" "s_current (sv_process_listener k s) = None"
    "sv_cfg (sv_process_listener k s) = sv_cfg s"
    "fs' = fs \<and> s_log (sv_process_listener k s) = s_log s \<or>
     (\<exists>i. fs = i # fs' \<and> s_log (sv_process_listener k s) = s_log s @ [Client_connected i])"
proof -
  have same: "sv_inv A (s\<lparr>s_sys := os\<rparr>) cs ps fs" if "set (fds os) = set (fds (s_sys s))" for os
    using assms(1) by (subst sv_inv_cong [of s]) (simp_all add: same_clients_def that)
  have good: "sv_good A fs (s\<lparr>s_sys := os\<rparr>)" if "set (fds os) = set (fds (s_sys s))" for os
    using same [OF that] assms(2,3) by (auto simp: sv_good_def sv_buffers_ok_def)
  obtain d os1 where acc: "sys_accept (s_listener_fd s) (s_sys s) = (d, os1)" by fastforce
  note acc' = accept_effect [OF acc]
  obtain r2 os2 where nb: "messi_make_non_blocking d os1 = (r2, os2)" by fastforce
  obtain r3 os3 where so: "sys_setsockopt d os2 = (r3, os3)" by fastforce
  have f23: "fds os2 = fds os1" "fds os3 = fds os1"
    using fds_results(4) [OF nb] fds_sys_calls(4) [of d os2] so by simp_all
  define s1 where "s1 = s\<lparr>s_sys := os3\<rparr>"
  have step: "sv_process_listener k s =
      (if d = - 1 then s\<lparr>s_sys := os1\<rparr>
       else if r2 = - 1 then s\<lparr>s_sys := sys_close d os2\<rparr>
       else if r3 \<noteq> 0 then s\<lparr>s_sys := sys_close d os3\<rparr>
       else case sv_alloc_client s1 of
         (None, s2) \<Rightarrow> sv_close d s2
       | (Some i, s2) \<Rightarrow> (let (res, s3) = sv_client_init i d s2
           in if res \<noteq> 0 then sv_close d (sv_free_connected_client i s3)
              else sv_callback k (s_on_client_connected s3 i) (Client_connected i) s3))"
    by (simp add: sv_process_listener_def acc nb so sv_process_listener_out1_def
        sv_process_listener_out2_def sv_close_def s1_def split: prod.split option.split)
  show ?thesis
  proof (cases "d = - 1 \<or> r2 = - 1 \<or> r3 \<noteq> 0")
    case True
    define os where "os = (if d = - 1 then os1 else if r2 = - 1 then sys_close d os2 else sys_close d os3)"
    have "sv_process_listener k s = s\<lparr>s_sys := os\<rparr>" using True unfolding step os_def by auto
    moreover have "set (removeAll d (fds os1)) = set (fds (s_sys s))" if "d \<noteq> - 1" using acc' that by auto
    then have "set (fds os) = set (fds (s_sys s))"
      using acc' unfolding os_def by (auto simp add: os_simps f23 simp del: set_removeAll)
    ultimately obtain os where "sv_process_listener k s = s\<lparr>s_sys := os\<rparr>" "set (fds os) = set (fds (s_sys s))"
      by blast
    then show ?thesis by (intro that [of fs]) (simp_all add: good assms(3))
  next
    case False
    then have d: "0 \<le> d" "d \<notin> set (fds (s_sys s))" "fds os3 = d # fds (s_sys s)" using acc' f23 by auto
    have l1: "sv_lists s1 cs ps fs"
      using sv_inv_lists [OF assms(1)] by (subst sv_lists_cong [of _ s]) (simp_all add: s1_def)
    show ?thesis
    proof (cases fs)
      case Nil
      then have "sv_process_listener k s = s\<lparr>s_sys := sys_close d os3\<rparr>"
        using False alloc_client_none [of s1 cs ps] l1 unfolding step by (simp add: sv_close_def s1_def)
      then show ?thesis
        using good [of "sys_close d os3"] assms(3) d(2,3) by (intro that [of fs]) (simp_all add: os_simps)
    next
      case (Cons i fs')
      define s2 where "s2 = snd (sv_alloc_client s1)"
      have alloc: "sv_alloc_client s1 = (Some i, s2)"
        using alloc_client_lists(1) [of s1 cs ps i fs'] l1 Cons by (metis prod.collapse s2_def)
      have l2: "sv_lists s2 (i # cs) ps fs'"
        using alloc_client_lists(2) [of s1 cs ps i fs'] l1 Cons by (simp add: s2_def)
      note links2 = links_onlyD [OF alloc_links [of s1], folded s2_def]
      obtain res s3 where init: "sv_client_init i d s2 = (res, s3)" by fastforce
      then obtain os inp t where s3: "s3 = s2\<lparr>s_sys := os, s_clients := (s_clients s2)(i :=
          (s_clients s2 i)\<lparr>k_fd := d, k_input := inp, k_head := None, k_timer := t\<rparr>)\<rparr>"
        and res: "res = 0 \<and> 0 \<le> t \<and> t \<notin> set (fds (s_sys s2)) \<and> fds os = t # fds (s_sys s2) \<or>
          res = - 1 \<and> fds os = fds (s_sys s2)"
        by (rule client_init_effect)
      have i: "i \<notin> set cs" "i \<notin> set ps"
        using pool.pool_distinct [OF sv_inv_lists [OF assms(1)]] Cons by auto
      obtain Q where inv: "sv_queues s (set cs) Q" "sv_fds A s cs ps" "\<not> s_fault s" "\<not> s_hang s"
        using assms(1) by (auto simp: sv_inv_def)
      have l3: "sv_lists s3 (i # cs) ps fs'"
        using l2 by (subst sv_lists_cong [of _ s2]) (auto simp: s3 fun_eq_iff)
      have same3: "same_conn (s_clients s j) (s_clients s3 j)" if "j \<noteq> i" for j
        using that by (simp add: same_conn_def s3 links2 s1_def)
      have f2: "sv_cfg s2 = sv_cfg s" "sv_obs s2 = sv_obs s"
        by (simp_all add: s2_def s1_def server_simps)
      have s3_fields: "s_heap s3 = s_heap s" "s_brk s3 = s_brk s" "s_fault s3 = s_fault s" "s_hang s3 = s_hang s"
        "s_sys s3 = os" "sv_cfg s3 = sv_cfg s" "sv_obs s3 = sv_obs s"
        by (simp_all add: s3 f2) (simp_all add: links2 s1_def)
      show ?thesis
      proof (cases "res = 0")
        case True
        then have t: "0 \<le> t" "t \<notin> set (fds (s_sys s))" "t \<noteq> d" "fds os = t # d # fds (s_sys s)"
          using res d by (auto simp: links2 s1_def)
        have "sv_fds A s3 (i # cs) ps"
          by (rule sv_fds_add [OF inv(2) _ d(2) t(2,3,1) d(1) _ _ i])
            (use t i same3 in \<open>auto simp: s3\<close>)
        moreover have "sv_queues s3 (set (i # cs)) (Q(i := []))"
        proof -
          have "k_head (s_clients s3 j) = k_head (s_clients s j) \<and> k_tail (s_clients s3 j) = k_tail (s_clients s j)"
            if "j \<in> set cs" for j
            using same3 [of j] i that by (auto simp: same_conn_def)
          moreover have "k_head (s_clients s3 i) = None" by (simp add: s3)
          ultimately show ?thesis using sv_queues_add [OF inv(1) s3_fields(1,2) _ i(1)] by simp
        qed
        ultimately have inv3: "sv_inv A s3 (i # cs) ps fs'"
          using l3 inv by (auto simp: sv_inv_def s3_fields)
        then have good3: "sv_good A fs' s3"
          using assms(2,3) sv_good_obs(1,2) [OF s3_fields(6,7)] by (auto simp: sv_good_def)
        have act: "sv_active fs' s3 i" by (simp add: sv_active_iff [OF inv3])
        have cb: "\<forall>u. \<forall>r \<in> set (snd (s_on_client_connected s3 i u)). request_for i r"
          using assms(5) sv_cfgD(1) [OF s3_fields(6)] by (simp add: server_app_ok_def)
        have eq: "sv_process_listener k s = sv_callback k (s_on_client_connected s3 i) (Client_connected i) s3"
          using False alloc init True unfolding step by simp
        have "sv_good A fs' (sv_callback k (s_on_client_connected s3 i) (Client_connected i) s3)"
          by (rule callback_good [OF good3 act _ cb]) (use assms(4) sv_good_obs [OF s3_fields(6,7)] in simp)
        moreover have "sv_cfg (sv_callback k (s_on_client_connected s3 i) (Client_connected i) s3) = sv_cfg s"
          by (simp add: sv_keepsD(1) [OF callback_keeps] s3_fields(6))
        ultimately show ?thesis
          using Cons by (intro that [of fs']) (simp_all add: eq callback_current, use assms(3) sv_obsD(2,3) [OF s3_fields(7)] in simp_all)
      next
        case False
        then have os: "fds os = d # fds (s_sys s)" using res d by (auto simp: links2 s1_def)
        let ?s4 = "sv_free_connected_client i s3"
        note links4 = links_onlyD [OF free_connected_links [OF l3, of i]]
        have s4: "sv_lists ?s4 cs ps fs" using free_connected_client_lists [OF l3, of i] Cons by simp
        have same4: "same_conn (s_clients s j) (s_clients ?s4 j)" if "j \<noteq> i" for j
          using same3 [OF that] by (simp add: same_conn_def links4)
        have same5: "same_conn (s_clients s j) (s_clients ?s4 j)" if "j \<in> set cs \<or> j \<in> set ps" for j
          using same4 [of j] i that by blast
        have eq: "sv_process_listener k s = sv_close d ?s4"
          using \<open>\<not> (d = - 1 \<or> r2 = - 1 \<or> r3 \<noteq> 0)\<close> alloc init False unfolding step by simp
        have "sv_lists (sv_close d ?s4) cs ps fs"
          using s4 by (subst sv_lists_cong [of _ ?s4]) (simp_all add: sv_close_def)
        moreover have "sv_queues (sv_close d ?s4) (set cs) Q"
          by (rule sv_queues_on [OF inv(1)])
            (simp_all add: sv_close_def links4(7,8) s3_fields same5 [unfolded same_conn_def])
        moreover have "sv_fds A (sv_close d ?s4) cs ps"
          by (rule sv_fds_on [OF inv(2)])
            (use d in \<open>simp_all add: sv_close_def links4(6) s3_fields os os_simps same5\<close>)
        ultimately have "sv_inv A (sv_close d ?s4) cs ps fs"
          using inv by (auto simp: sv_inv_def sv_close_def links4 s3_fields)
        moreover have "sv_cfg (sv_close d ?s4) = sv_cfg s" "sv_obs (sv_close d ?s4) = sv_obs s"
          by (simp_all add: sv_close_def server_simps s3_fields)
        ultimately show ?thesis
          using assms(2,3) sv_good_obs [of "sv_close d ?s4" s] sv_obsD(2,3) [of "sv_close d ?s4" s]
          by (intro that [of fs]) (auto simp: eq sv_good_def)
      qed
    qed
  qed
qed

section \<open>The end of a disconnection\<close>

lemma sv_fds_destroy:
  assumes "sv_fds A s cs (i # ps)" "i \<notin> set cs" "i \<notin> set ps"
    "fds (s_sys s') = removeAll (k_timer (s_clients s i)) (fds (s_sys s))"
    "\<And>j. j \<in> set cs \<or> j \<in> set ps \<Longrightarrow> same_conn (s_clients s j) (s_clients s' j)"
  shows "sv_fds A s' cs ps"
proof -
  note f = sv_fdsD [OF assms(1)] assms(5) [unfolded same_conn_def]
  have own: "owned s' j = owned s j" if "j \<in> set cs \<or> j \<in> set ps" for j
    using f(12) [OF that] by (simp add: owned_def)
  have oi: "owned s i = {k_timer (s_clients s i)}" using f(5,10) [of i] by (auto simp: owned_def)
  have other: "k_timer (s_clients s i) \<notin> owned s j" if "j \<in> set cs \<or> j \<in> set ps" for j
    using f(7) [of i j] that assms(2,3) oi by auto
  show ?thesis
  proof (rule sv_fdsI)
    show "set (fds (s_sys s')) - (\<Union>j \<in> set (cs @ ps). owned s' j) = A"
    proof -
      have "(\<Union>j \<in> set (cs @ i # ps). owned s j) = insert (k_timer (s_clients s i)) (\<Union>j \<in> set (cs @ ps). owned s' j)"
        using own oi by auto
      then show ?thesis using f(8) unfolding assms(4) by auto
    qed
  next
    fix j
    assume j: "j \<in> set cs"
    then show "k_fd (s_clients s' j) \<in> set (fds (s_sys s'))"
      using f(2,9,12) [of j] other [of j] by (auto simp: assms(4) owned_def)
    show "k_fd (s_clients s' j) \<noteq> k_timer (s_clients s' j)" using f(4,12) [of j] j by simp
  next
    fix j
    assume "j \<in> set cs \<or> j \<in> set ps"
    then show "k_timer (s_clients s' j) \<in> set (fds (s_sys s'))"
      using f(3,10,12) [of j] other [of j] by (auto simp: assms(4) owned_def)
  next
    fix j l
    assume "j \<in> set cs \<or> j \<in> set ps" "l \<in> set cs \<or> l \<in> set ps" "j \<noteq> l"
    then show "owned s' j \<inter> owned s' l = {}" using own [of j] own [of l] f(7) [of j l] by auto
  next
    fix j
    assume "j \<in> set ps"
    then show "k_fd (s_clients s' j) = - 1 \<and> k_head (s_clients s' j) = None" using f(5,6,12) [of j] by simp
  next
    fix e
    assume "e \<in> set (fds (s_sys s'))"
    then show "0 \<le> e" using f(1) [of e] by (simp add: assms(4))
  qed
qed

lemma destroy_loop_inv:
  assumes "sv_inv A s cs ps fs" "p = hd_ptr ps" "length ps \<le> n" "sv_buffers_ok s" "s_current s = None"
    "server_codec_ok k s" "server_app_ok s" "s' = sv_destroy_loop k n p s"
  shows "sv_inv A s' cs [] (rev ps @ fs) \<and> sv_buffers_ok s' \<and> s_current s' = None \<and> sv_cfg s' = sv_cfg s \<and>
    s_log s' = s_log s @ map Client_disconnected ps"
  using assms
proof (induction ps arbitrary: fs s p n)
  case Nil
  then show ?case by (cases n) (simp_all add: hd_ptr_def)
next
  case (Cons i ps)
  obtain m where n: "n = Suc m" "length ps \<le> m" using Cons.prems(3) by (cases n) auto
  obtain Q where inv: "sv_lists s cs (i # ps) fs" "sv_queues s (set cs) Q" "sv_fds A s cs (i # ps)"
    "\<not> s_fault s" "\<not> s_hang s" using Cons.prems(1) by (auto simp: sv_inv_def)
  have i: "i \<notin> set cs" "i \<notin> set ps" using pool.pool_distinct [OF inv(1)] by auto
  note f = sv_fdsD [OF inv(3)]
  obtain os where os: "sv_close_fd (k_timer (s_clients s i)) s = s\<lparr>s_sys := os\<rparr>"
    "fds os = removeAll (k_timer (s_clients s i)) (fds (s_sys s))"
    using sv_close_fd_eq by blast
  define s2 where "s2 = sv_upd i (\<lambda>c. c\<lparr>k_timer := - 1\<rparr>) (s\<lparr>s_sys := os\<rparr>)"
  have cfg2: "sv_cfg s2 = sv_cfg s" "sv_obs s2 = sv_obs s" by (simp_all add: s2_def)
  note o2 = sv_good_obs [OF cfg2]
  have cb: "\<forall>u. \<forall>r \<in> set (snd (s_on_client_disconnected s2 i u)). request_for i r \<and> \<not> is_broadcast r"
    using Cons.prems(7) sv_cfgD(2) [OF cfg2(1)] by (simp add: server_app_ok_def)
  obtain u l mm buf where s3: "sv_callback k (s_on_client_disconnected s2 i) (Client_disconnected i) s2 =
      s2\<lparr>s_app := u, s_log := l, s_out_message := mm, s_out_buf := buf\<rparr>" "length buf = length (s_out_buf s2)"
  proof (rule disconnected_callback_eq [OF _ _ _ _ cb])
    show "k_fd (s_clients s2 i) = - 1" "k_head (s_clients s2 i) = None" using f(5,6) by (simp_all add: s2_def)
    show "- 1 \<notin> set (fds (s_sys s2))" using f(11) by (simp add: s2_def os)
    show "server_codec_ok k s2" "s_current s2 = None" "sv_buffers_ok s2" using Cons.prems(4-6) by (simp_all add: o2)
  qed
  have "s_log (sv_callback k (s_on_client_disconnected s2 i) (Client_disconnected i) s2) = s_log s @ [Client_disconnected i]"
    using sv_obsD(2) [OF cfg2(2)] by simp
  then have l: "l = s_log s @ [Client_disconnected i]" unfolding s3(1) by simp
  define s3 where "s3 = s2\<lparr>s_app := u, s_log := l, s_out_message := mm, s_out_buf := buf\<rparr>"
  have s3_fields: "nxt s3 = nxt s" "prv s3 = prv s" "s_pending s3 = s_pending s" "s_connected s3 = s_connected s"
    "s_free s3 = s_free s" "s_max s3 = s_max s" "s_heap s3 = s_heap s" "s_brk s3 = s_brk s"
    "s_fault s3 = s_fault s" "s_hang s3 = s_hang s" "s_sys s3 = os" "sv_cfg s3 = sv_cfg s" "s_current s3 = None"
    using Cons.prems(5) by (auto simp: s3_def s2_def fun_eq_iff)
  define s4 where "s4 = sv_free_pending_disconnect_client i s3"
  have l3: "sv_lists s3 cs (i # ps) fs" using inv(1) by (subst sv_lists_cong [of _ s]) (simp_all add: s3_fields)
  have l4: "sv_lists s4 cs ps (i # fs)" unfolding s4_def by (rule free_pending_client_lists [OF l3])
  note links = links_onlyD [OF free_pending_links [OF l3], folded s4_def]
  have same: "same_conn (s_clients s j) (s_clients s4 j)" if "j \<noteq> i" for j
    using that by (simp add: same_conn_def links) (simp add: s3_def s2_def)
  have same': "same_conn (s_clients s j) (s_clients s4 j)" if "j \<in> set cs \<or> j \<in> set ps" for j
    using same [of j] i that by blast
  have "sv_fds A s4 cs ps"
    by (rule sv_fds_destroy [OF inv(3) i _ same']) (simp add: links s3_fields os)
  moreover have "sv_queues s4 (set cs) Q"
    by (rule sv_queues_on [OF inv(2)]) (simp_all add: links(7,8) s3_fields same' [unfolded same_conn_def])
  ultimately have inv4: "sv_inv A s4 cs ps (i # fs)"
    using l4 inv by (auto simp: sv_inv_def links s3_fields)
  have obs4: "sv_cfg s4 = sv_cfg s" "s_current s4 = None" "sv_buffers_ok s4"
    using Cons.prems(4) o2(1) s3(2) sv_obsD(4) [OF cfg2(2)] sv_cfgD(9) [OF cfg2(1)]
    by (simp_all add: s4_def server_simps s3_fields, simp_all add: links [unfolded s4_def] s3_fields sv_buffers_ok_def, simp_all add: s3_def)
  have log4: "s_log s4 = s_log s @ [Client_disconnected i]"
    using sv_obsD(2) [of s4 s3] l by (simp add: s4_def server_simps s3_def)
  have "sv_destroy_loop k n p s = sv_destroy_loop k m (nxt s3 i) s4"
    using Cons.prems(2)
    using s3(1) [folded s3_def] sv_cfgD(2) [OF cfg2(1)]
    by (simp add: n hd_ptr_def Let_def os(1) s2_def [symmetric] s4_def)
  moreover have "nxt s3 i = hd_ptr ps"
    using l3 lseg_hd by (auto simp: sv_lists_def)
  ultimately show ?case
    using Cons.IH [OF inv4 refl n(2) obs4(3,2)] Cons.prems(6-8) sv_cfg_ok [OF obs4(1)] obs4(1) log4 by simp
qed

section \<open>Processing an event\<close>

lemma lists_short:
  assumes "sv_lists s cs ps fs"
  shows "length cs \<le> s_max s" "length ps \<le> s_max s"
proof -
  have "distinct cs" "distinct ps" "set cs \<subseteq> {0..<s_max s}" "set ps \<subseteq> {0..<s_max s}"
    using assms by (auto simp: sv_lists_def)
  then show "length cs \<le> s_max s" "length ps \<le> s_max s"
    by (metis card_atLeastLessThan card_mono diff_zero distinct_card finite_atLeastLessThan)+
qed

text \<open>The search finds the first connected client that owns the descriptor.\<close>

definition sv_owns :: "('u, 'i, 'o) server \<Rightarrow> fd \<Rightarrow> nat \<Rightarrow> bool" where
  "sv_owns s d i \<longleftrightarrow> d = k_fd (s_clients s i) \<or> d = k_timer (s_clients s i)"

lemma find_client_path:
  "lseg (nxt s) p xs \<Longrightarrow> length xs \<le> n \<Longrightarrow> sv_find_client d n p s = Some (List.find (sv_owns s d) xs)"
proof (induction xs arbitrary: p n)
  case Nil
  then show ?case by (cases n) simp_all
next
  case (Cons x xs)
  then show ?case by (cases n) (auto simp: sv_owns_def)
qed

lemma find_client:
  assumes "sv_lists s cs ps fs"
  shows "sv_find_client d (s_max s) (s_connected s) s = Some (List.find (sv_owns s d) cs)"
  using find_client_path [of s "s_connected s" cs "s_max s" d] assms lists_short [OF assms]
  by (simp add: sv_lists_def)

text \<open>What holds between two calls of a public function.\<close>

definition server_ready :: "fd set \<Rightarrow> ('u, 'i, 'o) server \<Rightarrow> bool" where
  "server_ready A s \<longleftrightarrow> (\<exists>cs ps fs. sv_inv A s cs ps fs) \<and> sv_buffers_ok s \<and> s_current s = None"

lemma server_ready_good: "server_ready A s \<longleftrightarrow> (\<exists>fs. sv_good A fs s) \<and> s_current s = None"
  unfolding server_ready_def sv_good_def by fastforce

text \<open>An event of a client's descriptor, before the pending disconnections are completed.\<close>

definition sv_client_event ::
    "('i, 'o) codec \<Rightarrow> nat \<Rightarrow> fd \<Rightarrow> u32 \<Rightarrow> arrival list \<Rightarrow> ('u, 'i, 'o) server \<Rightarrow> ('u, 'i, 'o) server" where
  "sv_client_event k i d events as s =
     (if d = k_fd (s_clients s i) then sv_process_client_socket k i events as s
      else sv_process_client_keep_alive_timer i s)"

lemma client_event_good:
  assumes "sv_good A fs s" "s_current s = None" "server_codec_ok k s" "server_app_ok s"
    "events AND EPOLLOUT = 0 \<or> soft_writes (s_sys s)" "sv_inv A s cs ps fs" "i \<in> set cs"
    "s' = sv_client_event k i d events as s"
  shows "sv_good A fs s'" "s_current s' = None" "sv_cfg s' = sv_cfg s"
proof -
  have act: "sv_active fs s i" using assms(7) by (simp add: sv_active_iff [OF assms(6)])
  define s1 where "s1 = (if events AND EPOLLOUT \<noteq> 0 then sv_process_client_socket_out i s else s)"
  have q1: "sv_quiet s s1" by (simp add: s1_def)
  have "\<exists>cs ps. sv_inv A s1 cs ps fs"
    using process_out_effect(1) [OF assms(6,7) _ refl] assms(5,6) by (auto simp: s1_def sv_kept_def)
  then have good1: "sv_good A fs s1" by (rule sv_good_quiet [OF assms(1) q1])
  have cfg1: "sv_cfg s1 = sv_cfg s" using q1 by (simp add: sv_quiet_def)
  note ok1 = sv_cfg_ok [OF cfg1]
  have in1: "sv_good A fs (sv_process_client_socket_in k i as s1)"
    "sv_cfg (sv_process_client_socket_in k i as s1) = sv_cfg s1"
    using process_in_good [OF good1, of i k as] act assms(3,4) by (simp_all add: ok1)
  have cur1: "s_current (sv_process_client_socket_in k i as s1) = None"
  proof (rule process_in_keeps [where P = "\<lambda>t. s_current t = None"])
    show "s_current s1 = None" using sv_quietD(1) [OF q1] assms(2) by simp
    show "s_current (sv_set_input i inp t) = None" if "s_current t = None" for inp t
      using that by (simp add: sv_set_input_def)
    show "s_current (sv_client_pending_disconnect i t) = None" if "s_current t = None" for t
      using sv_quietD(1) [OF sv_quiet_ops(1) [OF sv_quiet_refl]] that by metis
    show "s_current (snd (sv_handle_message k i ty t)) = None" if "s_current t = None" for ty t
      using that by (rule handle_message_current)
  qed
  have cur: "s_current s1 = None" "s_current (sv_client_pending_disconnect i s) = None"
    using sv_quietD(1) [OF q1] sv_quietD(1) [OF sv_quiet_ops(1) [OF sv_quiet_refl], of i s] assms(2) by simp_all
  show "sv_good A fs s'" "s_current s' = None" "sv_cfg s' = sv_cfg s"
    using good1 in1 cur1 cfg1 cur pending_disconnect_good [OF assms(1) act]
    by (simp_all add: assms(8) sv_client_event_def sv_process_client_socket_def
        sv_process_client_keep_alive_timer_def s1_def [symmetric] Let_def server_simps)
qed

text \<open>
  \<open>NAME_server_process\<close>: an event of the listener, of a client, or of nobody; afterwards no
  disconnection is pending. When a socket can be written, the system must not fail in the middle
  of a queue.
\<close>

lemma process_cases:
  assumes "sv_inv A s cs ps fs"
  obtains (listener) "d = s_listener_fd s"
      "server_process k d events as s = sv_destroy_pending_disconnect_clients k (sv_process_listener k s)"
  | (client) i where "d \<noteq> s_listener_fd s" "i \<in> set cs" "sv_owns s d i"
      "server_process k d events as s =
         sv_destroy_pending_disconnect_clients k (sv_client_event k i d events as s)"
  | (nobody) "d \<noteq> s_listener_fd s" "\<forall>i \<in> set cs. \<not> sv_owns s d i"
      "server_process k d events as s = sv_destroy_pending_disconnect_clients k s"
proof (cases "d = s_listener_fd s")
  case True
  then show ?thesis using listener by (simp add: server_process_def)
next
  case False
  note f = find_client [OF sv_inv_lists [OF assms], of d]
  show ?thesis
  proof (cases "List.find (sv_owns s d) cs")
    case None
    then have "\<forall>i \<in> set cs. \<not> sv_owns s d i" by (simp add: find_None_iff)
    then show ?thesis using nobody False f None by (simp add: server_process_def)
  next
    case (Some i)
    then have "i \<in> set cs" "sv_owns s d i" by (auto simp: find_Some_iff)
    then show ?thesis
      using client [of i] False f Some by (simp add: server_process_def sv_client_event_def)
  qed
qed

lemma destroy_pending_good:
  assumes "sv_inv A s cs ps fs" "sv_good A fs s" "s_current s = None" "server_codec_ok k s" "server_app_ok s"
    "s' = sv_destroy_pending_disconnect_clients k s"
  shows "sv_inv A s' cs [] (rev ps @ fs)" "sv_good A (rev ps @ fs) s'" "s_current s' = None"
    "sv_cfg s' = sv_cfg s" "s_log s' = s_log s @ map Client_disconnected ps"
proof -
  note l = sv_inv_lists [OF assms(1)]
  have "s_pending s = hd_ptr ps" "length ps \<le> s_max s"
    using lseg_hd l lists_short [OF l] by (auto simp: sv_lists_def)
  moreover have "sv_buffers_ok s" using assms(2) by (simp add: sv_good_def)
  ultimately have d: "sv_inv A s' cs [] (rev ps @ fs)" "sv_buffers_ok s'" "s_current s' = None"
    "sv_cfg s' = sv_cfg s" "s_log s' = s_log s @ map Client_disconnected ps"
    using destroy_loop_inv [OF assms(1) _ _ _ assms(3-5) refl, of "s_pending s" "s_max s"]
    by (simp_all add: assms(6) sv_destroy_pending_disconnect_clients_def)
  then show "sv_inv A s' cs [] (rev ps @ fs)" "s_current s' = None"
    "sv_cfg s' = sv_cfg s" "s_log s' = s_log s @ map Client_disconnected ps" by blast+
  show "sv_good A (rev ps @ fs) s'" unfolding sv_good_def using d(1-3) by auto
qed

lemma server_process_good:
  assumes "sv_good A fs s" "s_current s = None" "server_codec_ok k s" "server_app_ok s"
    "events AND EPOLLOUT = 0 \<or> soft_writes (s_sys s)" "s' = server_process k d events as s"
  obtains s1 cs1 ps1 fs1 where "s' = sv_destroy_pending_disconnect_clients k s1"
    "sv_good A fs1 s1" "sv_inv A s1 cs1 ps1 fs1" "sv_inv A s' cs1 [] (rev ps1 @ fs1)"
    "sv_good A (rev ps1 @ fs1) s'" "s_current s' = None" "sv_cfg s' = sv_cfg s"
    "s_log s' = s_log s1 @ map Client_disconnected ps1"
    "s1 = s \<and> fs1 = fs \<or> (\<exists>i. sv_active fs s i \<and> s1 = sv_client_event k i d events as s) \<and> fs1 = fs \<or>
     fs1 = fs \<and> s_log s1 = s_log s \<or> (\<exists>i. fs = i # fs1 \<and> s_log s1 = s_log s @ [Client_connected i])"
proof -
  obtain cs ps where inv: "sv_inv A s cs ps fs" and buf: "sv_buffers_ok s"
    using assms(1) by (auto simp: sv_good_def)
  have "\<exists>s1 fs1. s' = sv_destroy_pending_disconnect_clients k s1 \<and> sv_good A fs1 s1 \<and> s_current s1 = None \<and>
      sv_cfg s1 = sv_cfg s \<and>
      (s1 = s \<and> fs1 = fs \<or> (\<exists>i. sv_active fs s i \<and> s1 = sv_client_event k i d events as s) \<and> fs1 = fs \<or>
       fs1 = fs \<and> s_log s1 = s_log s \<or> (\<exists>i. fs = i # fs1 \<and> s_log s1 = s_log s @ [Client_connected i]))"
    using inv
  proof (cases rule: process_cases [where k = k and d = d and events = events and as = as])
    case listener
    obtain fs1 where l: "sv_good A fs1 (sv_process_listener k s)" "s_current (sv_process_listener k s) = None"
      "sv_cfg (sv_process_listener k s) = sv_cfg s"
      "fs1 = fs \<and> s_log (sv_process_listener k s) = s_log s \<or>
       (\<exists>i. fs = i # fs1 \<and> s_log (sv_process_listener k s) = s_log s @ [Client_connected i])"
      by (rule listener_inv [OF inv buf assms(2-4)])
    show ?thesis
      by (intro exI [of _ "sv_process_listener k s"] exI [of _ fs1]) (use listener assms(6) l in blast)
  next
    case (client i)
    have "sv_active fs s i" using client(2) by (simp add: sv_active_iff [OF inv])
    then show ?thesis
      using client_event_good [OF assms(1-5) inv client(2) refl, of d as] client assms(6) by blast
  next
    case nobody
    then show ?thesis using assms(1,2,6) by blast
  qed
  then obtain s1 fs1 where s1: "s' = sv_destroy_pending_disconnect_clients k s1" "sv_good A fs1 s1"
    "s_current s1 = None" "sv_cfg s1 = sv_cfg s"
    and how: "s1 = s \<and> fs1 = fs \<or> (\<exists>i. sv_active fs s i \<and> s1 = sv_client_event k i d events as s) \<and> fs1 = fs \<or>
       fs1 = fs \<and> s_log s1 = s_log s \<or> (\<exists>i. fs = i # fs1 \<and> s_log s1 = s_log s @ [Client_connected i])"
    by blast
  obtain cs1 ps1 where inv1: "sv_inv A s1 cs1 ps1 fs1" using s1(2) by (auto simp: sv_good_def)
  note d = destroy_pending_good [OF inv1 s1(2,3), of k, unfolded sv_cfg_ok [OF s1(4)], OF assms(3,4) s1(1)]
  show ?thesis by (rule that [OF s1(1,2) inv1 d(1-3) _ d(5) how]) (simp add: d(4) s1(4))
qed

lemma server_process_inv:
  assumes "server_ready A s" "server_codec_ok k s" "server_app_ok s"
    "events AND EPOLLOUT = 0 \<or> soft_writes (s_sys s)"
  shows "\<exists>cs fs. sv_inv A (server_process k d events as s) cs [] fs"
    and "server_ready A (server_process k d events as s)"
    and "sv_cfg (server_process k d events as s) = sv_cfg s"
proof -
  obtain fs where "sv_good A fs s" "s_current s = None" using assms(1) by (auto simp: server_ready_good)
  then obtain cs1 ps1 fs1 where "sv_inv A (server_process k d events as s) cs1 [] (rev ps1 @ fs1)"
    "sv_good A (rev ps1 @ fs1) (server_process k d events as s)"
    "s_current (server_process k d events as s) = None" "sv_cfg (server_process k d events as s) = sv_cfg s"
    by (rule server_process_good [OF _ _ assms(2-4) refl])
  then show "\<exists>cs fs. sv_inv A (server_process k d events as s) cs [] fs"
    "server_ready A (server_process k d events as s)"
    "sv_cfg (server_process k d events as s) = sv_cfg s" by (auto simp: server_ready_good)
qed

end
