(* ===== verification/LinuxServerDemo.thy ===== *)
theory LinuxServerDemo
  imports LinuxServer
begin

text \<open>
  A concrete server, to which the properties are applied: two clients at most, a protocol whose
  messages are their own encoding, an application that counts the messages it gets and replies
  to each of them with what it received, and a process that has the descriptors 0 to 3 open.
\<close>

definition echo_codec :: "(byte list, byte list) codec" where
  "echo_codec =
     \<lparr>in_new = (\<lambda>n. Some []),
      in_decode = (\<lambda>m bs. (if 9 \<in> set bs then - 1 else int (length bs), bs)),
      in_choice = (\<lambda>m. if m = [] then 0 else 1),
      out_new = (\<lambda>n. Some []),
      out_encode = (\<lambda>m n. case m of None \<Rightarrow> None
         | Some bs \<Rightarrow> if length bs \<le> n then Some bs else None)\<rparr>"

definition echo_os :: os where
  "echo_os =
     \<lparr>outcomes = [], wscript = [], fds = [3, 2, 1, 0], interest = (\<lambda>d. None), armed = (\<lambda>d. None),
      fdflags = (\<lambda>d. 0), tx = (\<lambda>d. []), peer = (\<lambda>d. None),
      aton = (\<lambda>s. if s = ''127.0.0.1'' then Some 0x7f000001 else None), mallocs = []\<rparr>"

definition echo :: "nat \<Rightarrow> byte list \<Rightarrow> nat \<Rightarrow> nat \<times> byte list server_request list" where
  "echo i m n = (Suc n, [Prepare_message (\<lambda>_. m), Reply])"

text \<open>The struct before \<open>NAME_server_init\<close>: its fields are whatever the memory held.\<close>

definition echo_junk :: sclient where
  "echo_junk =
     \<lparr>k_fd = 77, k_timer = 77,
      k_input = \<lparr>i_buf = [], i_cap = 0, i_size = 77, i_left = 77, i_state = Payload, i_overrun = False\<rparr>,
      k_head = Some 7, k_tail = Some 7, k_next = Some 7, k_prev = None\<rparr>"

definition echo_struct :: "(nat, byte list, byte list) server" where
  "echo_struct =
     \<lparr>s_address = ''x'', s_port = 7, s_on_client_connected = (\<lambda>i u. (u, [])),
      s_on_client_disconnected = (\<lambda>i u. (u, [])), s_on_message = (\<lambda>n. None),
      s_epoll_fd = 77, s_epoll_ctl = Epoll_default, s_listener_fd = 77, s_current = Some 7,
      s_connected = Some 7, s_free = None, s_pending = Some 7, s_input_buffer_size = 7,
      s_in_message = None, s_in_workspace_size = 0, s_out_message = None, s_out_workspace_size = 0,
      s_out_buf = [], s_out_size = 0, s_max = 0, s_clients = (\<lambda>i. echo_junk), s_heap = (\<lambda>a. None),
      s_brk = 0, s_app = 0, s_sys = echo_os, s_log = [], s_fault = True, s_hang = True\<rparr>"

definition echo_init :: "int \<times> (nat, byte list, byte list) server" where
  "echo_init =
     server_init ''tcp://127.0.0.1:6000'' 2 (replicate 32 0) 16 (replicate 12 0) 64 64
       None None [(0, None), (1, Some echo)] 3 None echo_struct"

text \<open>After \<open>NAME_server_start\<close>, and once a first and a second client have connected.\<close>

definition echo_callbacks :: "nat \<Rightarrow> (nat \<Rightarrow> byte list \<Rightarrow> nat \<Rightarrow> nat \<times> byte list server_request list) option" where
  "echo_callbacks = (\<lambda>n. if n = 0 then Some sv_on_message_default else if n = 1 then Some echo else None)"

definition echo_fresh :: "ptr \<Rightarrow> sclient" where
  "echo_fresh p = echo_junk\<lparr>k_next := p,
     k_input := \<lparr>i_buf = replicate 16 0, i_cap = 16, i_size = 77, i_left = 77, i_state = Payload, i_overrun = False\<rparr>\<rparr>"

definition echo_up :: "(nat, byte list, byte list) server" where
  "echo_up =
     echo_struct\<lparr>s_address := ''127.0.0.1'', s_port := 6000, s_on_client_connected := sv_on_client_default,
       s_on_client_disconnected := sv_on_client_default, s_on_message := echo_callbacks, s_epoll_fd := 3,
       s_listener_fd := 4, s_current := None, s_connected := None, s_free := Some 0, s_pending := None,
       s_input_buffer_size := 16, s_in_workspace_size := 64, s_out_workspace_size := 64,
       s_out_buf := replicate 12 0, s_out_size := 12, s_max := 2,
       s_clients := (\<lambda>i. echo_junk)(0 := echo_fresh (Some 1), 1 := echo_fresh None),
       s_sys := echo_os\<lparr>fds := [4, 3, 2, 1, 0], interest := (\<lambda>d. None)(4 := Some EPOLLIN),
         armed := (\<lambda>d. None)(4 := None), fdflags := (\<lambda>d. 0)(4 := 0 OR O_NONBLOCK),
         tx := (\<lambda>d. [])(4 := []), peer := (\<lambda>d. None)(4 := Some (0x7f000001, 6000))\<rparr>,
       s_fault := False, s_hang := False\<rparr>"

definition echo_connected :: "fd \<Rightarrow> fd \<Rightarrow> ptr \<Rightarrow> ptr \<Rightarrow> sclient" where
  "echo_connected d t p q = echo_junk\<lparr>k_fd := d, k_timer := t, k_head := None, k_next := p, k_prev := q,
     k_input := \<lparr>i_buf = replicate 16 0, i_cap = 16, i_size = 0, i_left = 4, i_state = Header, i_overrun = False\<rparr>\<rparr>"

definition echo_one :: "(nat, byte list, byte list) server" where
  "echo_one =
     echo_up\<lparr>s_connected := Some 0, s_free := Some 1,
       s_clients := (\<lambda>i. echo_junk)(0 := echo_connected 5 6 None None, 1 := echo_fresh None),
       s_sys := (s_sys echo_up)\<lparr>fds := [6, 5, 4, 3, 2, 1, 0],
         interest := (\<lambda>d. None)(4 := Some EPOLLIN, 6 := Some EPOLLIN, 5 := Some EPOLLIN),
         armed := (\<lambda>d. None)(6 := Some 3),
         fdflags := (\<lambda>d. 0)(4 := O_NONBLOCK, 5 := O_NONBLOCK), tx := (\<lambda>d. [])\<rparr>,
       s_log := [Client_connected 0]\<rparr>"

definition echo_two :: "(nat, byte list, byte list) server" where
  "echo_two =
     echo_up\<lparr>s_connected := Some 1, s_free := None,
       s_clients := (\<lambda>i. echo_junk)(0 := echo_connected 5 6 None (Some 1), 1 := echo_connected 7 8 (Some 0) None),
       s_sys := (s_sys echo_up)\<lparr>fds := [8, 7, 6, 5, 4, 3, 2, 1, 0],
         interest := (\<lambda>d. None)(4 := Some EPOLLIN, 5 := Some EPOLLIN, 6 := Some EPOLLIN, 7 := Some EPOLLIN, 8 := Some EPOLLIN),
         armed := (\<lambda>d. None)(6 := Some 3, 8 := Some 3),
         fdflags := (\<lambda>d. 0)(4 := O_NONBLOCK, 5 := O_NONBLOCK, 7 := O_NONBLOCK),
         tx := (\<lambda>d. [])\<rparr>,
       s_log := [Client_connected 0, Client_connected 1]\<rparr>"

text \<open>The definitions above are what the server computes.\<close>

lemma lowest_free_demo:
  "lowest_free [3, 2, 1, 0] = 4" "lowest_free [4, 3, 2, 1, 0] = 5" "lowest_free [5, 4, 3, 2, 1, 0] = 6"
  "lowest_free [6, 5, 4, 3, 2, 1, 0] = 7" "lowest_free [7, 6, 5, 4, 3, 2, 1, 0] = 8"
  by code_simp+

lemmas echo_unfold =
  echo_up_def echo_two_def echo_struct_def echo_os_def echo_fresh_def echo_connected_def echo_junk_def
  sys_socket_def sys_new_fd_def sys_try_def lowest_free_demo sys_setsockopt_def sys_bind_def
  sys_listen_def messi_make_non_blocking_def sys_fcntl_getfl_def sys_fcntl_setfl_def sys_on_fd_def
  sv_epoll_ctl_add_def messi_epoll_ctl_default_def sys_epoll_ctl_def sv_close_def
  sys_accept_def sys_timerfd_create_def sys_timerfd_settime_def

lemma echo_started:
  "fst echo_init = 0" "server_start (snd echo_init) = (0, echo_up)"
  and echo_init_callbacks: "s_on_message (snd echo_init) = echo_callbacks"
    "s_on_client_connected (snd echo_init) = sv_on_client_default"
    "s_on_client_disconnected (snd echo_init) = sv_on_client_default"
proof -
  have uri: "messi_parse_tcp_uri ''tcp://127.0.0.1:6000'' 16 = Some (''127.0.0.1'', 6000)" by code_simp
  have cb: "[0 \<mapsto> sv_on_message_default, Suc 0 \<mapsto> echo] = echo_callbacks"
    "[Suc 0 \<mapsto> echo, 0 \<mapsto> sv_on_message_default] = echo_callbacks"
    by (auto simp: fun_eq_iff echo_callbacks_def)
  show "fst echo_init = 0" by (simp add: echo_init_def server_init_def uri Let_def)
  show "s_on_message (snd echo_init) = echo_callbacks"
    "s_on_client_connected (snd echo_init) = sv_on_client_default"
    "s_on_client_disconnected (snd echo_init) = sv_on_client_default"
    by (simp_all add: echo_init_def server_init_def uri cb Let_def)
  show "server_start (snd echo_init) = (0, echo_up)"
    by (simp add: echo_init_def server_init_def server_start_def uri cb sv_init_client_def sv_start_out_def
        echo_unfold sv_sin_port_def Let_def fun_upd_twist)
qed

lemmas echo_process =
  server_process_def sv_process_listener_def sv_alloc_client_def sv_client_init_def sv_upd_def
  sv_client_reset_input_def sv_client_start_keep_alive_timer_def sv_callback_def sv_on_client_default_def
  sv_destroy_pending_disconnect_clients_def sv_client_init_out1_def sv_client_init_out2_def
  sv_process_listener_out1_def sv_process_listener_out2_def header_sizeof_def

lemma echo_accepts:
  "server_process echo_codec 4 EPOLLIN [] echo_up = echo_one"
  "server_process echo_codec 4 EPOLLIN [] echo_one = echo_two"
proof -
  have upd: "(\<lambda>d. c)(x := c) = (\<lambda>d. c)" for c x by auto
  have two: "sv_destroy_loop k 2 None s = s" for k s by (simp add: numeral_2_eq_2)
  show "server_process echo_codec 4 EPOLLIN [] echo_up = echo_one"
    by (simp add: echo_one_def echo_process echo_unfold Let_def two fun_eq_iff)
  show "server_process echo_codec 4 EPOLLIN [] echo_one = echo_two"
    by (simp add: echo_one_def echo_process echo_unfold Let_def two fun_eq_iff)
qed

end
