(* ===== verification/LinuxServerSafe.thy ===== *)
theory LinuxServerSafe
  imports LinuxServerProcess LinuxServerDemo
begin

text \<open>
  The linux server as a whole: what \<open>NAME_server_init\<close> and \<open>NAME_server_start\<close> set up, runs of
  the server, and the invariant along every run.
\<close>

section \<open>Setting up a server\<close>

lemma init_clients_next:
  "k_next (fold (\<lambda>i. sv_init_client bufs sz (Some (i + 1)) i) [0..<n] c j) =
     (if j < n then Some (Suc j) else k_next (c j))"
  by (induction n) (auto simp: sv_init_client_def less_Suc_eq)

lemma lseg_upt:
  assumes "\<And>j. j < n \<Longrightarrow> f j = Some (Suc j)" "f n = None" "m \<le> n"
  shows "lseg f (Some m) [m..<Suc n]"
  using assms(3)
proof (induction "n - m" arbitrary: m)
  case 0
  then show ?case using assms(2) by simp
next
  case (Suc l)
  then have "lseg f (Some (Suc m)) [Suc m..<Suc n]" by auto
  then show ?case using Suc.hyps(2) assms(1) [of m] by (simp add: upt_conv_Cons del: upt_Suc)
qed

lemma server_init_ready:
  assumes "server_init uri n bufs sz buf wi wo onc ond msgs e ctl s0 = (0, s)"
    "0 < n" "\<forall>d \<in> set (fds (s_sys s0)). 0 \<le> d" "s_heap s0 = (\<lambda>a. None)"
  shows "sv_inv (set (fds (s_sys s0))) s [] [] [0..<nat n]" "s_current s = None" "s_out_buf s = buf"
    "s_out_size s = length buf" "s_out_workspace_size s = wo" "s_sys s = s_sys s0" "s_max s = nat n"
proof -
  obtain address prt where uri: "messi_parse_tcp_uri uri 16 = Some (address, prt)"
    using assms(1) by (auto simp: server_init_def Let_def split: option.splits)
  let ?last = "nat (n - 1)"
  define cs where "cs = sv_init_client bufs sz None ?last
    (fold (\<lambda>i. sv_init_client bufs sz (Some (i + 1)) i) [0..<?last] (s_clients s0))"
  have s: "s_clients s = cs" "s_free s = Some 0" "s_connected s = None" "s_pending s = None" "s_max s = nat n"
    "s_heap s = s_heap s0" "s_sys s = s_sys s0" "s_fault s = False" "s_hang s = False"
    using assms(1,2) by (auto simp: server_init_def uri cs_def Let_def)
  show "s_current s = None" "s_out_buf s = buf" "s_out_size s = length buf" "s_out_workspace_size s = wo"
    "s_sys s = s_sys s0" "s_max s = nat n"
    using assms(1) by (auto simp: server_init_def uri Let_def)
  have n: "Suc ?last = nat n" using assms(2) by simp
  have "lseg (nxt s) (Some 0) [0..<Suc ?last]"
    by (rule lseg_upt) (simp_all add: s(1) cs_def sv_init_client_def [of _ _ None] init_clients_next [simplified])
  then have "sv_lists s [] [] [0..<nat n]"
    unfolding n by (auto simp: sv_lists_def s)
  moreover have "sv_queues s (set []) (\<lambda>i. [])" by (auto simp: sv_queues_def s assms(4))
  moreover have "sv_fds (set (fds (s_sys s0))) s [] []" using assms(3) by (simp add: sv_fds_def s)
  ultimately show "sv_inv (set (fds (s_sys s0))) s [] [] [0..<nat n]"
    by (auto simp: sv_inv_def s)
qed

text \<open>Every branch of \<open>NAME_server_start\<close>: a failure closes the listener again.\<close>

lemma server_start_effect:
  assumes "server_start s = (res, s')"
  obtains (started) l os where "res = 0" "s' = s\<lparr>s_sys := os, s_listener_fd := l\<rparr>" "0 \<le> l"
      "l \<notin> set (fds (s_sys s))" "fds os = l # fds (s_sys s)"
  | (failed) os where "res = 1 \<or> res = - 1" "s' = s\<lparr>s_sys := os\<rparr>" "fds os = fds (s_sys s)"
proof -
  obtain l os1 where so: "sys_socket (s_sys s) = (l, os1)" by fastforce
  have new: "l = - 1 \<and> fds os1 = fds (s_sys s) \<or> 0 \<le> l \<and> l \<notin> set (fds (s_sys s)) \<and> fds os1 = l # fds (s_sys s)"
    using new_fd_effect so by (simp add: sys_socket_def)
  have f: "fds (snd (sys_setsockopt l os)) = fds os" "fds (snd (sys_bind l ip p os)) = fds os"
    "fds (snd (sys_listen l os)) = fds os" "fds (snd (messi_make_non_blocking l os)) = fds os"
    "fds (snd (call_epoll_ctl g ep eop l ev os)) = fds os" for os ip p g ep eop ev
    by (simp_all add: os_simps)
  have "(\<exists>os. res = 0 \<and> s' = s\<lparr>s_sys := os, s_listener_fd := l\<rparr> \<and> 0 \<le> l \<and> l \<notin> set (fds (s_sys s)) \<and>
        fds os = l # fds (s_sys s)) \<or>
      (\<exists>os. (res = 1 \<or> res = - 1) \<and> s' = s\<lparr>s_sys := os\<rparr> \<and> fds os = fds (s_sys s))"
    using assms new
    by (auto simp: server_start_def so sv_start_out_def sv_close_def sv_epoll_ctl_add_def Let_def
        case_prod_unfold f os_simps split: if_splits option.splits)
  then show ?thesis using started failed by blast
qed

lemma started_inv:
  assumes "sv_inv A s [] [] fs" "0 \<le> l" "l \<notin> set (fds (s_sys s))" "fds os = l # fds (s_sys s)"
  shows "sv_inv (insert l A) (s\<lparr>s_sys := os, s_listener_fd := l\<rparr>) [] [] fs"
proof -
  have "sv_lists (s\<lparr>s_sys := os, s_listener_fd := l\<rparr>) [] [] fs = sv_lists s [] [] fs"
    by (rule sv_lists_cong) simp_all
  then show ?thesis
    using assms by (auto simp: sv_inv_def sv_fds_def sv_queues_def)
qed

lemma sv_fds_open:
  assumes "sv_fds A s cs ps"
  shows "set (fds (s_sys s)) = A \<union> (\<lambda>i. k_fd (s_clients s i)) ` set cs \<union>
    (\<lambda>i. k_timer (s_clients s i)) ` set (cs @ ps)"
proof -
  note f = sv_fdsD [OF assms]
  have "(\<Union>i \<in> set (cs @ ps). owned s i) = (\<lambda>i. k_fd (s_clients s i)) ` set cs \<union>
      (\<lambda>i. k_timer (s_clients s i)) ` set (cs @ ps)"
  proof -
    have "owned s i = {k_fd (s_clients s i), k_timer (s_clients s i)}" if "i \<in> set cs" for i
      using f(9,10) [of i] that by (auto simp: owned_def)
    moreover have "owned s i = {k_timer (s_clients s i)}" if "i \<in> set ps" for i
      using f(5,10) [of i] that by (auto simp: owned_def)
    ultimately show ?thesis by auto
  qed
  moreover have "(\<Union>i \<in> set (cs @ ps). owned s i) \<subseteq> set (fds (s_sys s))"
    using f(2,3,5) by (auto simp: owned_def)
  ultimately show ?thesis using f(8) by blast
qed

section \<open>Runs\<close>

text \<open>A client an application may refer to.\<close>

definition sv_in_use :: "('u, 'i, 'o) server \<Rightarrow> nat \<Rightarrow> bool" where
  "sv_in_use s i \<longleftrightarrow> (\<exists>cs. lseg (nxt s) (s_connected s) cs \<and> i \<in> set cs)"

text \<open>
  What happens to a server that has been started, in any order: events are processed, the
  application calls a function that refers to a connected client, and the system decides how
  the next calls will turn out. One behaviour of the system is left out: that a \<open>write\<close> fails for
  good (not just with \<open>EAGAIN\<close>) while the queue of a client is written, which is only done for
  \<open>EPOLLOUT\<close> events. Then the server frees an item twice (\<open>server_double_free\<close>). Writes that fail
  for good at any other time are covered.
\<close>

inductive server_reach :: "('i, 'o) codec \<Rightarrow> ('u, 'i, 'o) server \<Rightarrow> ('u, 'i, 'o) server \<Rightarrow> bool"
  for k s0 where
  start: "server_reach k s0 s0"
| process: "server_reach k s0 s \<Longrightarrow> events AND EPOLLOUT = 0 \<or> soft_writes (s_sys s) \<Longrightarrow>
    server_reach k s0 (server_process k d events as s)"
| call: "server_reach k s0 s \<Longrightarrow> sv_in_use s i \<Longrightarrow> request_for i r \<Longrightarrow>
    server_reach k s0 (server_call k r s)"
| system: "server_reach k s0 s \<Longrightarrow>
    server_reach k s0 (s\<lparr>s_sys := (s_sys s)\<lparr>outcomes := bs, wscript := ws, mallocs := ms\<rparr>\<rparr>)"

lemma server_reach_ready:
  assumes "server_reach k s0 s" "server_ready A s0" "server_codec_ok k s0" "server_app_ok s0"
  shows "server_ready A s \<and> sv_cfg s = sv_cfg s0"
  using assms(1)
proof (induction rule: server_reach.induct)
  case start
  then show ?case using assms(2) by simp
next
  case (process s events d as)
  then show ?case
    using server_process_inv [of A s k events d as] assms(3,4) sv_cfg_ok [of s s0] by simp
next
  case (call s i r)
  then have cfg: "sv_cfg s = sv_cfg s0" by blast
  obtain fs where good: "sv_good A fs s" and cur: "s_current s = None"
    using call.IH by (auto simp: server_ready_good)
  then obtain cs ps where inv: "sv_inv A s cs ps fs" by (auto simp: sv_good_def)
  have "i \<in> set cs"
    using call.hyps(2) lseg_unique sv_inv_lists [OF inv] by (auto simp: sv_in_use_def sv_lists_def)
  then have "sv_active fs s i" by (simp add: sv_active_iff [OF inv])
  then have "sv_good A fs (server_call k r s)"
    using server_call_good [OF good _ _ call.hyps(3), of k] assms(3) sv_cfg_ok(2) [OF cfg] by simp
  then show ?case
    using cur cfg sv_keepsD(1) [OF server_call_keeps, of k r s] by (auto simp: server_ready_good)
next
  case (system s ms ws bs)
  let ?s = "s\<lparr>s_sys := (s_sys s)\<lparr>outcomes := bs, wscript := ws, mallocs := ms\<rparr>\<rparr>"
  have "sv_inv A ?s cs ps fs = sv_inv A s cs ps fs" for cs ps fs
    by (rule sv_inv_cong) (simp_all add: same_clients_def)
  then show ?case using system.IH by (simp add: server_ready_def sv_buffers_ok_def)
qed

text \<open>A server that has been set up and started.\<close>

lemma started_ready:
  assumes "server_init uri n bufs sz buf wi wo onc ond msgs e ctl s0 = (0, s1)" "server_start s1 = (0, s2)"
    "0 < n" "\<forall>d \<in> set (fds (s_sys s0)). 0 \<le> d" "s_heap s0 = (\<lambda>a. None)"
    "header_sizeof \<le> length buf" "length buf < 2 ^ 64"
  shows "server_ready (insert (s_listener_fd s2) (set (fds (s_sys s0)))) s2" "sv_inv (insert (s_listener_fd s2)
    (set (fds (s_sys s0)))) s2 [] [] [0..<nat n]" "s_log s2 = s_log s0" "s_max s2 = nat n"
    "s_on_client_connected s2 = s_on_client_connected s1" "s_on_client_disconnected s2 = s_on_client_disconnected s1"
    "s_on_message s2 = s_on_message s1" "s_out_workspace_size s2 = wo" "s_current s2 = None"
    "sv_good (insert (s_listener_fd s2) (set (fds (s_sys s0)))) [0..<nat n] s2"
    "codec_fits k \<Longrightarrow> out_new k wo \<noteq> None \<Longrightarrow> server_codec_ok k s2" "server_app_ok s1 \<Longrightarrow> server_app_ok s2"
    "s_clients s2 = s_clients s1"
proof -
  note i = server_init_ready [OF assms(1,3,4,5)]
  obtain l os where st: "s2 = s1\<lparr>s_sys := os, s_listener_fd := l\<rparr>" "0 \<le> l" "l \<notin> set (fds (s_sys s1))"
    "fds os = l # fds (s_sys s1)"
    by (rule server_start_effect [OF assms(2)]) auto
  show inv: "sv_inv (insert (s_listener_fd s2) (set (fds (s_sys s0)))) s2 [] [] [0..<nat n]"
    using started_inv [OF i(1), of l os] st i(6) by simp
  then show "server_ready (insert (s_listener_fd s2) (set (fds (s_sys s0)))) s2"
    "sv_good (insert (s_listener_fd s2) (set (fds (s_sys s0)))) [0..<nat n] s2"
    using assms(6,7) i by (auto simp: server_ready_def sv_good_def st(1) sv_buffers_ok_def)
  show "s_log s2 = s_log s0"
    using assms(1) by (auto simp: st(1) server_init_def Let_def split: option.splits)
  show "s_max s2 = nat n" "s_on_client_connected s2 = s_on_client_connected s1"
    "s_on_client_disconnected s2 = s_on_client_disconnected s1" "s_current s2 = None"
    "s_on_message s2 = s_on_message s1" "s_out_workspace_size s2 = wo" "s_clients s2 = s_clients s1"
    "codec_fits k \<Longrightarrow> out_new k wo \<noteq> None \<Longrightarrow> server_codec_ok k s2" "server_app_ok s1 \<Longrightarrow> server_app_ok s2"
    using i by (simp_all add: st(1) server_codec_ok_def server_app_ok_def)
qed

text \<open>C1: A server that has been set up and started stays safe, whatever clients send and in whatever
  order things happen, when the generated code keeps to the space it is given and under three
  conditions: the requests that callbacks make refer to the
  client of the callback, and those made for a client that is disconnected do not broadcast
  (\<open>server_app_ok\<close>); what the application calls outside of callbacks refers to a connected client;
  and no \<open>write\<close> fails for good while a queue is written for an \<open>EPOLLOUT\<close> event
  (\<open>server_reach\<close>). Any other system call may fail. Then the server never uses a client or a queue item
  after it has been freed and never follows \<open>NULL\<close>; every loop over a list ends; every slot of
  the array is in exactly one of the three lists; and the open descriptors are exactly those the
  process had before, the listener, and a socket and a timer per connected client (a timer per
  client whose disconnection is pending): no descriptor is leaked, shared or closed twice. Without
  the conditions this is not so (\<open>server_double_free\<close>, \<open>server_crashes_on_broadcast\<close>).\<close>

theorem server_stays_safe:
  assumes "server_init uri n bufs sz buf wi wo onc ond msgs e ctl s0 = (0, s1)"
    "server_start s1 = (0, s2)" "server_reach k s2 s"
    "0 < n" "\<forall>d \<in> set (fds (s_sys s0)). 0 \<le> d" "s_heap s0 = (\<lambda>a. None)"
    "header_sizeof \<le> length buf" "length buf < 2 ^ 64"
    "codec_fits k" "out_new k wo \<noteq> None" "server_app_ok s1"
  shows "\<not> s_fault s \<and> \<not> s_hang s \<and>
    (\<exists>cs ps fs. distinct (cs @ ps @ fs) \<and> set (cs @ ps @ fs) = {0..<nat n} \<and>
      lseg (nxt s) (s_connected s) cs \<and> lseg (nxt s) (s_pending s) ps \<and> lseg (nxt s) (s_free s) fs \<and>
      set (fds (s_sys s)) = set (fds (s_sys s0)) \<union> {s_listener_fd s} \<union>
        (\<lambda>i. k_fd (s_clients s i)) ` set cs \<union> (\<lambda>i. k_timer (s_clients s i)) ` set (cs @ ps))"
proof -
  let ?A = "insert (s_listener_fd s2) (set (fds (s_sys s0)))"
  note i = started_ready [OF assms(1,2,4-8)]
  have r: "server_ready ?A s" "sv_cfg s = sv_cfg s2"
    using server_reach_ready [OF assms(3) i(1) i(11) [OF assms(9,10)] i(12) [OF assms(11)]] by simp_all
  then obtain cs ps fs where inv: "sv_inv ?A s cs ps fs" by (auto simp: server_ready_def)
  then obtain Q where q: "sv_lists s cs ps fs" "sv_fds ?A s cs ps" "\<not> s_fault s" "\<not> s_hang s"
    by (auto simp: sv_inv_def)
  have c: "s_listener_fd s = s_listener_fd s2" "s_max s = nat n"
    using sv_cfgD [OF r(2)] i(4) by simp_all
  have open_fds: "set (fds (s_sys s)) = set (fds (s_sys s0)) \<union> {s_listener_fd s} \<union>
      (\<lambda>i. k_fd (s_clients s i)) ` set cs \<union> (\<lambda>i. k_timer (s_clients s i)) ` set (cs @ ps)"
    by (subst sv_fds_open [OF q(2)]) (simp add: c(1))
  show ?thesis
    by (intro conjI exI [of _ cs] exI [of _ ps] exI [of _ fs])
      (fact q(3,4) pool.pool_distinct [OF q(1)] open_fds q(1) [unfolded sv_lists_def c(2), THEN conjunct1]
        q(1) [unfolded sv_lists_def c(2), THEN conjunct2, THEN conjunct1]
        q(1) [unfolded sv_lists_def c(2), THEN conjunct2, THEN conjunct2, THEN conjunct1]
        q(1) [unfolded sv_lists_def c(2), THEN conjunct2, THEN conjunct2, THEN conjunct2, THEN conjunct2,
          THEN conjunct1])+
qed

lemma echo_ok:
  "codec_fits echo_codec" "out_new echo_codec n \<noteq> None" "server_app_ok (snd echo_init)"
proof -
  show "codec_fits echo_codec"
    by (auto simp: codec_fits_def echo_codec_def split: option.splits if_splits)
  show "out_new echo_codec n \<noteq> None" by (simp add: echo_codec_def)
  show "server_app_ok (snd echo_init)"
    by (auto simp: server_app_ok_def echo_init_callbacks echo_callbacks_def sv_on_client_default_def
        sv_on_message_default_def echo_def split: if_splits)
qed

lemma server_stays_safe_witness:
  "let s = server_process echo_codec 5 EPOLLIN [Chunk [1, 0, 0, 1, 7]] (server_process echo_codec 4 EPOLLIN [] echo_up)
   in \<not> s_fault s \<and> \<not> s_hang s"
proof -
  have r: "server_reach echo_codec echo_up (server_process echo_codec 5 EPOLLIN [Chunk [1, 0, 0, 1, 7]]
      (server_process echo_codec 4 EPOLLIN [] echo_up))"
    by (intro server_reach.process server_reach.start) (simp_all add: EPOLLIN_def EPOLLOUT_def)
  have init: "server_init ''tcp://127.0.0.1:6000'' 2 (replicate 32 0) 16 (replicate 12 0) 64 64
       None None [(0, None), (1, Some echo)] 3 None echo_struct = (0, snd echo_init)"
    using echo_started(1) by (simp add: echo_init_def prod_eq_iff)
  show ?thesis
    unfolding Let_def
    using server_stays_safe [OF init echo_started(2) r] echo_ok
    by (simp add: echo_struct_def echo_os_def header_sizeof_def)
qed

end
