(* ===== verification/LinuxServerMessages.thy ===== *)
theory LinuxServerMessages
  imports LinuxServerSafe
begin

text \<open>
  What a client of the linux server can rely on: its byte stream is handled frame by frame, its
  messages reach the application in order, a ping is answered, and what is sent to it arrives in
  order and complete.
\<close>

section \<open>Receiving\<close>

text \<open>A connected client whose input buffer is in order; \<open>server_fresh\<close>: between two messages.\<close>

definition server_sound :: "nat \<Rightarrow> ('u, 'i, 'o) server \<Rightarrow> bool" where
  "server_sound i s \<longleftrightarrow> sv_no_minus s \<and> sv_receiving i s \<and> input_ok (k_input (s_clients s i))"

definition server_fresh :: "nat \<Rightarrow> ('u, 'i, 'o) server \<Rightarrow> bool" where
  "server_fresh i s \<longleftrightarrow> sv_no_minus s \<and> sv_receiving i s \<and> input_fresh (k_input (s_clients s i))"

text \<open>
  The specification of the loop. A connected client's frame that does not fit drops the
  connection, any other is handled according to its type, and dropped if that fails.
\<close>

definition server_deliver ::
    "('i, 'o) codec \<Rightarrow> nat \<Rightarrow> byte \<times> byte list \<Rightarrow> ('u, 'i, 'o) server \<Rightarrow> ('u, 'i, 'o) server" where
  "server_deliver k i f s =
     (if \<not> sv_receiving i s then s
      else if i_cap (k_input (s_clients s i)) < header_sizeof + length (snd f)
      then sv_client_pending_disconnect i (sv_set_input i (input_oversized f (k_input (s_clients s i))) s)
      else
        (let (res, s1) = sv_handle_message k i (fst f)
               (sv_set_input i (input_loaded f (k_input (s_clients s i))) s)
         in if res = 0 then sv_client_reset_input i s1 else sv_client_pending_disconnect i s1))"

definition server_finish :: "nat \<Rightarrow> bool \<Rightarrow> ('u, 'i, 'o) server \<Rightarrow> ('u, 'i, 'o) server" where
  "server_finish i again s =
     (if sv_receiving i s \<and> again then s else sv_client_pending_disconnect i s)"

lemma svr_deliver_eq: "svr.deliver i k = server_deliver k i"
  by (intro ext) (simp add: svr.deliver_def server_deliver_def sv_dispatch_def server_simps
      input_loaded_type)

lemma svr_finish_eq: "svr.finish i = server_finish i"
  by (intro ext) (simp add: svr.finish_def server_finish_def)

lemma server_sound_svr: "server_sound i s \<Longrightarrow> svr.sound i s"
  by (simp add: server_sound_def svr.sound_def input_ok_def)

lemma server_frames:
  assumes "server_fresh i s" "\<forall>f \<in> set fs. length (snd f) < 2 ^ 24" "arrived as = concat (map frame fs)"
  shows "sv_process_client_socket_in k i as s =
    server_finish i (try_again as) (fold (server_deliver k i) fs s)"
  using svr.loop_frames [where i = i and s = s and fs = fs and as = as and k = k] assms
  by (simp add: server_fresh_def svr_deliver_eq svr_finish_eq)

text \<open>C9: Whatever stream of well-formed frames a client sends and however the network cuts it
  into pieces, one call of \<open>process_client_socket_in\<close> handles exactly these frames, in their
  order and each as a whole, and then ends as the last read tells it to (nothing more to read
  yet, or the client is given up). Callbacks may do anything an application can do, also with
  other clients.\<close>

theorem server_handles_frames:
  assumes "server_fresh i s" "\<forall>f \<in> set fs. length (snd f) < 2 ^ 24"
    "arrived as = concat (map frame fs)"
  shows "sv_process_client_socket_in k i as s =
    server_finish i (try_again as) (fold (server_deliver k i) fs s)"
  using assms by (rule server_frames)

text \<open>C24: The pieces in which the same bytes arrive from a client make no difference for the server:
  its whole state is the same, with the callbacks it made and what it sent to whom, also when the
  stream stops in the middle of a message or the client is given up.\<close>

theorem server_chunking_irrelevant:
  assumes "server_sound i s" "arrived as = arrived bs" "try_again as = try_again bs"
  shows "sv_process_client_socket_in k i as s = sv_process_client_socket_in k i bs s"
  using svr.loop_chunking [where i = i and s = s and as = as and bs = bs and k = k]
    server_sound_svr [OF assms(1)] assms by simp

text \<open>Whatever a client sends, the server never stores a byte outside of the part of the input
  memory that belongs to that client.\<close>

lemma server_never_overruns:
  assumes "server_sound i s"
  shows "\<not> i_overrun (k_input (s_clients (sv_process_client_socket_in k i as s) i))"
  using svr.loop_no_overrun [where i = i and s = s and as = as and k = k] server_sound_svr [OF assms]
  by simp

text \<open>Two clients are connected; the first sends a message that is echoed, cut in two, and a ping.\<close>

definition echo_arrivals :: "arrival list" where
  "echo_arrivals = [Chunk [1, 0, 0, 2, 5], Chunk [7, 3, 0, 0, 0]]"

definition echo_frames :: "(byte \<times> byte list) list" where
  "echo_frames = [(1, [5, 7]), (3, [])]"

lemma echo_arrivals:
  "arrived echo_arrivals = concat (map frame echo_frames)" "try_again echo_arrivals"
  "\<forall>f \<in> set echo_frames. length (snd f) < 2 ^ 24"
  by (simp_all add: echo_arrivals_def echo_frames_def frame_def header_bytes_def
      messi_header_create_def messi_header_set_size_def)

lemma echo_two_fresh: "server_fresh 0 echo_two" "server_sound 0 echo_two"
  by (simp_all add: server_fresh_def server_sound_def sv_no_minus_def sv_receiving_def input_fresh_def
      input_ok_def echo_two_def echo_connected_def header_sizeof_def)

lemma server_handles_frames_witness:
  "sv_process_client_socket_in echo_codec 0 echo_arrivals echo_two =
     server_finish 0 True (fold (server_deliver echo_codec 0) echo_frames echo_two)"
  using server_handles_frames [OF echo_two_fresh(1) echo_arrivals(3,1), of echo_codec]
  by (simp add: echo_arrivals(2))

lemma server_chunking_irrelevant_witness:
  "sv_process_client_socket_in echo_codec 0 echo_arrivals echo_two =
     sv_process_client_socket_in echo_codec 0 [Chunk [1, 0, 0, 2, 5, 7, 3, 0, 0, 0]] echo_two"
  by (rule server_chunking_irrelevant [OF echo_two_fresh(2)]) (simp_all add: echo_arrivals_def)

lemma server_never_overruns_witness:
  "\<not> i_overrun (k_input (s_clients
     (sv_process_client_socket_in echo_codec 0 [Chunk (1 # 255 # replicate 30 255)] echo_two) 0))"
  by (rule server_never_overruns [OF echo_two_fresh(2)])

section \<open>Messages to the application\<close>

text \<open>The callbacks for a frame, if it does not drop the connection.\<close>

definition message_events ::
    "('i, 'o) codec \<Rightarrow> nat \<Rightarrow> ('u, 'i, 'o) server \<Rightarrow> byte \<times> byte list \<Rightarrow> 'i server_event list" where
  "message_events k i s f =
     (if fst f = MESSI_MESSAGE_TYPE_CLIENT_TO_SERVER_USER
      then (case in_new k (s_in_workspace_size s) of
              None \<Rightarrow> []
            | Some m0 \<Rightarrow> (let m = snd (in_decode k m0 (snd f))
                in if s_on_message s (in_choice k m) = None then []
                   else [Client_message i (in_choice k m) m]))
      else [])"

lemma message_events_cfg: "sv_cfg s' = sv_cfg s \<Longrightarrow> message_events k i s' f = message_events k i s f"
  using sv_cfgD [of s' s] by (simp add: message_events_def Let_def split: option.split)

lemma handle_message_events:
  assumes "k_input (s_clients s i) = input_loaded f inp"
  shows "fst (sv_handle_message k i (fst f) s) = 0 \<Longrightarrow>
      s_log (snd (sv_handle_message k i (fst f) s)) = s_log s @ message_events k i s f"
    and "fst (sv_handle_message k i (fst f) s) \<noteq> 0 \<Longrightarrow>
      s_log (snd (sv_handle_message k i (fst f) s)) = s_log s"
proof -
  have p: "i_size (input_loaded f inp) - header_sizeof = length (snd f)"
    "take (length (snd f)) (drop header_sizeof (i_buf (input_loaded f inp))) = snd f"
    using input_loaded_payload [of f inp] by simp_all
  have user: "(fst (sv_handle_message_user k i s) = 0 \<longrightarrow> fst f = MESSI_MESSAGE_TYPE_CLIENT_TO_SERVER_USER \<longrightarrow>
      s_log (snd (sv_handle_message_user k i s)) = s_log s @ message_events k i s f) \<and>
    (fst (sv_handle_message_user k i s) \<noteq> 0 \<longrightarrow> s_log (snd (sv_handle_message_user k i s)) = s_log s)"
    by (auto simp: sv_handle_message_user_def message_events_def assms p Let_def
        split: option.split prod.split simp del: input_loaded_simps)
  have ping: "s_log (snd (sv_handle_message_ping i s)) = s_log s"
  proof -
    obtain res s1 where t: "sv_client_start_keep_alive_timer i s = (res, s1)" by fastforce
    then have "s_log s1 = s_log s" using start_keep_alive_eq by fastforce
    then show ?thesis
      using sv_quietD(2) [OF client_write_quiet [OF sv_quiet_refl], of i _ s1]
      by (simp add: sv_handle_message_ping_def t Let_def)
  qed
  show "fst (sv_handle_message k i (fst f) s) = 0 \<Longrightarrow>
      s_log (snd (sv_handle_message k i (fst f) s)) = s_log s @ message_events k i s f"
    and "fst (sv_handle_message k i (fst f) s) \<noteq> 0 \<Longrightarrow>
      s_log (snd (sv_handle_message k i (fst f) s)) = s_log s"
    using user ping
    by (auto simp: sv_handle_message_def message_events_def split: if_splits)
qed

lemma sv_cfg_set_input [simp]: "sv_cfg (sv_set_input i inp s) = sv_cfg s"
  by (simp add: sv_set_input_def)

lemma deliver_cfg: "sv_cfg (server_deliver k i f s) = sv_cfg s"
  by (simp add: server_deliver_def server_simps reset_input_eq case_prod_unfold Let_def
      sv_keepsD(1) [OF handle_message_keeps])

lemma pending_log: "s_log (sv_client_pending_disconnect i s) = s_log s"
  by (rule sv_quietD(2)) simp

lemma server_deliver_log:
  assumes "sv_no_minus s" "sv_receiving i s"
  shows "s_log (server_deliver k i f s) = s_log s @ message_events k i s f \<or>
    s_log (server_deliver k i f s) = s_log s \<and> \<not> sv_receiving i (server_deliver k i f s)"
proof -
  have nm: "sv_no_minus (sv_set_input i inp s)" for inp using assms(1) by (simp add: sv_no_minus_def server_simps)
  have log: "s_log (sv_set_input i inp t) = s_log t" for inp t
    by (simp add: sv_set_input_def)
  show ?thesis
  proof (cases "i_cap (k_input (s_clients s i)) < header_sizeof + length (snd f)")
    case True
    then show ?thesis
      using pending_dead [OF nm] assms by (simp add: server_deliver_def pending_log log)
  next
    case False
    let ?s = "sv_set_input i (input_loaded f (k_input (s_clients s i))) s"
    note e = handle_message_events [of ?s i f "k_input (s_clients s i)" k]
    have "message_events k i ?s f = message_events k i s f" by (rule message_events_cfg) (simp add: sv_set_input_def)
    moreover have "sv_no_minus (snd (sv_handle_message k i (fst f) ?s))"
      by (rule keeps_no_minus [OF handle_message_keeps nm])
    ultimately show ?thesis
      using False assms e pending_dead
      by (auto simp: server_deliver_def case_prod_unfold Let_def server_simps reset_input_eq pending_log log)
  qed
qed

interpretation svr: frame_logger "\<lambda>s :: ('u, 'i, 'o) server. k_input (s_clients s i)"
  "sv_set_input i" sv_no_minus "sv_receiving i"
  "sv_client_pending_disconnect i" "sv_dispatch k i"
  "sv_client_pending_disconnect i" "sv_process_client_socket_in k i" s_log
  "message_events k i" for k :: "('i, 'o) codec" and i
proof (unfold_locales, unfold svr_deliver_eq)
  fix s :: "('u, 'i, 'o) server" and f
  assume "sv_no_minus s" "sv_receiving i s"
  then show "s_log (server_deliver k i f s) = s_log s @ message_events k i s f \<or>
      s_log (server_deliver k i f s) = s_log s \<and> \<not> sv_receiving i (server_deliver k i f s)"
    by (rule server_deliver_log)
next
  fix s :: "('u, 'i, 'o) server" and f
  show "message_events k i (server_deliver k i f s) = message_events k i s"
    by (rule ext) (rule message_events_cfg [OF deliver_cfg])
next
  fix s :: "('u, 'i, 'o) server"
  assume "sv_no_minus s"
  then show "\<not> sv_receiving i (sv_client_pending_disconnect i s)" "sv_no_minus (sv_client_pending_disconnect i s)"
    using pending_dead keeps_no_minus [OF sv_quiet_keeps [OF sv_quiet_ops(1) [OF sv_quiet_refl]]] by blast+
qed (rule pending_log)

lemma server_frames_log:
  assumes "server_fresh i s" "\<forall>f \<in> set fs. length (snd f) < 2 ^ 24" "arrived as = concat (map frame fs)"
    "s' = sv_process_client_socket_in k i as s"
  shows "\<exists>n \<le> length fs. s_log s' = s_log s @ concat (map (message_events k i s) (take n fs)) \<and>
    (sv_receiving i s' \<longrightarrow> n = length fs \<and> server_fresh i s')"
  using svr.loop_log [where i = i and s = s and fs = fs and as = as and k = k] assms
  by (auto simp: server_fresh_def)

text \<open>C15: Messages of a client reach the application in the order in which the client sent them, each
  at most once, and none is invented: whatever the pieces, the callbacks made for a stream of frames
  are those for the frames up to some point of the stream, and for all of them when the client stays
  connected. Then the server is ready for the next header of this client.\<close>

theorem server_messages_in_order:
  assumes "server_fresh i s" "\<forall>f \<in> set fs. length (snd f) < 2 ^ 24"
    "arrived as = concat (map frame fs)" "s' = sv_process_client_socket_in k i as s"
  shows "\<exists>n \<le> length fs. s_log s' = s_log s @ concat (map (message_events k i s) (take n fs)) \<and>
    (sv_receiving i s' \<longrightarrow> n = length fs \<and> server_fresh i s')"
  using assms by (rule server_frames_log)

lemma server_messages_in_order_witness:
  "\<exists>n \<le> length echo_frames. s_log (sv_process_client_socket_in echo_codec 0 echo_arrivals echo_two) =
     s_log echo_two @ concat (map (message_events echo_codec 0 echo_two) (take n echo_frames))"
  using server_messages_in_order [OF echo_two_fresh(1) echo_arrivals(3,1) refl, of echo_codec] by blast

end
