(* ===== verification/LinuxServerDelivery.thy ===== *)
theory LinuxServerDelivery
  imports LinuxServerMessages
begin

text \<open>
  What reaches the clients of the linux server, when the system takes writes sooner or later and
  there is memory for the queues: for each client the output is a queue of bytes, however sending,
  broadcasting and the events of sockets that can be written interleave.
\<close>

section \<open>Byte queues for several users\<close>

locale byte_queues =
  fixes ok :: "'s \<Rightarrow> bool"
    and users :: "'s \<Rightarrow> nat set"
    and content :: "'s \<Rightarrow> nat \<Rightarrow> byte list"
    and push :: "nat \<Rightarrow> byte list \<Rightarrow> 's \<Rightarrow> 's"
    and flush :: "nat \<Rightarrow> 's \<Rightarrow> 's"
  assumes push_ok: "ok s \<Longrightarrow> i \<in> users s \<Longrightarrow> bs \<noteq> [] \<Longrightarrow> ok (push i bs s) \<and> users (push i bs s) = users s"
    and push_content: "ok s \<Longrightarrow> i \<in> users s \<Longrightarrow> bs \<noteq> [] \<Longrightarrow> j \<in> users s \<Longrightarrow>
      content (push i bs s) j = content s j @ (if j = i then bs else [])"
    and flush_ok: "ok s \<Longrightarrow> i \<in> users s \<Longrightarrow> ok (flush i s) \<and> users (flush i s) = users s"
    and flush_content: "ok s \<Longrightarrow> i \<in> users s \<Longrightarrow> j \<in> users s \<Longrightarrow> content (flush i s) j = content s j"

text \<open>What happens to the queues: bytes for a user, or the user's socket can be written.\<close>

datatype output_op = Output nat "byte list" | Writable nat

fun op_user :: "output_op \<Rightarrow> nat" where
  "op_user (Output i bs) = i"
| "op_user (Writable i) = i"

fun op_bytes :: "nat \<Rightarrow> output_op \<Rightarrow> byte list" where
  "op_bytes j (Output i bs) = (if i = j then bs else [])"
| "op_bytes j (Writable i) = []"

context byte_queues
begin

fun step :: "output_op \<Rightarrow> 's \<Rightarrow> 's" where
  "step (Output i bs) s = push i bs s"
| "step (Writable i) s = flush i s"

lemma step_queue:
  assumes "ok s" "op_user x \<in> users s" "\<And>i. x \<noteq> Output i []"
  shows "ok (step x s)" "users (step x s) = users s"
    and "j \<in> users s \<Longrightarrow> content (step x s) j = content s j @ op_bytes j x"
  using assms by (cases x; auto simp: push_ok push_content flush_ok flush_content)+

theorem run_queue:
  assumes "ok s" "\<forall>x \<in> set ops. op_user x \<in> users s \<and> (\<forall>i. x \<noteq> Output i [])"
  shows "ok (fold step ops s) \<and> users (fold step ops s) = users s \<and>
    (\<forall>j \<in> users s. content (fold step ops s) j = content s j @ concat (map (op_bytes j) ops))"
  using assms
proof (induction ops arbitrary: s)
  case Nil
  then show ?case by simp
next
  case (Cons x ops)
  have x: "ok (step x s)" "users (step x s) = users s"
    "\<And>j. j \<in> users s \<Longrightarrow> content (step x s) j = content s j @ op_bytes j x"
    using step_queue [OF Cons.prems(1), of x] Cons.prems(2) by auto
  show ?case using Cons.IH [OF x(1)] Cons.prems(2) x(2,3) by simp
qed

end

section \<open>The queues of the server\<close>

definition sv_output_op :: "output_op \<Rightarrow> ('u, 'i, 'o) server \<Rightarrow> ('u, 'i, 'o) server" where
  "sv_output_op x s = (case x of Output i bs \<Rightarrow> sv_client_write i bs s
     | Writable i \<Rightarrow> sv_process_client_socket_out i s)"

text \<open>The server is in order, with the connected clients \<open>cs\<close>, and the system does not fail.\<close>

definition sv_flows :: "fd set \<Rightarrow> nat list \<Rightarrow> nat list \<Rightarrow> nat list \<Rightarrow> ('u, 'i, 'o) server \<Rightarrow> bool" where
  "sv_flows A cs ps fs s \<longleftrightarrow> sv_inv A s cs ps fs \<and> smooth (s_sys s)"

lemma flows_write:
  assumes "sv_flows A cs ps fs s" "i \<in> set cs" "bs \<noteq> []" "j \<in> set cs"
  shows "sv_flows A cs ps fs (sv_client_write i bs s)"
    and "sv_stream (sv_client_write i bs s) j = sv_stream s j @ (if j = i then bs else [])"
proof -
  have inv: "sv_inv A s cs ps fs" and sm: "smooth (s_sys s)" using assms(1) by (simp_all add: sv_flows_def)
  have k: "sv_kept A s cs ps fs i (sv_client_write i bs s)"
    "sv_stream (sv_client_write i bs s) i = sv_stream s i @ bs"
    using client_write_effect [OF inv assms(2,3) refl] sm smooth_malloc [OF sm]
    by (auto simp: smooth_def sv_malloc_ok_def)
  have "os_shrinks (s_sys s) (s_sys (sv_client_write i bs s))"
    using client_write_quiet [OF sv_quiet_refl, of s i bs] unfolding sv_quiet_def by (elim conjE)
  then show "sv_flows A cs ps fs (sv_client_write i bs s)"
    using k(1) smooth_shrinks [OF _ sm] by (simp add: sv_flows_def sv_kept_def)
  show "sv_stream (sv_client_write i bs s) j = sv_stream s j @ (if j = i then bs else [])"
    using k assms(4) by (auto simp: sv_kept_def)
qed

lemma flows_out:
  assumes "sv_flows A cs ps fs s" "i \<in> set cs" "j \<in> set cs"
  shows "sv_flows A cs ps fs (sv_process_client_socket_out i s)"
    and "sv_stream (sv_process_client_socket_out i s) j = sv_stream s j"
    and "k_fd (s_clients (sv_process_client_socket_out i s) i) = k_fd (s_clients s i)"
    and "wscript (s_sys s) = [] \<Longrightarrow> k_head (s_clients (sv_process_client_socket_out i s) i) = None"
proof -
  have inv: "sv_inv A s cs ps fs" and sm: "smooth (s_sys s)" using assms(1) by (simp_all add: sv_flows_def)
  have soft: "soft_writes (s_sys s)" using sm unfolding smooth_def by (elim conjE)
  note o = process_out_effect [OF inv assms(2) soft refl]
  have "os_shrinks (s_sys s) (s_sys (sv_process_client_socket_out i s))"
    using process_client_socket_out_quiet [OF sv_quiet_refl, of s i] unfolding sv_quiet_def by (elim conjE)
  then show "sv_flows A cs ps fs (sv_process_client_socket_out i s)"
    using o(1) smooth_shrinks [OF _ sm] by (simp add: sv_flows_def sv_kept_def)
  show "sv_stream (sv_process_client_socket_out i s) j = sv_stream s j"
    using o(1,2) assms(3) by (cases "j = i") (auto simp: sv_kept_def)
  show "k_fd (s_clients (sv_process_client_socket_out i s) i) = k_fd (s_clients s i)"
    using o(1) by (simp add: sv_kept_def)
  show "wscript (s_sys s) = [] \<Longrightarrow> k_head (s_clients (sv_process_client_socket_out i s) i) = None"
    by (rule o(3))
qed

interpretation svq: byte_queues "sv_flows A cs ps fs :: ('u, 'i, 'o) server \<Rightarrow> bool" "\<lambda>s. set cs" sv_stream
  sv_client_write sv_process_client_socket_out for A cs ps fs
  by unfold_locales (auto simp: flows_write flows_out)

lemma svq_step: "svq.step = sv_output_op"
proof (intro ext)
  fix x :: output_op and s :: "('u, 'i, 'o) server"
  show "svq.step x s = sv_output_op x s" by (cases x) (simp_all add: sv_output_op_def)
qed

section \<open>The other clients keep their sockets\<close>

definition sv_apart :: "nat \<Rightarrow> ('u, 'i, 'o) server \<Rightarrow> ('u, 'i, 'o) server \<Rightarrow> bool" where
  "sv_apart i s s' \<longleftrightarrow> (\<forall>j. j \<noteq> i \<longrightarrow> k_fd (s_clients s' j) = k_fd (s_clients s j))"

lemma sv_apart_refl [simp]: "sv_apart i s s"
  by (simp add: sv_apart_def)

lemma sv_apart_updates [simp]:
  "sv_apart i s (s'\<lparr>s_sys := os\<rparr>) = sv_apart i s s'" "sv_apart i s (s'\<lparr>s_heap := h\<rparr>) = sv_apart i s s'"
  "sv_apart i s (s'\<lparr>s_fault := b\<rparr>) = sv_apart i s s'" "sv_apart i s (s'\<lparr>s_hang := b\<rparr>) = sv_apart i s s'"
  "sv_apart i s (sv_upd i f s') = sv_apart i s s'"
  "sv_apart i s (sv_epoll_ctl_mod d ev s') = sv_apart i s s'"
  by (auto simp: sv_apart_def sv_upd_def server_simps)

lemma sv_apart_ops [simp]:
  assumes "sv_apart i s s'"
  shows "sv_apart i s (sv_client_pending_disconnect i s')" "sv_apart i s (sv_free_item a s')"
    "sv_apart i s (sv_client_output_append i bs s')"
proof -
  show "sv_apart i s (sv_client_pending_disconnect i s')" "sv_apart i s (sv_free_item a s')"
    using assms by (auto simp: sv_apart_def server_simps sv_free_item_def)
  show "sv_apart i s (sv_client_output_append i bs s')"
    using assms
    by (auto simp: sv_client_output_append_def sv_malloc_def sv_apart_def sv_upd_def server_simps Let_def
        case_prod_unfold split: option.split)
qed

lemma client_write_apart: "sv_apart i s (sv_client_write i bs s)"
proof -
  have "sv_apart i s (sv_client_write_loop i bs t)" if "sv_apart i s t" for t
    using that
  proof (induction i bs t rule: sv_client_write_loop.induct)
    case (1 i bs t)
    then show ?case
      by (subst sv_client_write_loop.simps) (auto simp: Let_def split: prod.split sum.split)
  qed
  then show ?thesis by (simp add: sv_client_write_def)
qed

lemma process_out_apart: "sv_apart i s (sv_process_client_socket_out i s)"
proof -
  have "sv_apart i s (snd (sv_write_items i n p t))" if "sv_apart i s t" for n p t
    using that
    by (induction n arbitrary: p t) (auto simp: Let_def split: option.split prod.split sum.split)
  then show ?thesis by (simp add: sv_process_client_socket_out_def Let_def case_prod_unfold)
qed

lemma flows_fd:
  assumes "sv_flows A cs ps fs s" "op_user x \<in> set cs" "\<And>i. x \<noteq> Output i []"
  shows "k_fd (s_clients (sv_output_op x s) j) = k_fd (s_clients s j)"
proof (cases x)
  case (Output i bs)
  have inv: "sv_inv A s cs ps fs" and sm: "smooth (s_sys s)" using assms(1) by (simp_all add: sv_flows_def)
  have soft: "soft_writes (s_sys s)" using sm unfolding smooth_def by (elim conjE)
  have "sv_kept A s cs ps fs i (sv_client_write i bs s)"
    using client_write_effect [OF inv _ _ refl, of i bs] assms soft Output by auto
  then show ?thesis
    using client_write_apart [of i s bs] Output
    by (cases "j = i") (simp_all add: sv_kept_def sv_apart_def sv_output_op_def)
next
  case (Writable i)
  then show ?thesis
    using process_out_apart [of i s] flows_out(3) [OF assms(1), of i i] assms(2)
    by (cases "j = i") (simp_all add: sv_apart_def sv_output_op_def)
qed

lemma flows_fds:
  assumes "sv_flows A cs ps fs s" "\<forall>x \<in> set ops. op_user x \<in> set cs \<and> (\<forall>i. x \<noteq> Output i [])"
  shows "k_fd (s_clients (fold sv_output_op ops s) j) = k_fd (s_clients s j)"
  using assms
proof (induction ops arbitrary: s)
  case (Cons x ops)
  then show ?case
    using flows_fd [of A cs ps fs s x j] svq.step_queue(1) [OF Cons.prems(1), of x] by (simp add: svq_step)
qed simp

lemma flows_drained:
  assumes "sv_flows A cs ps fs s" "j \<in> set cs" "wscript (s_sys s) = []" "s' = sv_process_client_socket_out j s"
  shows "tx (s_sys s') (k_fd (s_clients s j)) = sv_stream s j"
proof -
  have d: "sv_stream s' j = sv_stream s j" "k_fd (s_clients s' j) = k_fd (s_clients s j)"
    "k_head (s_clients s' j) = None"
    unfolding assms(4) using flows_out [OF assms(1,2,2)] assms(3) by blast+
  have "heap_bytes (s_brk s') None (s_heap s') = []" by (cases "s_brk s'") simp_all
  then show ?thesis using d(1) by (simp add: sv_stream_def [of s'] d(2,3))
qed

text \<open>C7: What the server sends to a client arrives in order and complete, and nothing else does:
  while no socket reports an error and memory lasts, then however writes to any of the connected
  clients and the events of writable sockets interleave, and however little the kernel takes at a
  time, the bytes the kernel has accepted for a client followed by those queued for it are exactly
  what was written for it, in this order. Nobody is disconnected (although the README lists as a
  limitation that a connection is dropped when \<open>write()\<close> does not take all bytes at once), and once the kernel takes what
  it is offered, the next event sends all that is left.\<close>

theorem server_output_fifo:
  assumes "sv_inv A s cs ps fs" "smooth (s_sys s)" "j \<in> set cs"
    "\<forall>x \<in> set ops. op_user x \<in> set cs \<and> (\<forall>i. x \<noteq> Output i [])"
    "s1 = fold sv_output_op ops s" "s2 = sv_process_client_socket_out j s1"
  shows "sv_inv A s1 cs ps fs \<and>
    sv_stream s1 j = sv_stream s j @ concat (map (op_bytes j) ops) \<and>
    (wscript (s_sys s1) = [] \<longrightarrow>
      tx (s_sys s2) (k_fd (s_clients s j)) = sv_stream s j @ concat (map (op_bytes j) ops))"
proof -
  have flows: "sv_flows A cs ps fs s" using assms(1,2) by (simp add: sv_flows_def)
  note r = svq.run_queue [OF flows assms(4), unfolded svq_step, folded assms(5)]
  have fd: "k_fd (s_clients s1 j) = k_fd (s_clients s j)"
    unfolding assms(5) by (rule flows_fds [OF flows assms(4)])
  show ?thesis
    using r assms(3) flows_drained [OF _ assms(3) _ assms(6), of A ps fs] fd by (auto simp: sv_flows_def)
qed

text \<open>Two clients are connected; the kernel takes one byte of the first message, then nothing.\<close>

definition echo_slow :: "(nat, byte list, byte list) server" where
  "echo_slow = echo_two\<lparr>s_sys := (s_sys echo_two)\<lparr>wscript := [Accept 1, Write_error EAGAIN]\<rparr>\<rparr>"

definition echo_ops :: "output_op list" where
  "echo_ops = [Output 0 [1, 2], Output 1 [7], Output 0 [3], Writable 0]"

lemma echo_two_inv: "sv_inv {0, 1, 2, 3, 4} echo_two [1, 0] [] []"
proof -
  have "sv_queues echo_two (set [1, 0]) (\<lambda>i. [])"
    by (simp add: sv_queues_def tail_ok_def echo_two_def echo_connected_def echo_up_def echo_struct_def)
  moreover have "sv_fds {0, 1, 2, 3, 4} echo_two [1, 0] []"
    by (simp add: sv_fds_def owned_def echo_two_def echo_connected_def) auto
  moreover have "sv_lists echo_two [1, 0] [] []"
    by (auto simp: sv_lists_def echo_two_def echo_connected_def prevs_ok_def echo_up_def)
  ultimately show ?thesis by (auto simp: sv_inv_def echo_two_def echo_up_def)
qed

lemma echo_slow_inv: "sv_inv {0, 1, 2, 3, 4} echo_slow [1, 0] [] []"
  using echo_two_inv by (subst sv_inv_cong [of echo_two]) (simp_all add: same_clients_def echo_slow_def)

lemma echo_smooth: "smooth (s_sys echo_slow)" "smooth (s_sys echo_two)"
  by (simp_all add: smooth_def soft_writes_def echo_slow_def echo_two_def echo_up_def echo_os_def)

lemma server_output_fifo_witness:
  "sv_stream (fold sv_output_op echo_ops echo_slow) 0 = [1, 2, 3]"
proof -
  have "sv_stream echo_slow 0 = []"
    by (simp add: sv_stream_def echo_slow_def echo_two_def echo_connected_def echo_up_def echo_struct_def)
  then show ?thesis
    using server_output_fifo [OF echo_slow_inv echo_smooth(1) _ _ refl refl, of 0 echo_ops]
    by (simp add: echo_ops_def)
qed

section \<open>Broadcast\<close>

lemma broadcast_effect:
  assumes "sv_inv A s cs ps fs" "smooth (s_sys s)" "sv_buffers_ok s" "codec_fits k"
    "s' = server_broadcast k s"
  shows "case out_encode k (s_out_message s) (s_out_size s - header_sizeof) of
      None \<Rightarrow> s' = s
    | Some payload \<Rightarrow> sv_inv A s' cs ps fs \<and> s_log s' = s_log s \<and>
        (\<forall>j \<in> set cs. sv_stream s' j = sv_stream s j @ frame (MESSI_MESSAGE_TYPE_SERVER_TO_CLIENT_USER, payload))"
  using assms(3,4)
proof (cases rule: encode_good_cases)
  case none
  then show ?thesis by (simp add: assms(5) server_broadcast_def)
next
  case (some payload buf)
  let ?s = "s\<lparr>s_out_buf := buf\<rparr>"
  let ?bs = "frame (MESSI_MESSAGE_TYPE_SERVER_TO_CLIENT_USER, payload)"
  have inv: "sv_inv A ?s ([] @ cs) ps fs"
    using assms(1) by (subst sv_inv_cong [of s]) (simp_all add: same_clients_def)
  have l: "s_connected ?s = hd_ptr cs" "length cs \<le> s_max ?s"
    using sv_inv_lists [OF inv] lseg_hd lists_short [of ?s cs] by (auto simp: sv_lists_def)
  have s': "s' = sv_broadcast_loop (s_max ?s) (s_connected ?s) ?bs ?s"
    using some by (simp add: assms(5) server_broadcast_def)
  have str: "sv_stream ?s j = sv_stream s j" for j by (simp add: sv_stream_def)
  have "s_log s' = s_log ?s" unfolding s' by (rule sv_quietD(2)) simp
  moreover have "sv_inv A s' cs ps fs \<and> (\<forall>j \<in> set cs. sv_stream s' j = sv_stream ?s j @ ?bs)"
    using broadcast_loop_effect [OF inv l frame_not_empty] assms(2) unfolding s' by auto
  ultimately show ?thesis using some(1) by (simp add: str)
qed

text \<open>C8: A broadcast reaches everybody: the message is encoded once, and a frame with it is added to
  the stream of each connected client and to no other, behind what was sent to it before. Nobody
  is disconnected, as long as no socket reports an error and memory lasts; a message that cannot
  be encoded is sent to nobody.\<close>

theorem server_broadcast_delivers:
  assumes "sv_inv A s cs ps fs" "smooth (s_sys s)" "sv_buffers_ok s" "codec_fits k"
    "s' = server_broadcast k s"
  shows "case out_encode k (s_out_message s) (s_out_size s - header_sizeof) of
      None \<Rightarrow> s' = s
    | Some payload \<Rightarrow> sv_inv A s' cs ps fs \<and> s_log s' = s_log s \<and>
        (\<forall>j \<in> set cs. sv_stream s' j = sv_stream s j @ frame (MESSI_MESSAGE_TYPE_SERVER_TO_CLIENT_USER, payload))"
  using assms by (rule broadcast_effect)

lemma server_broadcast_delivers_witness:
  "sv_stream (server_broadcast echo_codec (echo_two\<lparr>s_out_message := Some [5, 7]\<rparr>)) 1 = [2, 0, 0, 2, 5, 7]"
proof -
  let ?s = "echo_two\<lparr>s_out_message := Some [5, 7]\<rparr>"
  have "sv_inv {0, 1, 2, 3, 4} ?s [1, 0] [] []"
    using echo_two_inv by (subst sv_inv_cong [of echo_two]) (simp_all add: same_clients_def)
  moreover have "sv_buffers_ok ?s" "smooth (s_sys ?s)"
    using echo_smooth(2) by (simp_all add: sv_buffers_ok_def echo_two_def echo_up_def header_sizeof_def)
  moreover have "out_encode echo_codec (s_out_message ?s) (s_out_size ?s - header_sizeof) = Some [5, 7]"
    by (simp add: echo_codec_def echo_two_def echo_up_def header_sizeof_def)
  moreover have "sv_stream ?s 1 = []"
    by (simp add: sv_stream_def echo_two_def echo_connected_def echo_up_def echo_struct_def)
  ultimately show ?thesis
    using server_broadcast_delivers [OF _ _ _ echo_ok(1) refl, of "{0, 1, 2, 3, 4}" ?s "[1, 0]" "[]" "[]"]
    by (simp add: frame_def header_bytes_def messi_header_create_def messi_header_set_size_def
        MESSI_MESSAGE_TYPE_SERVER_TO_CLIENT_USER_def)
qed

end
