(* ===== verification/LinuxServerLifecycle.thy ===== *)
theory LinuxServerLifecycle
  imports LinuxServerDelivery
begin

text \<open>
  The life of a connection as the application of the linux server sees it: connected, any number
  of messages, disconnected; and how a client that no longer sends pings is found out.
\<close>

section \<open>What the application is told\<close>

text \<open>
  An observer of the callbacks: the clients it believes to be connected, or \<open>None\<close> once a callback
  contradicts what it was told before.
\<close>

fun reported :: "'i server_event list \<Rightarrow> nat set \<Rightarrow> nat set option" where
  "reported [] C = Some C"
| "reported (Client_connected i # es) C = (if i \<in> C then None else reported es (insert i C))"
| "reported (Client_disconnected i # es) C = (if i \<in> C then reported es (C - {i}) else None)"
| "reported (Client_message i c m # es) C = (if i \<in> C then reported es C else None)"

lemma reported_append:
  "reported (xs @ ys) C = (case reported xs C of None \<Rightarrow> None | Some D \<Rightarrow> reported ys D)"
  by (induction xs C rule: reported.induct) auto

lemma reported_disconnected:
  "distinct ps \<Longrightarrow> set ps \<subseteq> C \<Longrightarrow> reported (map Client_disconnected ps) C = Some (C - set ps)"
proof (induction ps arbitrary: C)
  case (Cons a ps)
  then have "distinct ps" "set ps \<subseteq> C - {a}" "a \<in> C" by auto
  then show ?case using Cons.IH [of "C - {a}"] Diff_insert2 [of C a "set ps"] by simp
qed simp

text \<open>Callbacks for messages of one client.\<close>

definition log_messages :: "nat \<Rightarrow> 'i server_event list \<Rightarrow> 'i server_event list \<Rightarrow> bool" where
  "log_messages i l l' \<longleftrightarrow> (\<exists>es. l' = l @ es \<and> (\<forall>e \<in> set es. \<exists>c m. e = Client_message i c m))"

lemma log_messages_refl [simp]: "log_messages i l l"
  by (simp add: log_messages_def)

lemma log_messages_more: "log_messages i l l' \<Longrightarrow> log_messages i l (l' @ [Client_message i c m])"
  by (auto simp: log_messages_def)

lemma reported_messages: "\<forall>e \<in> set es. \<exists>c m. e = Client_message i c m \<Longrightarrow> i \<in> C \<Longrightarrow> reported es C = Some C"
  by (induction es) auto

lemma log_messages_reported:
  assumes "log_messages i (l @ es) l'" "reported es {} = Some C" "i \<in> C"
  shows "\<exists>es'. l' = l @ es' \<and> reported es' {} = Some C"
proof -
  obtain fs where fs: "l' = l @ es @ fs" "\<forall>e \<in> set fs. \<exists>c m. e = Client_message i c m"
    using assms(1) by (auto simp: log_messages_def)
  then have "reported (es @ fs) {} = Some C"
    using assms(2) reported_messages [OF fs(2) assms(3)] by (simp add: reported_append)
  then show ?thesis using fs(1) by blast
qed

lemma server_message_log:
  assumes "log_messages i l (s_log s)"
  shows "log_messages i l (s_log (snd (sv_handle_message k i ty s)))"
proof -
  have "log_messages i l (s_log (snd (sv_handle_message_user k i s)))"
    using assms by (auto simp: sv_handle_message_user_def Let_def log_messages_more split: option.split prod.split)
  moreover have "s_log (snd (sv_handle_message_ping i s)) = s_log s"
  proof -
    obtain res s1 where t: "sv_client_start_keep_alive_timer i s = (res, s1)" by fastforce
    then have "s_log s1 = s_log s" using start_keep_alive_eq by fastforce
    then show ?thesis
      using sv_quietD(2) [OF client_write_quiet [OF sv_quiet_refl], of i _ s1]
      by (simp add: sv_handle_message_ping_def t Let_def)
  qed
  ultimately show ?thesis using assms by (simp add: sv_handle_message_def)
qed

lemma client_event_log:
  fixes s :: "('u, 'i, 'o) server"
  shows "log_messages i (s_log s) (s_log (sv_client_event k i d events as s))"
proof -
  have "log_messages i l (s_log (sv_process_client_socket_in k i as t))" if "log_messages i l (s_log t)"
    for l and t :: "('u, 'i, 'o) server"
    using that
  proof (rule process_in_keeps [where P = "\<lambda>t. log_messages i l (s_log t)"])
    show "log_messages i l (s_log (sv_set_input i inp t))" if "log_messages i l (s_log t)" for inp t
      using that by (simp add: sv_set_input_def)
  qed (simp_all add: pending_log server_message_log)
  moreover have "s_log (sv_process_client_socket_out i s) = s_log s"
    by (rule sv_quietD(2)) simp
  ultimately show ?thesis
    by (simp add: sv_client_event_def sv_process_client_socket_def sv_process_client_keep_alive_timer_def
        pending_log Let_def)
qed

section \<open>The invariant of the log\<close>

definition sv_told :: "fd set \<Rightarrow> 'i server_event list \<Rightarrow> ('u, 'i, 'o) server \<Rightarrow> bool" where
  "sv_told A l s \<longleftrightarrow> (\<exists>fs es. sv_good A fs s \<and> s_current s = None \<and> s_log s = l @ es \<and>
     reported es {} = Some ({0..<s_max s} - set fs))"

lemma good_free:
  assumes "sv_good A fs s"
  shows "set fs \<subseteq> {0..<s_max s}" "distinct fs"
  using assms by (auto simp: sv_good_def sv_inv_def sv_lists_def)

lemma told_process:
  assumes "sv_told A l s" "server_codec_ok k s" "server_app_ok s"
    "events AND EPOLLOUT = 0 \<or> soft_writes (s_sys s)"
  shows "sv_told A l (server_process k d events as s)"
proof -
  obtain fs es where t: "sv_good A fs s" "s_current s = None" "s_log s = l @ es"
    "reported es {} = Some ({0..<s_max s} - set fs)"
    using assms(1) by (auto simp: sv_told_def)
  let ?s = "server_process k d events as s"
  obtain s1 cs1 ps1 fs1 where p: "sv_good A fs1 s1" "sv_inv A s1 cs1 ps1 fs1"
    "sv_good A (rev ps1 @ fs1) ?s" "s_current ?s = None" "sv_cfg ?s = sv_cfg s"
    "s_log ?s = s_log s1 @ map Client_disconnected ps1"
    "s1 = s \<and> fs1 = fs \<or> (\<exists>i. sv_active fs s i \<and> s1 = sv_client_event k i d events as s) \<and> fs1 = fs \<or>
     fs1 = fs \<and> s_log s1 = s_log s \<or> (\<exists>i. fs = i # fs1 \<and> s_log s1 = s_log s @ [Client_connected i])"
    by (rule server_process_good [OF t(1,2) assms(2-4) refl])
  let ?C = "{0..<s_max s} - set fs1"
  have "\<exists>es1. s_log s1 = l @ es1 \<and> reported es1 {} = Some ?C"
    using p(7)
  proof (elim disjE conjE exE)
    fix i
    assume i: "sv_active fs s i" "s1 = sv_client_event k i d events as s" "fs1 = fs"
    show ?thesis
      using log_messages_reported [OF client_event_log [of i s k d events as, unfolded t(3)] t(4)] i
      by (auto simp: sv_active_def)
  next
    fix i
    assume i: "fs = i # fs1" "s_log s1 = s_log s @ [Client_connected i]"
    have "reported (es @ [Client_connected i]) {} = Some (insert i ({0..<s_max s} - set fs))"
      using t(4) i(1) by (simp add: reported_append)
    moreover have "insert i ({0..<s_max s} - set fs) = ?C"
      using good_free [OF t(1)] unfolding i(1) by auto
    ultimately show ?thesis using i(2) t(3) by auto
  qed (use t in auto)
  then obtain es1 where es1: "s_log s1 = l @ es1" "reported es1 {} = Some ?C" by blast
  have m: "s_max ?s = s_max s" using sv_cfgD [OF p(5)] by simp
  have d: "distinct (rev ps1 @ fs1)" "set (rev ps1 @ fs1) \<subseteq> {0..<s_max s}"
    using good_free [OF p(3)] unfolding m by blast+
  then have "reported (es1 @ map Client_disconnected ps1) {} = Some (?C - set ps1)"
    using es1(2) reported_disconnected [of ps1 ?C] by (auto simp: reported_append)
  moreover have "?C - set ps1 = {0..<s_max ?s} - set (rev ps1 @ fs1)" unfolding m by auto
  ultimately show ?thesis
    using p(3,4,6) es1(1) unfolding sv_told_def by (metis append.assoc)
qed

lemma told_reach:
  assumes "server_reach k s0 s" "sv_told A l s0" "server_codec_ok k s0" "server_app_ok s0"
  shows "sv_told A l s \<and> sv_cfg s = sv_cfg s0"
  using assms(1)
proof (induction rule: server_reach.induct)
  case start
  then show ?case using assms(2) by simp
next
  case (process s events d as)
  obtain fs where "sv_good A fs s" "s_current s = None" using process.IH by (auto simp: sv_told_def)
  then have "server_ready A s" by (auto simp: server_ready_good)
  then show ?case
    using process told_process [of A l s k events d as] server_process_inv(3) [of A s k events d as]
      assms(3,4) sv_cfg_ok [of s s0] by simp
next
  case (call s i r)
  obtain fs es where t: "sv_good A fs s" "s_current s = None" "s_log s = l @ es"
    "reported es {} = Some ({0..<s_max s} - set fs)"
    using call.IH by (auto simp: sv_told_def)
  have cfg: "sv_cfg s = sv_cfg s0" using call.IH by blast
  obtain cs ps where inv: "sv_inv A s cs ps fs" using t(1) by (auto simp: sv_good_def)
  have "i \<in> set cs"
    using call.hyps(2) lseg_unique sv_inv_lists [OF inv] by (auto simp: sv_in_use_def sv_lists_def)
  then have "sv_active fs s i" by (simp add: sv_active_iff [OF inv])
  then have "sv_good A fs (server_call k r s)"
    using server_call_good [OF t(1) _ _ call.hyps(3), of k] assms(3) sv_cfg_ok(2) [OF cfg] by simp
  moreover have c: "sv_cfg (server_call k r s) = sv_cfg s" by (rule sv_keepsD(1) [OF server_call_keeps])
  ultimately show ?case
    using t cfg sv_cfgD [OF c] by (auto simp: sv_told_def)
next
  case (system s ms ws bs)
  let ?s = "s\<lparr>s_sys := (s_sys s)\<lparr>outcomes := bs, wscript := ws, mallocs := ms\<rparr>\<rparr>"
  have "sv_inv A ?s cs ps fs = sv_inv A s cs ps fs" for cs ps fs
    by (rule sv_inv_cong) (simp_all add: same_clients_def)
  then have "sv_good A fs ?s = sv_good A fs s" for fs
    by (simp add: sv_good_def sv_buffers_ok_def sv_active_def)
  then show ?case using system.IH by (simp add: sv_told_def)
qed

text \<open>C2: The application of a started server is told a consistent story about every client, whatever
  clients send, under the conditions of \<open>server_stays_safe\<close>: callbacks make requests for their own
  client and do not broadcast for a disconnected one, other calls refer to connected clients, and no
  \<open>write\<close> fails for good while a queue is written for an \<open>EPOLLOUT\<close> event. A client is reported as
  connected only when it is not connected already, messages come only from clients that are reported
  as connected, and each connection is reported as ended at most once. The clients the application
  believes to be connected are those in the list of connected clients and those whose disconnection
  is pending, so that nobody else's end is left unreported.\<close>

theorem server_lifecycle:
  assumes "server_init uri n bufs sz buf wi wo onc ond msgs e ctl s0 = (0, s1)"
    "server_start s1 = (0, s2)" "server_reach k s2 s"
    "0 < n" "\<forall>d \<in> set (fds (s_sys s0)). 0 \<le> d" "s_heap s0 = (\<lambda>a. None)"
    "header_sizeof \<le> length buf" "length buf < 2 ^ 64"
    "codec_fits k" "out_new k wo \<noteq> None" "server_app_ok s1"
  shows "\<exists>es cs ps. s_log s = s_log s0 @ es \<and> reported es {} = Some (set cs \<union> set ps) \<and>
    lseg (nxt s) (s_connected s) cs \<and> lseg (nxt s) (s_pending s) ps"
proof -
  note r = started_ready [OF assms(1,2,4-8)]
  let ?A = "insert (s_listener_fd s2) (set (fds (s_sys s0)))"
  have "sv_told ?A (s_log s0) s2"
    using r(3,4,9,10) by (intro sv_told_def [THEN iffD2] exI [of _ "[0..<nat n]"] exI [of _ "[]"]) simp
  then have "sv_told ?A (s_log s0) s"
    using told_reach [OF assms(3) _ r(11) [OF assms(9,10)] r(12) [OF assms(11)]] by blast
  then obtain fs es where t: "sv_good ?A fs s" "s_log s = s_log s0 @ es"
    "reported es {} = Some ({0..<s_max s} - set fs)" by (auto simp: sv_told_def)
  then obtain cs ps where l: "sv_lists s cs ps fs" by (auto simp: sv_good_def sv_inv_def)
  then have "{0..<s_max s} - set fs = set cs \<union> set ps" by (auto simp: sv_lists_def)
  then show ?thesis using t(2,3) l unfolding sv_lists_def by metis
qed

lemma server_lifecycle_witness:
  "\<exists>es C. s_log (server_process echo_codec 4 EPOLLIN [] echo_up) = es \<and> reported es {} = Some C"
proof -
  have r: "server_reach echo_codec echo_up (server_process echo_codec 4 EPOLLIN [] echo_up)"
    by (intro server_reach.process server_reach.start) (simp add: EPOLLIN_def EPOLLOUT_def)
  have init: "server_init ''tcp://127.0.0.1:6000'' 2 (replicate 32 0) 16 (replicate 12 0) 64 64
       None None [(0, None), (1, Some echo)] 3 None echo_struct = (0, snd echo_init)"
    using echo_started(1) by (simp add: echo_init_def prod_eq_iff)
  have "s_log echo_struct = []" by (simp add: echo_struct_def)
  then show ?thesis
    using server_lifecycle [OF init echo_started(2) r] echo_ok
    by (auto simp: echo_struct_def echo_os_def header_sizeof_def)
qed

section \<open>Keep alive\<close>

lemma destroy_step:
  obtains s1 p' where "sv_destroy_loop k (Suc n) (Some i) s = sv_destroy_loop k n p' s1"
    "os_shrinks (s_sys s) (s_sys s1)" "k_timer (s_clients s i) \<notin> set (fds (s_sys s1))"
proof -
  let ?s2 = "sv_upd i (\<lambda>c. c\<lparr>k_timer := - 1\<rparr>) (sv_close_fd (k_timer (s_clients s i)) s)"
  let ?s3 = "sv_callback k (s_on_client_disconnected ?s2 i) (Client_disconnected i) ?s2"
  let ?s4 = "sv_free_pending_disconnect_client i ?s3"
  have s2: "os_shrinks (s_sys s) (s_sys ?s2)" "k_timer (s_clients s i) \<notin> set (fds (s_sys ?s2))"
    by (simp_all add: close_fd_shrinks server_simps)
  have s3: "os_shrinks (s_sys ?s2) (s_sys ?s3)" by (rule sv_keepsD(2) [OF callback_keeps])
  have s4: "s_sys ?s4 = s_sys ?s3"
    using remove_client_frame(5) [of "s_pending ?s3" i ?s3]
    by (simp add: sv_free_pending_disconnect_client_def case_prod_unfold Let_def)
  show ?thesis
  proof (rule that [of "k_next (s_clients ?s3 i)" ?s4])
    show "sv_destroy_loop k (Suc n) (Some i) s = sv_destroy_loop k n (k_next (s_clients ?s3 i)) ?s4"
      by (simp add: Let_def)
    show "os_shrinks (s_sys s) (s_sys ?s4)" unfolding s4 by (rule os_shrinks_trans [OF s2(1) s3])
    show "k_timer (s_clients s i) \<notin> set (fds (s_sys ?s4))"
      unfolding s4 using os_shrinks_fds [OF s3] s2(2) by blast
  qed
qed

lemma destroy_loop_shrinks: "os_shrinks (s_sys s) (s_sys (sv_destroy_loop k n p s))"
proof (induction n arbitrary: p s)
  case (Suc n)
  show ?case
  proof (cases p)
    case (Some i)
    obtain s1 p' where "sv_destroy_loop k (Suc n) (Some i) s = sv_destroy_loop k n p' s1"
      "os_shrinks (s_sys s) (s_sys s1)"
      by (rule destroy_step)
    then show ?thesis using Some os_shrinks_trans [OF _ Suc.IH] by metis
  qed simp
qed simp

lemma destroyed_closed:
  assumes "sv_inv A s cs (i # ps) fs" "d = k_timer (s_clients s i) \<or> d \<notin> set (fds (s_sys s))"
  shows "d \<notin> set (fds (s_sys (sv_destroy_pending_disconnect_clients k s)))"
proof -
  note l = sv_inv_lists [OF assms(1)]
  have p: "s_pending s = Some i" using l lseg_hd by (auto simp: sv_lists_def hd_ptr_def)
  obtain n where n: "s_max s = Suc n" using lists_short(2) [OF l] by (cases "s_max s") simp_all
  obtain s1 p' where s1: "sv_destroy_loop k (Suc n) (Some i) s = sv_destroy_loop k n p' s1"
    "os_shrinks (s_sys s) (s_sys s1)" "k_timer (s_clients s i) \<notin> set (fds (s_sys s1))"
    by (rule destroy_step)
  then have "d \<notin> set (fds (s_sys s1))" using assms(2) os_shrinks_fds by blast
  then show ?thesis
    by (auto simp: sv_destroy_pending_disconnect_clients_def p n s1(1) simp del: sv_destroy_loop.simps
        dest: os_shrinks_fds [OF destroy_loop_shrinks])
qed

lemma timer_owner:
  assumes "sv_inv A s cs ps fs" "i \<in> set cs" "j \<in> set cs" "sv_owns s (k_timer (s_clients s i)) j"
  shows "j = i" "k_timer (s_clients s i) \<noteq> k_fd (s_clients s i)"
proof -
  have f: "sv_fds A s cs ps" using assms(1) by (simp add: sv_inv_def)
  note f = sv_fdsD [OF f]
  have "k_timer (s_clients s i) \<in> owned s i \<inter> owned s j"
    using f(10) [of i] assms(2,4) by (auto simp: owned_def sv_owns_def)
  then show "j = i" using f(7) [of i j] assms(2,3) by blast
  show "k_timer (s_clients s i) \<noteq> k_fd (s_clients s i)" using f(4) assms(2) by metis
qed

text \<open>C18: A client that is silent is found out: when its keep alive timer expires, it is disconnected.
  Its socket and its timer are closed, it is told to the application exactly once, its place can be
  used by a new client, and the server is in order again. The other clients stay connected.\<close>

theorem server_keep_alive_timeout:
  assumes "sv_inv A s cs ps fs" "sv_buffers_ok s" "s_current s = None" "server_codec_ok k s" "server_app_ok s"
    "i \<in> set cs" "s_listener_fd s \<in> A"
    "s' = server_process k (k_timer (s_clients s i)) events as s"
  shows "sv_inv A s' (remove1 i cs) [] (rev ps @ i # fs) \<and>
    s_log s' = s_log s @ map Client_disconnected (i # ps) \<and>
    k_fd (s_clients s i) \<notin> set (fds (s_sys s')) \<and> k_timer (s_clients s i) \<notin> set (fds (s_sys s'))"
proof -
  let ?t = "k_timer (s_clients s i)" and ?s1 = "sv_client_pending_disconnect i s"
  obtain Q where inv: "sv_lists s cs ps fs" "sv_queues s (set cs) Q" "sv_fds A s cs ps"
    using assms(1) by (auto simp: sv_inv_def)
  note f = sv_fdsD [OF inv(3)]
  have t: "?t \<in> owned s i" using f(10) assms(6) by (simp add: owned_def)
  then have "?t \<notin> A" using f(8) assms(6) by auto
  then have ne: "?t \<noteq> s_listener_fd s" using assms(7) by metis
  have s': "s' = sv_destroy_pending_disconnect_clients k ?s1"
    using assms(1)
  proof (cases rule: process_cases [where k = k and d = ?t and events = events and as = as])
    case (client j)
    then have "j = i" "?t \<noteq> k_fd (s_clients s i)" using timer_owner [OF assms(1,6)] by blast+
    then show ?thesis
      using client(4) assms(8) by (simp add: sv_client_event_def sv_process_client_keep_alive_timer_def)
  qed (use assms(6) ne in \<open>auto simp: sv_owns_def\<close>)
  have lost: "sv_inv A ?s1 (remove1 i cs) (i # ps) fs"
    using pending_disconnect_lost [OF assms(1,6)] by (simp add: sv_lost_def)
  have q: "sv_quiet s ?s1" by simp
  have cfg: "sv_cfg ?s1 = sv_cfg s" and obs: "sv_obs ?s1 = sv_obs s" using q by (simp_all add: sv_quiet_def)
  have good: "sv_good A fs ?s1"
    unfolding sv_good_def using lost assms(2,3) sv_good_obs(1,2) [OF cfg obs] by auto
  note d = destroy_pending_good [OF lost good, of k, unfolded sv_good_obs [OF cfg obs], OF assms(3-5) s']
  have fd: "k_fd (s_clients s i) \<notin> set (fds (s_sys ?s1))" "k_timer (s_clients ?s1 i) = ?t"
  proof -
    have ne: "k_fd (s_clients s i) \<noteq> - 1" using f(9) assms(6) by blast
    obtain os where p: "?s1 = sv_move_client_to_pending_disconnect_list i
        (s\<lparr>s_sys := os, s_clients := (s_clients s)(i := (s_clients s i)\<lparr>k_fd := - 1, k_head := None\<rparr>),
          s_heap := \<lambda>a. if a \<in> set (Q i) then None else s_heap s a\<rparr>)"
      "fds os = removeAll (k_fd (s_clients s i)) (fds (s_sys s))"
      by (rule pending_disconnect_eq [OF inv(2) assms(6) ne])
    show "k_fd (s_clients s i) \<notin> set (fds (s_sys ?s1))" unfolding p(1) by (simp add: server_simps p(2))
    let ?u = "s\<lparr>s_sys := os, s_clients := (s_clients s)(i := (s_clients s i)\<lparr>k_fd := - 1, k_head := None\<rparr>),
          s_heap := \<lambda>a. if a \<in> set (Q i) then None else s_heap s a\<rparr>"
    have "sv_lists ?u cs ps fs" using inv(1) by (subst sv_lists_cong [of _ s]) (auto simp: fun_eq_iff)
    then show "k_timer (s_clients ?s1 i) = ?t"
      unfolding p(1) using links_onlyD(2) [OF move_links, of ?u cs ps fs i i] assms(6) by simp
  qed
  show ?thesis
    using d(1,5) destroyed_closed [OF lost] fd sv_quietD(2) [OF q] unfolding s' by simp
qed

lemma server_keep_alive_timeout_witness:
  "let s = server_process echo_codec 6 EPOLLIN [] echo_two
   in s_log s = [Client_connected 0, Client_connected 1, Client_disconnected 0] \<and>
      5 \<notin> set (fds (s_sys s)) \<and> 6 \<notin> set (fds (s_sys s))"
proof -
  have fd: "k_timer (s_clients echo_two 0) = 6" "k_fd (s_clients echo_two 0) = 5" "s_listener_fd echo_two = 4"
    "s_log echo_two = [Client_connected 0, Client_connected 1]" "s_current echo_two = None"
    by (simp_all add: echo_two_def echo_connected_def echo_up_def)
  have "sv_buffers_ok echo_two"
    by (simp add: sv_buffers_ok_def echo_two_def echo_up_def header_sizeof_def)
  moreover have "server_codec_ok echo_codec echo_two"
    using echo_ok(1,2) by (simp add: server_codec_ok_def)
  moreover have "server_app_ok echo_two"
    by (auto simp: server_app_ok_def echo_two_def echo_up_def echo_callbacks_def sv_on_client_default_def
        sv_on_message_default_def echo_def split: if_splits)
  ultimately show ?thesis
    using server_keep_alive_timeout [OF echo_two_inv _ _ _ _ _ _ refl, of echo_codec 0 EPOLLIN "[]"]
    by (simp add: fd)
qed

text \<open>Writing to a client leaves the timers alone; giving it up closes its socket.\<close>

lemma epoll_ctl_armed: "armed (snd (call_epoll_ctl f epfd eop d ev os)) = armed os"
proof -
  have "armed (snd (sys_on_fd d (\<lambda>os. os\<lparr>interest := (interest os)(d := Some ev)\<rparr>) os)) = armed os"
    using sys_on_fd_snd [of d "\<lambda>os. os\<lparr>interest := (interest os)(d := Some ev)\<rparr>" os]
    by (auto simp: sys_try_simps)
  then show ?thesis
    by (cases f; cases eop) (simp_all add: messi_epoll_ctl_default_def sys_epoll_ctl_def)
qed

lemma pending_disconnect_armed:
  "d \<noteq> k_fd (s_clients s i) \<Longrightarrow> armed (s_sys (sv_client_pending_disconnect i s)) d = armed (s_sys s) d"
  by (simp add: sv_client_pending_disconnect_def Let_def server_simps sv_close_fd_def sv_close_def
      sv_epoll_ctl_del_def sys_close_def epoll_ctl_armed)

lemma output_append_armed: "armed (s_sys (sv_client_output_append i bs s)) = armed (s_sys s)"
proof -
  have "armed (snd (sys_malloc os)) = armed os" for os
    by (simp add: sys_malloc_def split: list.split)
  then show ?thesis
    by (auto simp: sv_client_output_append_def sv_malloc_def sv_epoll_ctl_mod_def epoll_ctl_armed Let_def
        case_prod_unfold split: option.split)
qed

lemma client_write_armed:
  assumes "d \<noteq> k_fd (s_clients s i)"
  shows "armed (s_sys (sv_client_write i bs s)) d = armed (s_sys s) d"
proof -
  have "armed (s_sys (sv_client_write_loop i bs s)) d = armed (s_sys s) d"
    using assms
  proof (induction i bs s rule: sv_client_write_loop.induct)
    case (1 i bs s)
    obtain res os where w: "sys_write (k_fd (s_clients s i)) bs (s_sys s) = (res, os)" by fastforce
    then have "armed os = armed (s_sys s)"
      by (auto simp: sys_write_def split: if_splits list.splits write_result.splits)
    then show ?case
      using 1 w
      by (subst sv_client_write_loop.simps)
        (cases res; simp add: Let_def pending_disconnect_armed output_append_armed)
  qed
  then show ?thesis by (simp add: sv_client_write_def output_append_armed)
qed

lemma pong_bytes:
  "header_bytes (messi_header_set_size ((header_at (replicate 4 0))\<lparr>header_type := MESSI_MESSAGE_TYPE_PONG\<rparr>) 0) =
     frame (MESSI_MESSAGE_TYPE_PONG, [])"
  by (simp add: frame_def header_bytes_def messi_header_create_def messi_header_set_size_def header_at_def)

lemma handle_ping_effect:
  assumes "sv_inv A s cs ps fs" "smooth (s_sys s)" "outcomes (s_sys s) = []" "i \<in> set cs"
    "sv_handle_message_ping i s = (res, s')"
  shows "res = 0" "sv_inv A s' cs ps fs" "armed (s_sys s') (k_timer (s_clients s i)) = Some 3"
    "sv_stream s' i = sv_stream s i @ frame (MESSI_MESSAGE_TYPE_PONG, [])" "s_log s' = s_log s"
proof -
  let ?t = "k_timer (s_clients s i)"
  let ?s1 = "s\<lparr>s_sys := (s_sys s)\<lparr>armed := (armed (s_sys s))(?t := Some 3)\<rparr>\<rparr>"
  let ?pong = "frame (MESSI_MESSAGE_TYPE_PONG, [])"
  have f: "sv_fds A s cs ps" using assms(1) by (simp add: sv_inv_def)
  note f = sv_fdsD [OF f]
  have "sv_client_start_keep_alive_timer i s = (0, ?s1)"
    using sys_on_fd_ok [OF assms(3)] f(3) assms(4)
    by (simp add: sv_client_start_keep_alive_timer_def sys_timerfd_settime_def)
  then have p: "res = 0" "s' = sv_client_write i ?pong ?s1"
    using assms(5) by (simp_all add: sv_handle_message_ping_def pong_bytes)
  then show "res = 0" by simp
  have "sv_inv A ?s1 cs ps fs"
    using assms(1) by (subst sv_inv_cong [of s]) (simp_all add: same_clients_def)
  moreover have "smooth (s_sys ?s1)" by (rule smooth_shrinks [OF os_shrinks_fields assms(2)]) simp_all
  ultimately have flows: "sv_flows A cs ps fs ?s1" by (simp add: sv_flows_def)
  note w = flows_write [OF flows assms(4) frame_not_empty assms(4), of "(MESSI_MESSAGE_TYPE_PONG, [])", folded p(2)]
  show "sv_inv A s' cs ps fs" using w(1) by (simp add: sv_flows_def)
  show "sv_stream s' i = sv_stream s i @ ?pong" using w(2) by (simp add: sv_stream_def)
  show "armed (s_sys s') ?t = Some 3"
    using client_write_armed [of ?t ?s1 i ?pong] f(4) assms(4) by (fastforce simp: p(2))
  show "s_log s' = s_log s"
    using sv_quietD(2) [OF client_write_quiet [OF sv_quiet_refl], of i ?pong ?s1] by (simp add: p(2))
qed

text \<open>C19: A ping keeps a client: it is answered with a pong, behind what was sent before, the client's
  timer is set to three seconds again, the client stays connected and ready for its next
  message, and the application sees nothing of it.\<close>

theorem server_answers_ping:
  assumes "sv_inv A s cs ps fs" "smooth (s_sys s)" "outcomes (s_sys s) = []" "i \<in> set cs"
    "input_fresh (k_input (s_clients s i))"
    "arrived as = frame (MESSI_MESSAGE_TYPE_PING, [])" "try_again as"
    "s' = sv_process_client_socket_in k i as s"
  shows "sv_inv A s' cs ps fs \<and> s_log s' = s_log s \<and> server_fresh i s' \<and>
    armed (s_sys s') (k_timer (s_clients s i)) = Some 3 \<and>
    sv_stream s' i = sv_stream s i @ frame (MESSI_MESSAGE_TYPE_PONG, [])"
proof -
  let ?f = "(MESSI_MESSAGE_TYPE_PING, []) :: byte \<times> byte list"
  let ?s1 = "sv_set_input i (input_loaded ?f (k_input (s_clients s i))) s"
  have set_inv: "sv_inv A (sv_set_input j inp t) cs ps fs = sv_inv A t cs ps fs"
    and set_stream: "sv_stream (sv_set_input j inp t) l = sv_stream t l"
    and set_log: "s_log (sv_set_input j inp t) = s_log t"
    and set_timer: "k_timer (s_clients (sv_set_input j inp t) l) = k_timer (s_clients t l)"
    for j l inp and t :: "('a, 'b, 'c) server"
    by (rule sv_inv_cong) (simp_all add: sv_set_input_def same_clients_def sv_stream_def)
  have live: "sv_no_minus t" "sv_receiving i t" if "sv_inv A t cs ps fs" for t :: "('a, 'b, 'c) server"
    using that sv_fdsD(2,11) assms(4) unfolding sv_inv_def sv_no_minus_def sv_receiving_def by blast+
  have fresh: "server_fresh i s" using live [OF assms(1)] assms(5) by (simp add: server_fresh_def)
  obtain res s2 where p: "sv_handle_message_ping i ?s1 = (res, s2)" by fastforce
  note e = handle_ping_effect [OF _ _ _ assms(4) p, of A ps fs, unfolded set_inv set_stream set_log set_timer,
      simplified server_simps, OF assms(1-3)]
  have "header_sizeof \<le> i_cap (k_input (s_clients s i))"
    using assms(5) by (auto simp: input_fresh_def input_ok_def)
  then have del: "server_deliver k i ?f s = sv_client_reset_input i s2"
    using live(2) [OF assms(1)] p e(1)
    by (simp add: server_deliver_def sv_handle_message_def MESSI_MESSAGE_TYPE_PING_def
        MESSI_MESSAGE_TYPE_CLIENT_TO_SERVER_USER_def)
  have inv: "sv_inv A (sv_client_reset_input i s2) cs ps fs" using e(2) by (simp add: reset_input_eq set_inv)
  have s': "s' = sv_client_reset_input i s2"
    using server_frames [OF fresh, of "[?f]" as k] assms(6-8) live(2) [OF inv]
    by (simp add: del server_finish_def)
  have "server_fresh i s'"
    using server_frames_log [OF fresh, of "[?f]" as s' k] assms(6,8) live(2) [OF inv] s' by auto
  then show ?thesis
    using inv e(3-5) unfolding s' by (simp add: reset_input_eq set_stream set_log server_simps)
qed

lemma server_answers_ping_witness:
  "sv_stream (sv_process_client_socket_in echo_codec 0 [Chunk [3, 0], Chunk [0, 0]] echo_two) 0 = [4, 0, 0, 0]"
proof -
  have "sv_stream echo_two 0 = []" "outcomes (s_sys echo_two) = []"
    by (simp_all add: sv_stream_def echo_two_def echo_connected_def echo_up_def echo_struct_def echo_os_def)
  then show ?thesis
    using server_answers_ping [OF echo_two_inv echo_smooth(2) _ _ _ _ _ refl, of 0 "[Chunk [3, 0], Chunk [0, 0]]" echo_codec]
      echo_two_fresh(1)
    by (simp add: server_fresh_def frame_def header_bytes_def messi_header_create_def messi_header_set_size_def
        MESSI_MESSAGE_TYPE_PING_def MESSI_MESSAGE_TYPE_PONG_def)
qed

section \<open>Runs of \<open>NAME_server_process\<close>\<close>

text \<open>No call of the server changes how later writes will turn out.\<close>

definition keeps_soft :: "os \<Rightarrow> os \<Rightarrow> bool" where
  "keeps_soft os os' \<longleftrightarrow> (soft_writes os \<longrightarrow> soft_writes os')"

lemma keeps_soft_refl [simp]: "keeps_soft os os"
  by (simp add: keeps_soft_def)

lemma keeps_soft_trans: "keeps_soft os os' \<Longrightarrow> keeps_soft os' os'' \<Longrightarrow> keeps_soft os os''"
  by (simp add: keeps_soft_def)

lemma shrinks_soft: "os_shrinks os os' \<Longrightarrow> keeps_soft os os'"
  unfolding keeps_soft_def os_shrinks_def soft_writes_def by blast

lemma wscript_soft: "wscript os' = wscript os \<Longrightarrow> keeps_soft os os'"
  by (simp add: keeps_soft_def soft_writes_def)

lemma new_fd_soft: "keeps_soft os (snd (sys_new_fd os))"
  by (rule wscript_soft) (simp add: sys_new_fd_def Let_def sys_try_simps split: prod.split, metis snd_conv sys_try_simps(8))

lemma non_blocking_soft: "keeps_soft os (snd (messi_make_non_blocking d os))"
proof -
  have "wscript (snd (sys_fcntl_getfl d os)) = wscript os"
    by (auto simp: sys_fcntl_getfl_def Let_def split: prod.split) (metis snd_conv sys_try_simps(8))+
  moreover have "wscript (snd (sys_fcntl_setfl d fl os')) = wscript os'" for fl os'
    using sys_on_fd_snd [of d "\<lambda>os. os\<lparr>fdflags := (fdflags os)(d := fl)\<rparr>" os']
    by (auto simp: sys_fcntl_setfl_def sys_try_simps)
  ultimately show ?thesis
    by (intro wscript_soft) (simp add: messi_make_non_blocking_def case_prod_unfold Let_def)
qed

lemma soft_calls:
  assumes "keeps_soft os0 os"
  shows "keeps_soft os0 (snd (sys_new_fd os))" "keeps_soft os0 (snd (sys_accept l os))"
    "keeps_soft os0 (snd (sys_timerfd_create os))"
    "keeps_soft os0 (snd (messi_make_non_blocking d os))" "keeps_soft os0 (snd (sys_setsockopt d os))"
    "keeps_soft os0 (snd (sys_timerfd_settime d n os))" "keeps_soft os0 (snd (call_epoll_ctl f epfd eop d ev os))"
    "keeps_soft os0 (sys_close d os)"
  using keeps_soft_trans [OF assms] new_fd_soft [of os] non_blocking_soft [of os d] assms
    shrinks_soft [OF sys_timerfd_settime_shrinks] shrinks_soft [OF call_epoll_ctl_shrinks]
    shrinks_soft [OF sys_close_shrinks] shrinks_soft [OF sys_on_fd_shrinks [where f = "\<lambda>os. os"]]
  by (auto simp: sys_accept_def sys_timerfd_create_def sys_setsockopt_def)

lemma soft_init:
  assumes "keeps_soft os0 (s_sys s)"
  shows "keeps_soft os0 (s_sys (snd (sv_client_init i d s)))"
  using assms
  by (simp add: sv_client_init_def sv_client_init_out1_def sv_client_init_out2_def sv_close_def
      sv_epoll_ctl_add_def sv_epoll_ctl_del_def sv_client_start_keep_alive_timer_def sv_client_reset_input_def
      case_prod_unfold Let_def soft_calls)

lemma soft_listener: "keeps_soft (s_sys s) (s_sys (sv_process_listener k s))"
proof -
  have alloc: "s_sys (snd (sv_alloc_client t)) = s_sys t" for t :: "('a, 'b, 'c) server"
    by (auto simp: sv_alloc_client_def Let_def split: option.split)
  have free: "s_sys (sv_free_connected_client i t) = s_sys t" for i and t :: "('a, 'b, 'c) server"
    using remove_client_frame(5) [of "s_connected t" i t]
    by (simp add: sv_free_connected_client_def case_prod_unfold Let_def)
  have cb: "keeps_soft os (s_sys (sv_callback k f ev t))" if "keeps_soft os (s_sys t)"
    for os f ev and t :: "('a, 'b, 'c) server"
    using that shrinks_soft [OF sv_keepsD(2) [OF callback_keeps]] by (rule keeps_soft_trans)
  show ?thesis
    by (simp add: sv_process_listener_def sv_process_listener_out1_def sv_process_listener_out2_def sv_close_def
        free alloc case_prod_unfold Let_def soft_calls soft_init cb split: option.split)
qed

lemma soft_process: "keeps_soft (s_sys s) (s_sys (server_process k d events as s))"
proof -
  have quiet: "keeps_soft (s_sys s) (s_sys t)" if "sv_quiet s t" for t
    using that shrinks_soft by (simp add: sv_quiet_def)
  have socket_in: "keeps_soft os (s_sys (sv_process_client_socket_in k i as t))" if "keeps_soft os (s_sys t)"
    for os i and t :: "('a, 'b, 'c) server"
  proof (rule process_in_keeps [where P = "\<lambda>t. keeps_soft os (s_sys t)", OF that])
    show "keeps_soft os (s_sys (sv_client_pending_disconnect i t))" if "keeps_soft os (s_sys t)"
      for t :: "('a, 'b, 'c) server"
      using that shrinks_soft [OF client_pending_disconnect_frame(5)] by (rule keeps_soft_trans)
    show "keeps_soft os (s_sys (snd (sv_handle_message k i ty t)))" if "keeps_soft os (s_sys t)"
      for ty and t :: "('a, 'b, 'c) server"
      using that shrinks_soft [OF sv_keepsD(2) [OF handle_message_keeps]] by (rule keeps_soft_trans)
  qed (simp add: server_simps)
  have event: "keeps_soft (s_sys s) (s_sys (sv_process_client_socket k i events as s))"
    "keeps_soft (s_sys s) (s_sys (sv_process_client_keep_alive_timer i s))" for i
    by (simp_all add: sv_process_client_socket_def sv_process_client_keep_alive_timer_def Let_def socket_in quiet)
  have destroy: "keeps_soft (s_sys s) (s_sys (sv_destroy_pending_disconnect_clients k t))"
    if "keeps_soft (s_sys s) (s_sys t)" for t
    unfolding sv_destroy_pending_disconnect_clients_def
    using that shrinks_soft [OF destroy_loop_shrinks] by (rule keeps_soft_trans)
  show ?thesis
    unfolding server_process_def Let_def
    by (rule destroy) (auto simp: soft_listener event split: option.split)
qed

lemma soft_start: "keeps_soft (s_sys s) (s_sys (snd (server_start s)))"
proof -
  have bind: "keeps_soft os0 (snd (sys_bind d ip p os))" "keeps_soft os0 (snd (sys_listen d os))"
    "keeps_soft os0 (snd (sys_socket os))" if "keeps_soft os0 os" for os0 os d ip p
    using keeps_soft_trans [OF that] soft_calls(1) [OF that]
      shrinks_soft [OF sys_on_fd_shrinks [where f = "\<lambda>os. os"]]
      shrinks_soft [OF sys_on_fd_shrinks [where f = "\<lambda>os. os\<lparr>peer := (peer os)(d := Some (ip, p))\<rparr>"]]
    by (simp_all add: sys_bind_def sys_listen_def sys_socket_def)
  show ?thesis
    by (simp add: server_start_def sv_start_out_def sv_close_def sv_epoll_ctl_add_def case_prod_unfold Let_def
        soft_calls bind split: option.split)
qed

definition server_loop ::
    "('i, 'o) codec \<Rightarrow> (fd \<times> u32 \<times> arrival list) list \<Rightarrow> ('u, 'i, 'o) server \<Rightarrow> ('u, 'i, 'o) server" where
  "server_loop k evs s = fold (\<lambda>(d, events, as) s. server_process k d events as s) evs s"

lemma server_loop_ready:
  assumes "server_ready A s" "server_codec_ok k s" "server_app_ok s" "soft_writes (s_sys s)"
  shows "server_ready A (server_loop k evs s) \<and> sv_cfg (server_loop k evs s) = sv_cfg s"
  using assms
proof (induction evs arbitrary: s)
  case (Cons ev evs)
  obtain d events as where ev: "ev = (d, events, as)" by (cases ev)
  let ?s = "server_process k d events as s"
  have r: "server_ready A ?s" "sv_cfg ?s = sv_cfg s"
    using server_process_inv [of A s k events d as] Cons.prems by blast+
  have "soft_writes (s_sys ?s)" using soft_process [of s k d events as] Cons.prems(4) by (simp add: keeps_soft_def)
  then show ?case
    using Cons.IH [OF r(1)] Cons.prems(2,3) sv_cfg_ok [OF r(2)] r(2) by (simp add: ev server_loop_def)
qed (simp add: server_loop_def)

end
