(* ===== verification/LinuxServerFindings.thy ===== *)
theory LinuxServerFindings
  imports LinuxServerLifecycle
begin

text \<open>
  What the linux server does not survive: three situations outside of the hypotheses of
  \<open>server_stays_safe\<close> in which it uses memory it must not use, and one in which a client gets a
  stream of bytes that is not one of messages.
\<close>

lemmas server_run =
  server_process_def sv_process_client_socket_def sv_process_client_socket_out_def
  sv_destroy_pending_disconnect_clients_def sv_callback_def server_send_def server_broadcast_def
  sv_encode_user_message_def sv_client_write_def sv_client_output_append_def sv_malloc_def sys_malloc_def
  sys_write_def sv_client_pending_disconnect_def sv_close_fd_def sv_close_def sv_epoll_ctl_del_def
  sv_epoll_ctl_mod_def messi_epoll_ctl_default_def sys_epoll_ctl_def sys_on_fd_def sys_try_def sys_close_def
  sv_free_client_output_def sv_free_item_def sv_move_client_to_pending_disconnect_list_def
  sv_free_pending_disconnect_client_def sv_remove_client_from_list_def sv_on_client_default_def
  server_init_message_def server_new_output_message_def
  echo_two_def echo_up_def echo_connected_def echo_junk_def echo_struct_def echo_os_def echo_codec_def
  EPOLLIN_def EPOLLOUT_def

section \<open>A write that fails in the middle of a queue\<close>

lemma move_client_fault: "s_fault s \<Longrightarrow> s_fault (sv_move_client_to_pending_disconnect_list i s)"
  by (auto simp: sv_move_client_to_pending_disconnect_list_def sv_remove_client_from_list_def Let_def
      split: option.split prod.split)

text \<open>C39: When the kernel takes the first item of a queue and then reports that the connection is broken,
  the server frees the first item twice: \<open>process_client_socket_out\<close> only stores the new head of the
  queue after its loop, so that \<open>client_pending_disconnect\<close>, which it calls within the loop, starts to
  free the queue at the item that has just been freed.\<close>

theorem server_double_free:
  assumes "k_head (s_clients s i) = Some a" "s_heap s a = Some x" "it_next x = Some b" "s_heap s b = Some y" "a \<noteq> b"
    "item_ok x" "k_fd (s_clients s i) \<in> set (fds (s_sys s))" "k_fd (s_clients s i) \<noteq> - 1" "0 < s_brk s"
    "wscript (s_sys s) = Accept n # Write_error e # ws" "it_size x \<le> n" "e \<noteq> EAGAIN"
  shows "s_fault (sv_process_client_socket_out i s)"
proof -
  obtain m where m: "length (wscript (s_sys s)) + s_brk s = Suc (Suc m)" by (simp add: assms(10))
  obtain l where l: "s_brk s = Suc l" using assms(9) by (cases "s_brk s") simp_all
  have x: "min n (length (take (it_size x) (drop (it_offset x) (it_data x)))) = it_size x"
    using assms(6,11) by (auto simp: item_ok_def min_def)
  define os where "os = (s_sys s)\<lparr>
      tx := (tx (s_sys s))(k_fd (s_clients s i) := tx (s_sys s) (k_fd (s_clients s i)) @
        take n (take (it_size x) (drop (it_offset x) (it_data x)))), wscript := ws\<rparr>"
  define s1 where "s1 = s\<lparr>s_heap := (s_heap s)(a := None), s_sys := os\<rparr>"
  have w: "sv_write_items i (Suc (Suc m)) (Some a) s = (Some b, sv_client_pending_disconnect i s1)"
    using assms x by (simp add: sys_write_def sv_free_item_def Let_def s1_def os_def)
  have "s_fault (sv_client_pending_disconnect i s1)"
    using assms(1,8)
    by (simp add: sv_client_pending_disconnect_def Let_def sv_free_client_output_def s1_def l
        sv_close_fd_def sv_close_def sv_epoll_ctl_del_def move_client_fault)
  then show ?thesis
    by (simp add: sv_process_client_socket_out_def m assms(1) w Let_def del: sv_write_items.simps)
qed

text \<open>Two messages of which the kernel takes nothing are queued for the first client.\<close>

definition echo_item :: "ptr \<Rightarrow> item" where
  "echo_item p = \<lparr>it_offset = 0, it_size = 5, it_next = p, it_data = [2, 0, 0, 1, 7]\<rparr>"

definition echo_queued :: "(nat, byte list, byte list) server" where
  "echo_queued = echo_two\<lparr>s_out_message := Some [7], s_out_buf := [2, 0, 0, 1, 7] @ replicate 7 0,
     s_clients := (s_clients echo_two)(0 := (echo_connected 5 6 None (Some 1))\<lparr>k_head := Some 0, k_tail := Some 1\<rparr>),
     s_heap := (\<lambda>a. None)(0 \<mapsto> echo_item (Some 1), 1 \<mapsto> echo_item None), s_brk := 2,
     s_sys := (s_sys echo_two)\<lparr>wscript := [Accept 5, Write_error EPIPE],
       interest := (interest (s_sys echo_two))(5 := Some (EPOLLIN OR EPOLLOUT))\<rparr>\<rparr>"

lemma echo_queued:
  "server_send echo_codec 0 (server_send echo_codec 0
     (echo_two\<lparr>s_out_message := Some [7],
        s_sys := (s_sys echo_two)\<lparr>wscript := [Write_error EAGAIN, Accept 5, Write_error EPIPE]\<rparr>\<rparr>)) = echo_queued"
  by (simp add: echo_queued_def echo_item_def server_run size_sub_def header_sizeof_def sv_client_write_loop.simps
      buf_write_def frame_def header_bytes_def header_at_def messi_header_set_size_def
      MESSI_MESSAGE_TYPE_SERVER_TO_CLIENT_USER_def sv_upd_def Let_def fun_eq_iff)

lemma server_double_free_witness:
  "s_fault (sv_process_client_socket_out 0 echo_queued)"
  by (rule server_double_free [of _ _ 0 "echo_item (Some 1)" 1 "echo_item None" 5 EPIPE "[]"])
    (simp_all add: echo_queued_def echo_item_def item_ok_def echo_two_def echo_connected_def)

section \<open>A broadcast while a disconnection is completed\<close>

text \<open>An application that tells everybody else when a client is gone.\<close>

definition tell_all :: "nat \<Rightarrow> nat \<Rightarrow> nat \<times> byte list server_request list" where
  "tell_all i n = (n, [Prepare_message (\<lambda>_. [7]), Broadcast])"

definition echo_telling :: "(nat, byte list, byte list) server" where
  "echo_telling = echo_two\<lparr>s_on_client_disconnected := tell_all,
     s_sys := (s_sys echo_two)\<lparr>wscript := [Write_error EPIPE]\<rparr>\<rparr>"

text \<open>C40: An application that broadcasts from \<open>on_client_disconnected\<close> can crash the server: the client
  that connected last closes its connection, and by then the other one is gone as well, so that
  the broadcast fails for it. It is put in front of the list of pending disconnections, but the
  pointer of the old head to it is not set; removing the old head then follows \<open>NULL\<close>.\<close>

theorem server_crashes_on_broadcast:
  "\<not> s_fault echo_telling \<and> s_fault (server_process echo_codec 7 EPOLLIN [Chunk []] echo_telling)"
proof -
  have r: "sv_receiving (Suc 0) echo_telling"
    by (simp add: sv_receiving_def echo_telling_def echo_two_def echo_connected_def)
  have "s_connected echo_telling = Some (Suc 0)" "k_fd (s_clients echo_telling (Suc 0)) = 7" "s_max echo_telling = Suc 1"
    "s_listener_fd echo_telling = 4"
    by (simp_all add: echo_telling_def echo_two_def echo_up_def echo_connected_def)
  then have p: "server_process echo_codec 7 EPOLLIN [Chunk []] echo_telling =
      sv_destroy_pending_disconnect_clients echo_codec (sv_client_pending_disconnect (Suc 0) echo_telling)"
    using process_in_alive(2) [OF r, of echo_codec "[]"]
    by (simp add: server_process_def sv_process_client_socket_def EPOLLIN_def EPOLLOUT_def Let_def)
  have two: "sv_destroy_loop k 2 = sv_destroy_loop k (Suc (Suc 0))" "sv_broadcast_loop 2 = sv_broadcast_loop (Suc (Suc 0))" for k
    by (simp_all add: numeral_2_eq_2)
  show ?thesis
    unfolding p
    by (simp add: echo_telling_def server_run tell_all_def two size_sub_def header_sizeof_def
        sv_client_write_loop.simps buf_write_def sv_upd_def Let_def)
qed

section \<open>Memory runs out\<close>

text \<open>When there is no memory for the rest of a message that the kernel has taken a part of, the
  server drops the rest and keeps the client: the next message follows in the middle of the
  first, and from then on the client gets a stream that is not one of messages.\<close>

theorem server_drops_rest:
  "let s = server_send echo_codec 0 (server_send echo_codec 0
      (echo_two\<lparr>s_out_message := Some [7],
         s_sys := (s_sys echo_two)\<lparr>wscript := [Accept 2, Write_error EAGAIN], mallocs := [False]\<rparr>\<rparr>))
   in s_connected s = Some 1 \<and> k_fd (s_clients s 0) = 5 \<and>
      tx (s_sys s) 5 = [2, 0] @ frame (MESSI_MESSAGE_TYPE_SERVER_TO_CLIENT_USER, [7])"
  by (simp add: server_run size_sub_def header_sizeof_def sv_client_write_loop.simps
      buf_write_def frame_def header_bytes_def header_at_def messi_header_set_size_def messi_header_create_def
      MESSI_MESSAGE_TYPE_SERVER_TO_CLIENT_USER_def sv_upd_def Let_def)

section \<open>Stopping and starting again\<close>

text \<open>The server with two clients is stopped and started, and two clients connect again:
  \<open>echo_back\<close>, \<open>echo_back_one\<close> and \<open>echo_restarted\<close> are the states in between.\<close>

definition echo_back :: "(nat, byte list, byte list) server" where
  "echo_back = echo_two\<lparr>s_free := Some 0,
     s_clients := (\<lambda>i. echo_junk)(0 := echo_connected 5 6 (Some 1) (Some 1), 1 := echo_connected 7 8 None None),
     s_sys := (s_sys echo_two)\<lparr>fds := [4, 3, 2, 1, 0], interest := (\<lambda>d. None)(4 := Some EPOLLIN),
       armed := \<lambda>d. None\<rparr>\<rparr>"

definition echo_back_one :: "(nat, byte list, byte list) server" where
  "echo_back_one = echo_two\<lparr>s_connected := Some 0, s_free := Some 1,
     s_clients := (\<lambda>i. echo_junk)(0 := echo_connected 5 6 (Some 1) (Some 1), 1 := echo_connected 7 8 None (Some 0)),
     s_sys := (s_sys echo_two)\<lparr>fds := [6, 5, 4, 3, 2, 1, 0],
       interest := (\<lambda>d. None)(4 := Some EPOLLIN, 5 := Some EPOLLIN, 6 := Some EPOLLIN),
       armed := (\<lambda>d. None)(6 := Some 3)\<rparr>,
     s_log := [Client_connected 0, Client_connected 1, Client_connected 0]\<rparr>"

definition echo_restarted :: "(nat, byte list, byte list) server" where
  "echo_restarted = echo_two\<lparr>
     s_clients := (\<lambda>i. echo_junk)(0 := echo_connected 5 6 (Some 1) (Some 1), 1 := echo_connected 7 8 (Some 0) (Some 0)),
     s_log := [Client_connected 0, Client_connected 1, Client_connected 0, Client_connected 1]\<rparr>"

lemma echo_restarts:
  "server_start (server_stop echo_two) = (0, echo_back)"
  "server_process echo_codec 4 EPOLLIN [] echo_back = echo_back_one"
  "server_process echo_codec 4 EPOLLIN [] echo_back_one = echo_restarted"
proof -
  have two: "sv_stop_loop 2 = sv_stop_loop (Suc (Suc 0))" "sv_destroy_loop k 2 None s = s" for k s
    by (simp_all add: numeral_2_eq_2)
  show "server_start (server_stop echo_two) = (0, echo_back)"
    by (simp add: echo_back_def server_stop_def server_start_def sv_start_out_def echo_unfold sv_close_fd_def
        sv_epoll_ctl_del_def sv_free_client_output_def sys_close_def sv_sin_port_def sv_upd_def two Let_def fun_eq_iff)
  show "server_process echo_codec 4 EPOLLIN [] echo_back = echo_back_one"
    by (simp add: echo_back_def echo_back_one_def echo_process echo_unfold Let_def two fun_eq_iff)
  show "server_process echo_codec 4 EPOLLIN [] echo_back_one = echo_restarted"
    by (simp add: echo_back_one_def echo_restarted_def echo_process echo_unfold Let_def two fun_eq_iff)
qed

lemma echo_restarted_fields:
  "s_connected echo_restarted = Some 1" "k_next (s_clients echo_restarted 1) = Some 0"
  "k_next (s_clients echo_restarted 0) = Some 1" "\<not> s_hang echo_restarted"
  "k_fd (s_clients echo_restarted 0) = 5" "k_timer (s_clients echo_restarted 0) = 6"
  "k_fd (s_clients echo_restarted 1) = 7" "k_timer (s_clients echo_restarted 1) = 8"
  by (simp_all add: echo_restarted_def echo_two_def echo_up_def echo_connected_def)

text \<open>A server that is stopped and started again has the old clients in its list of connected clients,
  although \<open>server_stop\<close> has also given them back to the free list. The clients that connect next
  are put in front of themselves, the list becomes a cycle, and the search for the client of a
  descriptor that is not one of a client (nor the listener) does not end.\<close>

theorem server_restart_hangs:
  "let s = server_process echo_codec 4 EPOLLIN [] (server_process echo_codec 4 EPOLLIN []
       (snd (server_start (server_stop echo_two))))
   in lpath (nxt s) (s_connected s) [1, 0] (s_connected s) \<and> (\<forall>n. sv_find_client 9 n (s_connected s) s = None)"
proof -
  note fields = echo_restarted_fields echo_restarted_fields [simplified]
  have "sv_find_client 9 n p echo_restarted = None" if "p \<in> {Some 0, Some 1}" for n p
    using that
    by (induction n arbitrary: p) (auto simp: fields)
  then show ?thesis by (simp add: echo_restarts fields)
qed

end
