(* ===== verification/AsyncClient.thy ===== *)
theory AsyncClient
  imports LinuxClient
begin

text \<open>
  The client for the async framework: \<open>struct NAME_client_t\<close> of \<open>templates/async/client.h\<close> and
  every function of \<open>templates/async/client.c\<close>.

  The framework is another project. The client tells it what to do by calls that return nothing,
  so what it gets to know is the list of these calls, kept in the order they are made. The
  framework answers by calling the client: that a connection is up or lost, that a timer has
  expired, that bytes have arrived. The bytes themselves are the one thing the client asks for,
  by \<open>async_stcp_client_read\<close>: while it handles one event, what a read delivers may depend on
  the calls made so far, on the number of bytes already read and on the number asked for. This
  function is an argument of the event.
\<close>

section \<open>The framework\<close>

datatype async_timer = Keep_alive_timer | Reconnect_timer

text \<open>
  \<open>Async_call\<close> is \<open>async_call\<close> with \<open>on_disconnected\<close>, the one function the client passes to it;
  the framework calls that function later.
\<close>

datatype async_call =
    Stcp_init
  | Stcp_connect string int
  | Stcp_disconnect
  | Stcp_write "byte list"
  | Timer_init async_timer nat nat
  | Timer_start async_timer
  | Timer_stop async_timer
  | Async_call

type_synonym async_reads = "async_call list \<Rightarrow> nat \<Rightarrow> nat \<Rightarrow> byte list"

section \<open>State\<close>

text \<open>
  From \<open>a_app\<close> on the fields are not part of the struct: the state of the application, the calls
  made to the framework, the callbacks called so far, and a ghost that records a write outside of
  the output buffer or through a \<open>NULL\<close> pointer.
\<close>

record ('u, 'i, 'o) async_client =
  a_address :: string
  a_port :: int
  a_is_connected :: bool
  a_disconnect_reason :: disconnect_reason
  a_on_connected :: "'u \<Rightarrow> 'u \<times> 'o client_request list"
  a_on_disconnected :: "disconnect_reason \<Rightarrow> 'u \<Rightarrow> 'u \<times> 'o client_request list"
  a_on_message :: "nat \<Rightarrow> ('i \<Rightarrow> 'u \<Rightarrow> 'u \<times> 'o client_request list) option"
  a_pong_received :: bool
  a_in_message :: "'i option"
  a_in_workspace_size :: nat
  a_input :: input
  a_out_message :: "'o option"
  a_out_workspace_size :: nat
  a_out_buf :: "byte list"
  a_out_size :: nat
  a_app :: 'u
  a_calls :: "async_call list"
  a_log :: "'i client_event list"
  a_fault :: bool

definition ac_call :: "async_call \<Rightarrow> ('u, 'i, 'o) async_client \<Rightarrow> ('u, 'i, 'o) async_client" where
  "ac_call x c = c\<lparr>a_calls := a_calls c @ [x]\<rparr>"

section \<open>Disconnecting\<close>

definition ac_reset_input_encoded :: "('u, 'i, 'o) async_client \<Rightarrow> ('u, 'i, 'o) async_client" where
  "ac_reset_input_encoded c =
     c\<lparr>a_input := (a_input c)\<lparr>i_state := Header, i_size := 0, i_left := header_sizeof\<rparr>\<rparr>"

definition ac_disconnect_and_start_reconnect_timer ::
    "disconnect_reason \<Rightarrow> ('u, 'i, 'o) async_client \<Rightarrow> ('u, 'i, 'o) async_client" where
  "ac_disconnect_and_start_reconnect_timer reason c =
     (if \<not> a_is_connected c then c
      else
        (let c = c\<lparr>a_is_connected := False\<rparr>;
             c = ac_call (Timer_stop Keep_alive_timer) c;
             c = ac_call Stcp_disconnect c;
             c = c\<lparr>a_disconnect_reason := reason\<rparr>
         in ac_call Async_call c))"

section \<open>What the application calls\<close>

definition async_client_new_output_message ::
    "('i, 'o) codec \<Rightarrow> ('u, 'i, 'o) async_client \<Rightarrow> ('u, 'i, 'o) async_client" where
  "async_client_new_output_message k c = c\<lparr>a_out_message := out_new k (a_out_workspace_size c)\<rparr>"

text \<open>
  \<open>NAME_client_init_<message>\<close>: a new message, then its \<open>alloc\<close> function, which selects the
  message; \<open>alloc\<close> also stands for the assignments the application makes to the fields.
\<close>

definition async_client_init_message ::
    "('i, 'o) codec \<Rightarrow> ('o \<Rightarrow> 'o) \<Rightarrow> ('u, 'i, 'o) async_client \<Rightarrow> ('u, 'i, 'o) async_client" where
  "async_client_init_message k alloc c =
     (let c1 = async_client_new_output_message k c
      in case a_out_message c1 of
           None \<Rightarrow> c1\<lparr>a_fault := True\<rparr>
         | Some m \<Rightarrow> c1\<lparr>a_out_message := Some (alloc m)\<rparr>)"

definition async_client_start :: "('u, 'i, 'o) async_client \<Rightarrow> ('u, 'i, 'o) async_client" where
  "async_client_start c = ac_call (Stcp_connect (a_address c) (a_port c)) c"

definition async_client_stop :: "('u, 'i, 'o) async_client \<Rightarrow> ('u, 'i, 'o) async_client" where
  "async_client_stop c =
     ac_call (Timer_stop Keep_alive_timer) (ac_call (Timer_stop Reconnect_timer) (ac_call Stcp_disconnect c))"

definition async_client_send ::
    "('i, 'o) codec \<Rightarrow> ('u, 'i, 'o) async_client \<Rightarrow> ('u, 'i, 'o) async_client" where
  "async_client_send k c =
     (case out_encode k (a_out_message c) (size_sub (a_out_size c) header_sizeof) of
        None \<Rightarrow> ac_disconnect_and_start_reconnect_timer Message_encode_error c
      | Some payload \<Rightarrow>
          (let res = length payload;
               buf1 = buf_write header_sizeof payload (a_out_buf c);
               header = messi_header_create (header_at buf1)
                          MESSI_MESSAGE_TYPE_CLIENT_TO_SERVER_USER (of_nat res);
               buf2 = buf_write 0 (header_bytes header) buf1;
               c1 = c\<lparr>a_out_buf := buf2,
                      a_fault := (a_fault c \<or> length (a_out_buf c) < header_sizeof + res)\<rparr>
           in ac_call (Stcp_write (take (res + header_sizeof) buf2)) c1))"

text \<open>The requests a callback may make are those of the linux client.\<close>

fun async_client_call ::
    "('i, 'o) codec \<Rightarrow> 'o client_request \<Rightarrow> ('u, 'i, 'o) async_client \<Rightarrow> ('u, 'i, 'o) async_client" where
  "async_client_call k (Init_message alloc) c = async_client_init_message k alloc c"
| "async_client_call k Client_send c = async_client_send k c"
| "async_client_call k Client_stop c = async_client_stop c"

definition ac_callback ::
    "('i, 'o) codec \<Rightarrow> ('u \<Rightarrow> 'u \<times> 'o client_request list) \<Rightarrow> 'i client_event \<Rightarrow>
     ('u, 'i, 'o) async_client \<Rightarrow> ('u, 'i, 'o) async_client" where
  "ac_callback k cb ev c =
     (let (u, calls) = cb (a_app c)
      in fold (async_client_call k) calls (c\<lparr>a_app := u, a_log := a_log c @ [ev]\<rparr>))"

text \<open>The function that the framework is asked to call after a disconnection.\<close>

definition ac_on_disconnected ::
    "('i, 'o) codec \<Rightarrow> ('u, 'i, 'o) async_client \<Rightarrow> ('u, 'i, 'o) async_client" where
  "ac_on_disconnected k c =
     ac_call (Timer_start Reconnect_timer)
       (ac_callback k (a_on_disconnected c (a_disconnect_reason c))
         (Disconnected (a_disconnect_reason c)) c)"

section \<open>Messages from the server\<close>

definition ac_handle_message_user ::
    "('i, 'o) codec \<Rightarrow> ('u, 'i, 'o) async_client \<Rightarrow> ('u, 'i, 'o) async_client" where
  "ac_handle_message_user k c =
     (let c1 = c\<lparr>a_in_message := in_new k (a_in_workspace_size c)\<rparr>
      in case a_in_message c1 of
           None \<Rightarrow> c1
         | Some message \<Rightarrow>
             (let payload_size = i_size (a_input c1) - header_sizeof;
                  payload = take payload_size (drop header_sizeof (i_buf (a_input c1)));
                  (res, message) = in_decode k message payload;
                  c2 = c1\<lparr>a_in_message := Some message\<rparr>
              in if res \<noteq> int payload_size
                 then ac_disconnect_and_start_reconnect_timer Message_decode_error c2
                 else case a_on_message c2 (in_choice k message) of
                     None \<Rightarrow> c2
                   | Some cb \<Rightarrow>
                       ac_callback k (cb message) (Received (in_choice k message) message) c2))"

definition ac_handle_message_pong :: "('u, 'i, 'o) async_client \<Rightarrow> ('u, 'i, 'o) async_client" where
  "ac_handle_message_pong c = c\<lparr>a_pong_received := True\<rparr>"

definition ac_handle_message ::
    "('i, 'o) codec \<Rightarrow> byte \<Rightarrow> ('u, 'i, 'o) async_client \<Rightarrow> ('u, 'i, 'o) async_client" where
  "ac_handle_message k ty c =
     (if ty = MESSI_MESSAGE_TYPE_SERVER_TO_CLIENT_USER then ac_handle_message_user k c
      else if ty = MESSI_MESSAGE_TYPE_PONG then ac_handle_message_pong c
      else c)"

section \<open>Events\<close>

definition ac_on_keep_alive_timeout :: "('u, 'i, 'o) async_client \<Rightarrow> ('u, 'i, 'o) async_client" where
  "ac_on_keep_alive_timeout c =
     (if a_pong_received c
      then
        (let c = ac_call (Timer_start Keep_alive_timer) c;
             c = c\<lparr>a_pong_received := False\<rparr>;
             header = messi_header_create (header_at (replicate 4 0)) MESSI_MESSAGE_TYPE_PING 0
         in ac_call (Stcp_write (header_bytes header)) c)
      else ac_disconnect_and_start_reconnect_timer Keep_alive_timeout c)"

definition ac_on_stcp_connected ::
    "('i, 'o) codec \<Rightarrow> int \<Rightarrow> ('u, 'i, 'o) async_client \<Rightarrow> ('u, 'i, 'o) async_client" where
  "ac_on_stcp_connected k res c =
     (if res = 0
      then
        (let c = ac_call (Timer_start Keep_alive_timer) c;
             c = c\<lparr>a_pong_received := True\<rparr>;
             c = c\<lparr>a_is_connected := True\<rparr>
         in ac_callback k (a_on_connected c) Connected c)
      else ac_call (Timer_start Reconnect_timer) c)"

definition ac_on_stcp_disconnected :: "('u, 'i, 'o) async_client \<Rightarrow> ('u, 'i, 'o) async_client" where
  "ac_on_stcp_disconnected c = ac_disconnect_and_start_reconnect_timer Connection_closed c"

text \<open>
  The loop of \<open>on_stcp_input\<close>, with the number \<open>t\<close> of bytes read so far. Nothing in the client
  bounds the number of rounds: it ends when the framework has nothing more to deliver.
\<close>

partial_function (option) ac_input_loop ::
    "async_reads \<Rightarrow> ('i, 'o) codec \<Rightarrow> nat \<Rightarrow> ('u, 'i, 'o) async_client \<Rightarrow> ('u, 'i, 'o) async_client option" where
  "ac_input_loop rd k t c =
     (let bs = rd (a_calls c) t (i_left (a_input c))
      in if bs = [] then Some c
         else
      let c1 = c\<lparr>a_input := input_read bs (a_input c)\<rparr>
      in if i_left (a_input c1) > 0 then ac_input_loop rd k (t + length bs) c1
         else
      let (go_on, c3) =
        (if i_state (a_input c1) = Header
         then
           (let c2 = c1\<lparr>a_input := (a_input c1)\<lparr>i_left :=
                   unat (messi_header_get_size (input_header (a_input c1)))\<rparr>\<rparr>
            in if i_left (a_input c2) + header_sizeof > i_cap (a_input c2)
               then (False, ac_disconnect_and_start_reconnect_timer Message_too_big c2)
               else (True, c2\<lparr>a_input := (a_input c2)\<lparr>i_state := Payload\<rparr>\<rparr>))
         else (True, c1))
      in if \<not> go_on then Some c3
         else if i_left (a_input c3) = 0
         then ac_input_loop rd k (t + length bs)
                (ac_reset_input_encoded
                  (ac_handle_message k (header_type (input_header (a_input c3))) c3))
         else ac_input_loop rd k (t + length bs) c3)"

definition ac_on_stcp_input ::
    "async_reads \<Rightarrow> ('i, 'o) codec \<Rightarrow> ('u, 'i, 'o) async_client \<Rightarrow> ('u, 'i, 'o) async_client option" where
  "ac_on_stcp_input rd k c = ac_input_loop rd k 0 c"

section \<open>Initialisation\<close>

definition ac_on_connected_default :: "'u \<Rightarrow> 'u \<times> 'o client_request list" where
  "ac_on_connected_default u = (u, [])"

definition ac_on_disconnected_default :: "disconnect_reason \<Rightarrow> 'u \<Rightarrow> 'u \<times> 'o client_request list" where
  "ac_on_disconnected_default reason u = (u, [])"

definition ac_on_message_default :: "'i \<Rightarrow> 'u \<Rightarrow> 'u \<times> 'o client_request list" where
  "ac_on_message_default m u = (u, [])"

text \<open>
  \<open>NAME_client_init\<close>; the timeouts of the timers are in milliseconds. The result \<open>-1\<close> leaves the
  struct as it is. The two ghosts start cleared.
\<close>

definition async_client_init ::
    "string \<Rightarrow> byte list \<Rightarrow> nat \<Rightarrow> byte list \<Rightarrow> nat \<Rightarrow>
     ('u \<Rightarrow> 'u \<times> 'o client_request list) option \<Rightarrow>
     (disconnect_reason \<Rightarrow> 'u \<Rightarrow> 'u \<times> 'o client_request list) option \<Rightarrow>
     (nat \<times> ('i \<Rightarrow> 'u \<Rightarrow> 'u \<times> 'o client_request list) option) list \<Rightarrow>
     ('u, 'i, 'o) async_client \<Rightarrow> int \<times> ('u, 'i, 'o) async_client" where
  "async_client_init server_uri encoded_in workspace_in_size encoded_out workspace_out_size
       on_connected on_disconnected on_messages c =
     (let on_message = map_option (\<lambda>cb. case cb of None \<Rightarrow> ac_on_message_default | Some f \<Rightarrow> f)
            \<circ> map_of on_messages;
          on_connected = (case on_connected of None \<Rightarrow> ac_on_connected_default | Some f \<Rightarrow> f);
          on_disconnected =
            (case on_disconnected of None \<Rightarrow> ac_on_disconnected_default | Some f \<Rightarrow> f)
      in case messi_parse_tcp_uri server_uri 16 of
           None \<Rightarrow> (- 1, c)
         | Some (address, prt) \<Rightarrow>
             (let c = c\<lparr>a_address := address, a_port := prt, a_is_connected := False,
                    a_on_connected := on_connected, a_on_disconnected := on_disconnected,
                    a_on_message := on_message,
                    a_input := (a_input c)\<lparr>i_buf := encoded_in, i_cap := length encoded_in, i_overrun := False\<rparr>\<rparr>;
                  c = (ac_reset_input_encoded c)
                    \<lparr>a_in_workspace_size := workspace_in_size,
                     a_out_buf := encoded_out, a_out_size := length encoded_out,
                     a_out_workspace_size := workspace_out_size, a_fault := False\<rparr>;
                  c = ac_call Stcp_init c;
                  c = ac_call (Timer_init Keep_alive_timer 2000 0) c
              in (0, ac_call (Timer_init Reconnect_timer 1000 0) c)))"

end
