(* ===== verification/Poller.thy ===== *)
theory Poller
  imports Input
begin

text \<open>
  The reading loops of the clients and servers that run on an event framework. Unlike those in
  \<open>Input\<close> they do not read a socket but ask the framework for bytes until it has none, and what the
  framework answers may depend on what it was told before.
\<close>

section \<open>The interface\<close>

text \<open>
  \<open>hist\<close> is what the framework was told, \<open>poll rd t\<close> the loop when \<open>t\<close> bytes have been read in this
  event, \<open>rd\<close> what a read delivers, \<open>result\<close> what the loop returns, and \<open>serves rd bs\<close> says that
  \<open>rd\<close> delivers the bytes \<open>bs\<close>, in any pieces.
\<close>

locale frame_poller = frame_machine +
  fixes hist :: "'a \<Rightarrow> 'h"
    and result :: "'a \<Rightarrow> 'r"
    and serves :: "('h \<Rightarrow> nat \<Rightarrow> nat \<Rightarrow> byte list) \<Rightarrow> byte list \<Rightarrow> bool"
    and poll :: "('h \<Rightarrow> nat \<Rightarrow> nat \<Rightarrow> byte list) \<Rightarrow> nat \<Rightarrow> 'a \<Rightarrow> 'r option"
  assumes serves_length: "serves rd bs \<Longrightarrow> length (rd h t n) \<le> n"
    and serves_prefix: "serves rd bs \<Longrightarrow> \<exists>bs'. drop t bs = rd h t n @ bs'"
    and serves_some: "serves rd bs \<Longrightarrow> alive s \<Longrightarrow> 0 < n \<Longrightarrow> t < length bs \<Longrightarrow> rd (hist s) t n \<noteq> []"
    and poll_dead: "serves rd bs \<Longrightarrow> \<not> alive s \<Longrightarrow> poll rd t s = Some (result s)"
    and poll_nothing: "alive s \<Longrightarrow> rd (hist s) t (i_left (inp s)) = [] \<Longrightarrow> poll rd t s = Some (result s)"
    and poll_round: "inv s \<Longrightarrow> alive s \<Longrightarrow> rd (hist s) t (i_left (inp s)) = bs \<Longrightarrow> bs \<noteq> [] \<Longrightarrow>
      s1 = set_inp (input_read bs (inp s)) s \<Longrightarrow>
      poll rd t s =
        (if 0 < i_left (inp s1) then poll rd (t + length bs) s1
         else case input_complete (inp s1) of
             Too_big i \<Rightarrow> Some (result (too_big (set_inp i s1)))
           | More i \<Rightarrow> poll rd (t + length bs) (set_inp i s1)
           | Ready i \<Rightarrow> poll rd (t + length bs) (dispatch (set_inp i s1)))"
begin

text \<open>The loop does with the bytes what the machine does that takes one byte at a time.\<close>

theorem poll_feed:
  assumes "serves rd bs" "sound s"
  shows "poll rd t s = Some (result (fold feed (drop t bs) s))"
  using assms(2)
proof (induction "length bs - t" arbitrary: t s rule: less_induct)
  case less
  let ?p = "rd (hist s) t (i_left (inp s))"
  show ?case
  proof (cases "alive s \<and> t < length bs")
    case False
    have "?p = []" if "length bs \<le> t"
      using serves_prefix [OF assms(1), of t "hist s" "i_left (inp s)"] that by simp
    moreover have "fold feed (drop t bs) s = s"
      using False fold_feed_dead [of s] by (cases "alive s") simp_all
    ultimately show ?thesis
      using False poll_dead [OF assms(1)] poll_nothing by (cases "alive s") simp_all
  next
    case True
    then have alive: "alive s" and ok: "input_ok (inp s)" "inv s"
      using less.prems by (auto simp: sound_def)
    have le: "length ?p \<le> i_left (inp s)" by (rule serves_length [OF assms(1)])
    have ne: "?p \<noteq> []"
      using serves_some [OF assms(1) alive] True ok by (auto simp: input_ok_def)
    obtain ys where "drop t bs = ?p @ ys" using serves_prefix [OF assms(1)] by blast
    moreover from this have "drop (t + length ?p) bs = ys"
      by (metis add.commute append_eq_conv_conj drop_drop)
    ultimately have split: "drop t bs = ?p @ drop (t + length ?p) bs" by simp
    let ?s = "fold feed ?p s"
    let ?s1 = "set_inp (input_read ?p (inp s)) s"
    have f: "?s = (if 0 < i_left (inp ?s1) then ?s1 else complete ?s1)"
      using fold_feed_piece [OF alive ok(1) ne le] by (simp add: Let_def)
    have "0 < length ?p" using ne by simp
    then have "length bs - (t + length ?p) < length bs - t" using True by linarith
    then have IH: "poll rd (t + length ?p) ?s = Some (result (fold feed (drop (t + length ?p) bs) ?s))"
      by (rule less.hyps) (rule fold_feed_ok [OF less.prems])
    have rest: "fold feed (drop t bs) s = fold feed (drop (t + length ?p) bs) ?s"
      by (subst split) simp
    show ?thesis
      unfolding rest poll_round [of s rd t ?p ?s1, OF ok(2) alive refl ne refl]
      using ok(2) IH unfolding f
      by (auto simp: complete_def inv_set dead_too_big fold_feed_dead split: progress.splits)
  qed
qed

text \<open>A stream of frames is handled frame by frame, in any pieces.\<close>

corollary poll_frames:
  assumes "serves rd (concat (map frame fs))" "alive s" "input_fresh (inp s)" "inv s"
    "\<forall>f \<in> set fs. length (snd f) < 2 ^ 24"
  shows "poll rd 0 s = Some (result (fold deliver fs s))"
proof -
  have "sound s"
    using assms(2-4) by (auto simp: sound_def input_fresh_def input_ok_def)
  then show ?thesis
    using poll_feed [OF assms(1), of s 0] fold_feed_frames [of s fs] assms(3-5) by simp
qed

end

end
