(* ===== verification/AsyncClientFacts.thy ===== *)
theory AsyncClientFacts
  imports AsyncClient Poller LinuxClientBehaviour
begin

text \<open>
  What the operations of the async client keep, and its receiving loop: the loop ends, and the
  client is an instance of the interfaces \<open>frame_machine\<close> and \<open>frame_teller\<close>.
\<close>

named_theorems async_simps

section \<open>What the operations keep\<close>

text \<open>The client wants a connection: it has asked for one and not given it up since.\<close>

fun stcp_step :: "async_call \<Rightarrow> bool \<Rightarrow> bool" where
  "stcp_step (Stcp_connect a p) b = True"
| "stcp_step Stcp_disconnect b = False"
| "stcp_step x b = b"

definition stcp_wanted :: "async_call list \<Rightarrow> bool" where
  "stcp_wanted xs = fold stcp_step xs False"

lemma stcp_wanted_append [async_simps]: "stcp_wanted (xs @ ys) = fold stcp_step ys (stcp_wanted xs)"
  by (simp add: stcp_wanted_def)

definition ac_cfg where
  "ac_cfg c =
     ((a_on_connected c, a_on_disconnected c, a_on_message c), (a_address c, a_port c),
      (a_in_workspace_size c, a_out_workspace_size c, a_out_size c))"

lemma ac_cfgD:
  assumes "ac_cfg c' = ac_cfg c"
  shows "a_on_connected c' = a_on_connected c" "a_on_disconnected c' = a_on_disconnected c"
    "a_on_message c' = a_on_message c" "a_in_workspace_size c' = a_in_workspace_size c"
    "a_out_workspace_size c' = a_out_workspace_size c" "a_out_size c' = a_out_size c"
  using assms by (simp_all add: ac_cfg_def)

lemma ac_call_simps [async_simps]:
  "ac_cfg (ac_call x c) = ac_cfg c" "a_input (ac_call x c) = a_input c"
  "a_log (ac_call x c) = a_log c" "a_calls (ac_call x c) = a_calls c @ [x]"
  "a_app (ac_call x c) = a_app c" "a_is_connected (ac_call x c) = a_is_connected c"
  "a_pong_received (ac_call x c) = a_pong_received c" "a_fault (ac_call x c) = a_fault c"
  "a_disconnect_reason (ac_call x c) = a_disconnect_reason c"
  by (simp_all add: ac_call_def ac_cfg_def)

lemma ac_updates [async_simps]:
  "ac_cfg (c\<lparr>a_is_connected := b\<rparr>) = ac_cfg c" "ac_cfg (c\<lparr>a_disconnect_reason := r\<rparr>) = ac_cfg c"
  "ac_cfg (c\<lparr>a_pong_received := b\<rparr>) = ac_cfg c" "ac_cfg (c\<lparr>a_in_message := m\<rparr>) = ac_cfg c"
  "ac_cfg (c\<lparr>a_input := i\<rparr>) = ac_cfg c" "ac_cfg (c\<lparr>a_app := u, a_log := l\<rparr>) = ac_cfg c"
  "ac_cfg (c\<lparr>a_out_message := om\<rparr>) = ac_cfg c" "ac_cfg (c\<lparr>a_fault := f\<rparr>) = ac_cfg c"
  "ac_cfg (c\<lparr>a_out_buf := ob, a_fault := f\<rparr>) = ac_cfg c" "ac_cfg (c\<lparr>a_out_buf := ob\<rparr>) = ac_cfg c"
  by (simp_all add: ac_cfg_def)

lemma ac_disconnect_simps [async_simps]:
  "ac_cfg (ac_disconnect_and_start_reconnect_timer r c) = ac_cfg c"
  "a_input (ac_disconnect_and_start_reconnect_timer r c) = a_input c"
  "a_log (ac_disconnect_and_start_reconnect_timer r c) = a_log c"
  "a_app (ac_disconnect_and_start_reconnect_timer r c) = a_app c"
  "\<not> a_is_connected (ac_disconnect_and_start_reconnect_timer r c)"
  "\<not> a_is_connected c \<Longrightarrow> ac_disconnect_and_start_reconnect_timer r c = c"
  by (simp_all add: ac_disconnect_and_start_reconnect_timer_def async_simps Let_def)

lemma async_send_simps [async_simps]:
  "ac_cfg (async_client_send k c) = ac_cfg c" "a_input (async_client_send k c) = a_input c"
  "a_log (async_client_send k c) = a_log c"
  by (simp_all add: async_client_send_def async_simps Let_def split: option.split)

lemma async_init_message_simps [async_simps]:
  "ac_cfg (async_client_init_message k a c) = ac_cfg c"
  "a_input (async_client_init_message k a c) = a_input c"
  "a_log (async_client_init_message k a c) = a_log c"
  by (simp_all add: async_client_init_message_def async_client_new_output_message_def async_simps
      Let_def split: option.split)

lemma async_stop_simps [async_simps]:
  "ac_cfg (async_client_stop c) = ac_cfg c" "a_input (async_client_stop c) = a_input c"
  "a_log (async_client_stop c) = a_log c"
  by (simp_all add: async_client_stop_def async_simps)

lemma async_call_simps [async_simps]:
  "ac_cfg (async_client_call k r c) = ac_cfg c" "a_input (async_client_call k r c) = a_input c"
  "a_log (async_client_call k r c) = a_log c"
  by (cases r; simp add: async_simps)+

lemma async_calls_simps [async_simps]:
  "ac_cfg (fold (async_client_call k) rs c) = ac_cfg c"
  "a_input (fold (async_client_call k) rs c) = a_input c"
  "a_log (fold (async_client_call k) rs c) = a_log c"
  by (induction rs arbitrary: c) (simp_all add: async_simps)

lemma ac_callback_simps [async_simps]:
  "ac_cfg (ac_callback k cb ev c) = ac_cfg c" "a_input (ac_callback k cb ev c) = a_input c"
  "a_log (ac_callback k cb ev c) = a_log c @ [ev]"
  by (simp_all add: ac_callback_def async_simps split: prod.split)

lemma ac_handle_message_simps [async_simps]:
  "ac_cfg (ac_handle_message k ty c) = ac_cfg c" "a_input (ac_handle_message k ty c) = a_input c"
  by (auto simp: ac_handle_message_def ac_handle_message_user_def ac_handle_message_pong_def
      async_simps Let_def split: option.splits prod.splits)

section \<open>A connection\<close>

text \<open>
  While a connection is up, the client that wants it knows that it is connected: only
  \<open>NAME_client_stop\<close> gives up a connection without taking note of it.
\<close>

definition ac_ok :: "('u, 'i, 'o) async_client \<Rightarrow> bool" where
  "ac_ok c \<longleftrightarrow> (stcp_wanted (a_calls c) \<longrightarrow> a_is_connected c)"

definition ac_alive :: "('u, 'i, 'o) async_client \<Rightarrow> bool" where
  "ac_alive c \<longleftrightarrow> stcp_wanted (a_calls c)"

definition ac_set_input :: "input \<Rightarrow> ('u, 'i, 'o) async_client \<Rightarrow> ('u, 'i, 'o) async_client" where
  "ac_set_input i c = c\<lparr>a_input := i\<rparr>"

lemma ac_ok_disconnect:
  assumes "ac_ok c"
  shows "ac_ok (ac_disconnect_and_start_reconnect_timer r c)"
    and "\<not> ac_alive (ac_disconnect_and_start_reconnect_timer r c)"
  using assms
  by (auto simp: ac_ok_def ac_alive_def ac_disconnect_and_start_reconnect_timer_def async_simps Let_def)

lemma ac_ok_call: "ac_ok c \<Longrightarrow> ac_ok (async_client_call k r c)"
  by (cases r) (auto simp: async_client_init_message_def async_client_new_output_message_def
      async_client_send_def async_client_stop_def ac_ok_disconnect Let_def split: option.splits;
      simp add: ac_ok_def async_simps)+

lemma ac_ok_calls: "ac_ok c \<Longrightarrow> ac_ok (fold (async_client_call k) rs c)"
  by (induction rs arbitrary: c) (simp_all add: ac_ok_call)

lemma ac_ok_updates [async_simps]:
  "ac_ok (c\<lparr>a_app := u, a_log := l\<rparr>) = ac_ok c" "ac_ok (c\<lparr>a_in_message := m\<rparr>) = ac_ok c"
  "ac_ok (c\<lparr>a_pong_received := b\<rparr>) = ac_ok c" "ac_ok (c\<lparr>a_input := i\<rparr>) = ac_ok c"
  "ac_alive (c\<lparr>a_input := i\<rparr>) = ac_alive c"
  by (simp_all add: ac_ok_def ac_alive_def)

lemma ac_ok_callback: "ac_ok c \<Longrightarrow> ac_ok (ac_callback k cb ev c)"
  by (simp add: ac_callback_def ac_ok_calls async_simps split: prod.split)

lemma ac_ok_handle_message: "ac_ok c \<Longrightarrow> ac_ok (ac_handle_message k ty c)"
  by (auto simp: ac_handle_message_def ac_handle_message_user_def ac_handle_message_pong_def
      ac_ok_callback ac_ok_disconnect async_simps Let_def split: option.splits prod.splits)

section \<open>The receiving loop\<close>

text \<open>
  The loop ends whatever the client's state is, as soon as the framework has only finitely many
  bytes to deliver.
\<close>

text \<open>C23: Handling an input event ends. If the framework delivers no more than \<open>N\<close> bytes, the loop of
  \<open>on_stcp_input\<close> returns, in whatever state the client is and whatever its callbacks do.\<close>

theorem async_client_input_ends:
  assumes "\<forall>h t n. N \<le> t \<longrightarrow> rd h t n = []"
  shows "\<exists>c'. ac_on_stcp_input rd k c = Some c'"
proof -
  have "\<exists>c'. ac_input_loop rd k t c = Some c'" for t c
  proof (induction "N - t" arbitrary: t c rule: less_induct)
    case less
    let ?bs = "rd (a_calls c) t (i_left (a_input c))"
    show ?case
    proof (cases "?bs = []")
      case True
      then show ?thesis by (subst ac_input_loop.simps) simp
    next
      case False
      then have "t < N" using assms by (metis linorder_not_le)
      moreover have "0 < length ?bs" using False by simp
      ultimately have "N - (t + length ?bs) < N - t" by linarith
      note IH = less.hyps [OF this]
      show ?thesis
        by (subst ac_input_loop.simps) (use False IH in \<open>simp add: Let_def case_prod_unfold\<close>)
    qed
  qed
  then show ?thesis by (simp add: ac_on_stcp_input_def)
qed

text \<open>A complete message is handled, then the client is ready for the next header.\<close>

definition ac_dispatch :: "('i, 'o) codec \<Rightarrow> ('u, 'i, 'o) async_client \<Rightarrow> ('u, 'i, 'o) async_client" where
  "ac_dispatch k c =
     ac_reset_input_encoded (ac_handle_message k (header_type (input_header (a_input c))) c)"

lemma ac_dispatch_simps:
  "a_input (ac_dispatch k c) = input_reset (a_input c)" "ac_ok c \<Longrightarrow> ac_ok (ac_dispatch k c)"
  by (simp_all add: ac_dispatch_def ac_reset_input_encoded_def async_simps ac_ok_handle_message
      input_reset_def)

interpretation ac: frame_machine "a_input :: ('u, 'i, 'o) async_client \<Rightarrow> input"
  ac_set_input ac_ok ac_alive "ac_disconnect_and_start_reconnect_timer Message_too_big"
  "ac_dispatch k" for k :: "('i, 'o) codec"
  by unfold_locales
    (simp_all add: ac_set_input_def async_simps ac_dispatch_simps ac_ok_disconnect)

text \<open>One round of the loop that reads \<open>bs\<close>.\<close>

lemma input_loop_round:
  assumes "rd (a_calls c) t (i_left (a_input c)) = bs" "bs \<noteq> []"
    "c1 = ac_set_input (input_read bs (a_input c)) c"
  shows "ac_input_loop rd k t c =
    (if 0 < i_left (a_input c1) then ac_input_loop rd k (t + length bs) c1
     else case input_complete (a_input c1) of
         Too_big i \<Rightarrow> Some (ac_disconnect_and_start_reconnect_timer Message_too_big (ac_set_input i c1))
       | More i \<Rightarrow> ac_input_loop rd k (t + length bs) (ac_set_input i c1)
       | Ready i \<Rightarrow> ac_input_loop rd k (t + length bs) (ac_dispatch k (ac_set_input i c1)))"
proof -
  have c1: "c\<lparr>a_input := input_read bs (a_input c)\<rparr> = c1"
    by (simp add: assms(3) ac_set_input_def)
  have st: "i_state (a_input c1) = Payload" if "i_state (a_input c1) \<noteq> Header"
    using that by (cases "i_state (a_input c1)") auto
  show ?thesis
    by (subst ac_input_loop.simps)
      (use assms(2) st in \<open>auto simp: assms(1) c1 Let_def input_complete_def ac_set_input_def
        ac_dispatch_def input_header_def split: if_splits\<close>)
qed

text \<open>
  What the framework promises for one event in which the bytes \<open>bs\<close> have arrived: a read returns
  some of them that were not read before, in any pieces, but at least one if there is one; none
  when the client has given up the connection.
\<close>

definition delivers :: "async_reads \<Rightarrow> byte list \<Rightarrow> bool" where
  "delivers rd bs \<longleftrightarrow>
     (\<forall>h t n. length (rd h t n) \<le> n \<and> (\<exists>bs'. drop t bs = rd h t n @ bs') \<and>
       (stcp_wanted h \<longrightarrow> 0 < n \<longrightarrow> t < length bs \<longrightarrow> rd h t n \<noteq> []) \<and>
       (\<not> stcp_wanted h \<longrightarrow> rd h t n = []))"

lemma deliversD:
  assumes "delivers rd bs"
  shows "length (rd h t n) \<le> n" "\<exists>bs'. drop t bs = rd h t n @ bs'"
    "stcp_wanted h \<Longrightarrow> 0 < n \<Longrightarrow> t < length bs \<Longrightarrow> rd h t n \<noteq> []"
    "\<not> stcp_wanted h \<Longrightarrow> rd h t n = []" "length bs \<le> t \<Longrightarrow> rd h t n = []"
proof -
  have "\<exists>bs'. drop t bs = rd h t n @ bs'" using assms unfolding delivers_def by blast
  then show "\<exists>bs'. drop t bs = rd h t n @ bs'" "length bs \<le> t \<Longrightarrow> rd h t n = []" by auto
qed (use assms in \<open>simp_all add: delivers_def\<close>)

interpretation ac: frame_poller "a_input :: ('u, 'i, 'o) async_client \<Rightarrow> input"
  ac_set_input ac_ok ac_alive "ac_disconnect_and_start_reconnect_timer Message_too_big"
  "ac_dispatch k" a_calls id delivers "\<lambda>rd. ac_input_loop rd k" for k :: "('i, 'o) codec"
proof unfold_locales
  fix s :: "('u, 'i, 'o) async_client" and rd t bs s1
  show "\<not> ac_alive s \<Longrightarrow> delivers rd bs \<Longrightarrow> ac_input_loop rd k t s = Some (id s)"
    by (subst ac_input_loop.simps) (simp add: ac_alive_def deliversD(4))
  show "rd (a_calls s) t (i_left (a_input s)) = [] \<Longrightarrow> ac_input_loop rd k t s = Some (id s)"
    by (subst ac_input_loop.simps) simp
  assume "rd (a_calls s) t (i_left (a_input s)) = bs" "bs \<noteq> []"
    "s1 = ac_set_input (input_read bs (a_input s)) s"
  then show "ac_input_loop rd k t s =
    (if 0 < i_left (a_input s1) then ac_input_loop rd k (t + length bs) s1
     else case input_complete (a_input s1) of
         Too_big i \<Rightarrow> Some (id (ac_disconnect_and_start_reconnect_timer Message_too_big (ac_set_input i s1)))
       | More i \<Rightarrow> ac_input_loop rd k (t + length bs) (ac_set_input i s1)
       | Ready i \<Rightarrow> ac_input_loop rd k (t + length bs) (ac_dispatch k (ac_set_input i s1)))"
    unfolding id_apply by (rule input_loop_round)
qed (simp_all add: deliversD ac_alive_def)

section \<open>Properties of the receiving loop\<close>

text \<open>
  A client whose connection is up, between two messages; \<open>async_client_sound\<close>: anywhere in the
  byte stream.
\<close>

definition async_client_fresh :: "('u, 'i, 'o) async_client \<Rightarrow> bool" where
  "async_client_fresh c \<longleftrightarrow> ac_ok c \<and> ac_alive c \<and> input_fresh (a_input c)"

definition async_client_sound :: "('u, 'i, 'o) async_client \<Rightarrow> bool" where
  "async_client_sound c \<longleftrightarrow> ac_ok c \<and> ac_alive c \<and> input_ok (a_input c)"

text \<open>
  The specification of the loop. A client that wants its connection takes a whole frame: one that
  does not fit drops the connection, any other is handled according to its type.
\<close>

definition async_client_deliver ::
    "('i, 'o) codec \<Rightarrow> byte \<times> byte list \<Rightarrow> ('u, 'i, 'o) async_client \<Rightarrow> ('u, 'i, 'o) async_client" where
  "async_client_deliver k f c =
     (if \<not> ac_alive c then c
      else if i_cap (a_input c) < header_sizeof + length (snd f)
      then ac_disconnect_and_start_reconnect_timer Message_too_big
             (c\<lparr>a_input := input_oversized f (a_input c)\<rparr>)
      else ac_reset_input_encoded
             (ac_handle_message k (fst f) (c\<lparr>a_input := input_loaded f (a_input c)\<rparr>)))"

lemma ac_deliver_eq: "ac.deliver k = async_client_deliver k"
  by (intro ext) (simp add: ac.deliver_def async_client_deliver_def ac_set_input_def
      ac_dispatch_def input_loaded_type)

lemma async_client_sound_ac: "async_client_sound c \<Longrightarrow> ac.sound c"
  by (simp add: async_client_sound_def ac.sound_def input_ok_def)

lemma async_client_fresh_sound: "async_client_fresh c \<Longrightarrow> async_client_sound c"
  by (simp add: async_client_fresh_def async_client_sound_def input_fresh_def)

lemma async_input_feed:
  assumes "delivers rd bs" "ac.sound c"
  shows "ac_on_stcp_input rd k c = Some (fold (ac.feed k) bs c)"
  using ac.poll_feed [OF assms, of k 0] by (simp add: ac_on_stcp_input_def)

text \<open>C20: Whatever stream of well-formed frames the server sends and however the framework hands it
  out in pieces, \<open>on_stcp_input\<close> returns and has handled exactly these frames, in their order and
  each as a whole; a frame that is too big, a message that cannot be decoded, or a callback that
  stops the client is the last one handled.\<close>

theorem async_client_handles_frames:
  assumes "async_client_fresh c" "\<forall>f \<in> set fs. length (snd f) < 2 ^ 24"
    "delivers rd (concat (map frame fs))"
  shows "ac_on_stcp_input rd k c = Some (fold (async_client_deliver k) fs c)"
  using async_input_feed [OF assms(3) async_client_sound_ac [OF async_client_fresh_sound [OF assms(1)]], of k]
    ac.fold_feed_frames [where s = c and fs = fs and k = k] assms(1,2)
  by (simp add: ac_deliver_eq async_client_fresh_def)

text \<open>One input event never stores a byte outside of the input buffer, whatever arrives, in which
  pieces and where in a message the client was before; and two runs of the framework that hand out the same
  bytes in different pieces leave the same client.\<close>

lemma async_client_chunking_irrelevant:
  assumes "async_client_sound c" "delivers rd bs" "delivers rd' bs"
  shows "\<exists>c'. ac_on_stcp_input rd k c = Some c' \<and> ac_on_stcp_input rd' k c = Some c' \<and>
    \<not> i_overrun (a_input c')"
  using async_input_feed [OF assms(2) async_client_sound_ac [OF assms(1)]]
    async_input_feed [OF assms(3) async_client_sound_ac [OF assms(1)]]
    ac.fold_feed_ok [OF async_client_sound_ac [OF assms(1)], of k bs]
  by (simp add: ac.sound_def)

section \<open>Messages to the application\<close>

lemma ac_handle_message_log:
  assumes "ac_ok c" "a_input c = input_loaded f i"
  shows "a_log (ac_handle_message k (fst f) c) =
      a_log c @ user_events k (a_in_workspace_size c) (a_on_message c) f \<or>
    a_log (ac_handle_message k (fst f) c) = a_log c \<and> \<not> ac_alive (ac_handle_message k (fst f) c)"
proof -
  have p: "i_size (input_loaded f i) - header_sizeof = length (snd f)"
    "take (length (snd f)) (drop header_sizeof (i_buf (input_loaded f i))) = snd f"
    using input_loaded_payload [of f i] by simp_all
  have dead: "\<not> ac_alive (ac_disconnect_and_start_reconnect_timer r (c\<lparr>a_in_message := m\<rparr>))" for r m
    using assms(1) by (simp add: ac_ok_disconnect async_simps)
  show ?thesis
  proof (cases "fst f = MESSI_MESSAGE_TYPE_SERVER_TO_CLIENT_USER")
    case False
    then show ?thesis
      by (simp add: ac_handle_message_def ac_handle_message_pong_def user_events_def)
  next
    case True
    show ?thesis
      using dead
      by (cases "in_new k (a_in_workspace_size c)")
        (auto simp: True ac_handle_message_def ac_handle_message_user_def user_events_def assms(2) p
          Let_def async_simps split: option.splits prod.splits simp del: input_loaded_simps)
  qed
qed

lemma ac_deliver_log:
  assumes "ac_ok c" "ac_alive c"
  shows "a_log (async_client_deliver k f c) =
      a_log c @ user_events k (a_in_workspace_size c) (a_on_message c) f \<or>
    a_log (async_client_deliver k f c) = a_log c \<and> \<not> ac_alive (async_client_deliver k f c)"
proof -
  have ok: "ac_ok (c\<lparr>a_input := i\<rparr>)" for i
    using assms(1) by (simp add: async_simps)
  show ?thesis
    using ac_handle_message_log [OF ok, of "input_loaded f (a_input c)" f "a_input c" k] ok
    by (auto simp: async_client_deliver_def assms(2) async_simps ac_reset_input_encoded_def
        ac_ok_disconnect)
qed

lemma ac_deliver_cfg: "ac_cfg (async_client_deliver k f c) = ac_cfg c"
  by (simp add: async_client_deliver_def ac_reset_input_encoded_def async_simps)

interpretation ac: frame_teller "a_input :: ('u, 'i, 'o) async_client \<Rightarrow> input"
  ac_set_input ac_ok ac_alive "ac_disconnect_and_start_reconnect_timer Message_too_big"
  "ac_dispatch k" a_log "\<lambda>c. user_events k (a_in_workspace_size c) (a_on_message c)"
  for k :: "('i, 'o) codec"
proof (unfold_locales, unfold ac_deliver_eq)
  fix c :: "('u, 'i, 'o) async_client" and f
  show "ac_ok c \<Longrightarrow> ac_ok (ac_disconnect_and_start_reconnect_timer Message_too_big c)"
    by (rule ac_ok_disconnect)
  show "user_events k (a_in_workspace_size (async_client_deliver k f c)) (a_on_message (async_client_deliver k f c)) =
      user_events k (a_in_workspace_size c) (a_on_message c)"
    using ac_cfgD [OF ac_deliver_cfg [of k f c]] by simp
qed (rule ac_deliver_log)

text \<open>C22: Messages reach the application in the order in which the server sent them, each at most once
  and none is invented: the callbacks made for a stream of frames are those for the frames up to
  some point of the stream, and for all of them when the client still wants its connection. Then it
  is ready for the next header.\<close>

theorem async_client_messages_in_order:
  assumes "async_client_fresh c" "\<forall>f \<in> set fs. length (snd f) < 2 ^ 24"
    "delivers rd (concat (map frame fs))" "ac_on_stcp_input rd k c = Some c'"
  shows "\<exists>n \<le> length fs. a_log c' =
      a_log c @ concat (map (user_events k (a_in_workspace_size c) (a_on_message c)) (take n fs)) \<and>
    (ac_alive c' \<longrightarrow> n = length fs \<and> async_client_fresh c')"
proof -
  have c: "input_fresh (a_input c)" "ac_ok c" "ac_alive c"
    using assms(1) by (auto simp: async_client_fresh_def)
  have "ac_on_stcp_input rd k c = Some (fold (ac.deliver k) fs c)"
    using async_input_feed [OF assms(3) async_client_sound_ac [OF async_client_fresh_sound [OF assms(1)]], of k]
      ac.fold_feed_frames [where s = c and fs = fs and k = k] c assms(2) by simp
  then have "c' = fold (ac.deliver k) fs c" using assms(4) by simp
  then show ?thesis
    using ac.fold_deliver_log [OF c(2,3), where k = k and fs = fs]
      ac.fold_deliver_fresh [OF c(1,2), where k = k and fs = fs]
      ac.inv_fold_deliver [OF c(2), where k = k and fs = fs]
    by (auto simp: async_client_fresh_def)
qed

end
