(* ===== verification/AsyncClientBehaviour.thy ===== *)
theory AsyncClientBehaviour
  imports AsyncClientFacts
begin

text \<open>
  A concrete async client, to which the properties are applied; keep alive; what follows the loss of
  a connection; and two ways in which the code does not do what it means to.
\<close>

section \<open>A concrete client\<close>

text \<open>The protocol and the application are those of the linux client in \<open>LinuxClientDemo\<close>.\<close>

definition async_struct :: "(nat, byte list, byte list) async_client" where
  "async_struct =
     \<lparr>a_address = ''x'', a_port = 7, a_is_connected = True, a_disconnect_reason = General_error,
      a_on_connected = (\<lambda>u. (u, [])), a_on_disconnected = (\<lambda>r u. (u, [])), a_on_message = (\<lambda>n. None),
      a_pong_received = False, a_in_message = None, a_in_workspace_size = 0,
      a_input = \<lparr>i_buf = [], i_cap = 0, i_size = 77, i_left = 77, i_state = Payload, i_overrun = False\<rparr>,
      a_out_message = None, a_out_workspace_size = 0, a_out_buf = [], a_out_size = 0,
      a_app = 0, a_calls = [], a_log = [], a_fault = False\<rparr>"

definition async_down :: "(nat, byte list, byte list) async_client" where
  "async_down =
     snd (async_client_init ''tcp://127.0.0.1:6000'' (replicate 16 0) 64 (replicate 12 0) 64
       None None [(0, None), (1, Some demo_on_message)] async_struct)"

definition async_up :: "(nat, byte list, byte list) async_client" where
  "async_up = ac_on_stcp_connected demo_codec 0 (async_client_start async_down)"

lemma async_down_init:
  "fst (async_client_init ''tcp://127.0.0.1:6000'' (replicate 16 0) 64 (replicate 12 0) 64
       None None [(0, None), (1, Some demo_on_message)] async_struct) = 0"
  by code_simp

lemma async_down_fields:
  "a_is_connected async_down = False" "a_log async_down = []" "a_app async_down = 0"
  "a_calls async_down = [Stcp_init, Timer_init Keep_alive_timer 2000 0, Timer_init Reconnect_timer 1000 0]"
  "a_address async_down = ''127.0.0.1''" "a_port async_down = 6000"
  "a_input async_down = \<lparr>i_buf = replicate 16 0, i_cap = 16, i_size = 0, i_left = 4,
     i_state = Header, i_overrun = False\<rparr>"
  by code_simp+

lemma async_up_fields:
  "a_is_connected async_up" "a_pong_received async_up" "a_log async_up = [Connected]" "a_app async_up = 0"
  "a_input async_up = \<lparr>i_buf = replicate 16 0, i_cap = 16, i_size = 0, i_left = 4,
     i_state = Header, i_overrun = False\<rparr>"
  "a_calls async_up = [Stcp_init, Timer_init Keep_alive_timer 2000 0, Timer_init Reconnect_timer 1000 0,
     Stcp_connect ''127.0.0.1'' 6000, Timer_start Keep_alive_timer]"
  "a_out_buf async_up = replicate 12 0" "a_out_size async_up = 12" "a_in_workspace_size async_up = 64"
  by code_simp+

lemma async_down_callbacks:
  "a_on_message async_down = map_option (\<lambda>cb. case cb of None \<Rightarrow> ac_on_message_default | Some f \<Rightarrow> f)
     \<circ> map_of [(0, None), (1, Some demo_on_message)]"
  "a_on_connected async_down = ac_on_connected_default"
  "a_on_disconnected async_down = ac_on_disconnected_default"
  by (simp_all add: async_down_def async_client_init_def demo_uri ac_call_def ac_reset_input_encoded_def Let_def)

lemma async_up_cfg: "ac_cfg async_up = ac_cfg async_down"
  by (simp add: async_up_def ac_on_stcp_connected_def async_client_start_def async_simps Let_def)

lemmas async_up_callbacks = async_down_callbacks [folded ac_cfgD(1-3) [OF async_up_cfg]]

lemma async_up_fresh: "async_client_fresh async_up" "async_client_sound async_up"
  by (simp_all add: async_client_fresh_def async_client_sound_def ac_ok_def ac_alive_def stcp_wanted_def
      input_fresh_def input_ok_def async_up_fields header_sizeof_def)

text \<open>A framework that hands out everything there is, and one that hands out single bytes.\<close>

definition hand_out :: "byte list \<Rightarrow> async_reads" where
  "hand_out bs h t n = (if stcp_wanted h then take n (drop t bs) else [])"

definition hand_out_slowly :: "byte list \<Rightarrow> async_reads" where
  "hand_out_slowly bs h t n = (if stcp_wanted h then take (min n 1) (drop t bs) else [])"

lemma hand_out_delivers: "delivers (hand_out bs) bs" "delivers (hand_out_slowly bs) bs"
proof -
  have "\<exists>ys. xs = take n xs @ ys" for n and xs :: "byte list"
    using append_take_drop_id [of n xs] by metis
  then show "delivers (hand_out bs) bs" "delivers (hand_out_slowly bs) bs"
    by (auto simp: delivers_def hand_out_def hand_out_slowly_def)
qed

lemma hand_out_bounded: "length bs \<le> t \<Longrightarrow> hand_out bs h t n = []"
  by (simp add: hand_out_def)

lemma demo_frames_small: "\<forall>f \<in> set demo_frames. length (snd f) < 2 ^ 24"
  by (simp add: demo_frames_def)

section \<open>The properties at the concrete client\<close>

lemma async_client_input_ends_witness:
  "\<exists>c'. ac_on_stcp_input (hand_out (replicate 100 255)) demo_codec async_up = Some c'"
  by (rule async_client_input_ends [of 100]) (simp add: hand_out_bounded)

lemma async_client_handles_frames_witness:
  "ac_on_stcp_input (hand_out_slowly (concat (map frame demo_frames))) demo_codec async_up =
     Some (fold (async_client_deliver demo_codec) demo_frames async_up)"
  by (rule async_client_handles_frames [OF async_up_fresh(1) demo_frames_small hand_out_delivers(2)])

lemma async_client_chunking_irrelevant_witness:
  "\<exists>c'. ac_on_stcp_input (hand_out (replicate 50 255)) demo_codec async_up = Some c' \<and>
    ac_on_stcp_input (hand_out_slowly (replicate 50 255)) demo_codec async_up = Some c' \<and>
    \<not> i_overrun (a_input c')"
  by (rule async_client_chunking_irrelevant [OF async_up_fresh(2) hand_out_delivers])

lemma async_client_messages_in_order_witness:
  "\<exists>c' n. ac_on_stcp_input (hand_out (concat (map frame demo_frames))) demo_codec async_up = Some c' \<and>
    n \<le> length demo_frames \<and> a_log c' = [Connected] @
      concat (map (user_events demo_codec 64 (a_on_message async_up)) (take n demo_frames))"
proof -
  obtain c' where c': "ac_on_stcp_input (hand_out (concat (map frame demo_frames))) demo_codec async_up = Some c'"
    using async_input_feed [OF hand_out_delivers(1) async_client_sound_ac [OF async_up_fresh(2)]] by blast
  then show ?thesis
    using async_client_messages_in_order [OF async_up_fresh(1) demo_frames_small hand_out_delivers(1) c']
    by (auto simp: async_up_fields)
qed

section \<open>Keep alive\<close>

lemma ac_pong_simps [async_simps]:
  "a_pong_received (ac_disconnect_and_start_reconnect_timer r c) = a_pong_received c"
  "a_pong_received (async_client_call k q c) = a_pong_received c"
  by (simp add: ac_disconnect_and_start_reconnect_timer_def async_simps Let_def)
    (cases q; auto simp: async_client_init_message_def async_client_new_output_message_def
      async_client_send_def async_client_stop_def ac_disconnect_and_start_reconnect_timer_def async_simps
      Let_def split: option.split)

lemma ac_pong_callback [async_simps]: "a_pong_received (ac_callback k cb ev c) = a_pong_received c"
proof -
  have "a_pong_received (fold (async_client_call k) rs c') = a_pong_received c'" for rs
    and c' :: "('a, 'b, 'c) async_client"
    by (induction rs arbitrary: c') (simp_all add: async_simps)
  then show ?thesis by (simp add: ac_callback_def split: prod.split)
qed

lemma ac_handle_message_pong_iff:
  "a_pong_received (ac_handle_message k t c) \<longleftrightarrow> a_pong_received c \<or> t = MESSI_MESSAGE_TYPE_PONG"
  by (auto simp: ac_handle_message_def ac_handle_message_user_def ac_handle_message_pong_def
      message_type_defs async_simps Let_def split: option.splits prod.splits)

lemma ac_deliver_pong:
  assumes "ac_alive (async_client_deliver k f c)" "ac_ok c" "ac_alive c"
  shows "a_pong_received (async_client_deliver k f c) \<longleftrightarrow>
    a_pong_received c \<or> fst f = MESSI_MESSAGE_TYPE_PONG"
  using assms
  by (auto simp: async_client_deliver_def ac_reset_input_encoded_def ac_handle_message_pong_iff
      ac_ok_disconnect async_simps split: if_splits)

lemma ac_deliver_ok: "ac_ok c \<Longrightarrow> ac_ok (async_client_deliver k f c)"
  using ac.inv_deliver [of c k f] by (simp add: ac_deliver_eq)

lemma ac_fold_deliver_pong:
  assumes "ac_alive (fold (async_client_deliver k) fs c)" "ac_ok c" "ac_alive c"
  shows "a_pong_received (fold (async_client_deliver k) fs c) \<longleftrightarrow>
    a_pong_received c \<or> MESSI_MESSAGE_TYPE_PONG \<in> fst ` set fs"
  using assms
proof (induction fs arbitrary: c)
  case (Cons f fs)
  then have "ac_alive (fold (async_client_deliver k) fs (async_client_deliver k f c))" by simp
  moreover from this have "ac_alive (async_client_deliver k f c)"
    using ac.fold_deliver_dead [of "async_client_deliver k f c" k fs] unfolding ac_deliver_eq by metis
  ultimately show ?case
    using Cons.IH [of "async_client_deliver k f c"] ac_deliver_pong [of k f c] Cons.prems(2,3)
    by (auto simp: ac_deliver_ok)
qed simp

lemma ping_frame: "header_bytes (messi_header_create h MESSI_MESSAGE_TYPE_PING 0) = frame (MESSI_MESSAGE_TYPE_PING, [])"
  by (simp add: frame_def header_bytes_def messi_header_create_def messi_header_set_size_def)

text \<open>C33: Every two seconds a connected client sends one ping, and only a pong keeps the connection:
  if the frames that arrive until the timer expires again contain a pong, the next ping is sent; if
  they do not, however many messages the server sends, the timer is stopped, the connection is given
  up with the reason keep alive timeout, and the report of that is scheduled, once.\<close>

theorem async_client_keep_alive:
  assumes "async_client_fresh c" "a_pong_received c" "\<forall>f \<in> set fs. length (snd f) < 2 ^ 24"
    "delivers rd (concat (map frame fs))"
    "ac_on_stcp_input rd k (ac_on_keep_alive_timeout c) = Some c'" "ac_alive c'"
    "c'' = ac_on_keep_alive_timeout c'"
  shows "a_calls (ac_on_keep_alive_timeout c) =
      a_calls c @ [Timer_start Keep_alive_timer, Stcp_write (frame (MESSI_MESSAGE_TYPE_PING, []))] \<and>
    (if MESSI_MESSAGE_TYPE_PONG \<in> fst ` set fs
     then a_is_connected c'' \<and>
       a_calls c'' = a_calls c' @ [Timer_start Keep_alive_timer, Stcp_write (frame (MESSI_MESSAGE_TYPE_PING, []))]
     else \<not> a_is_connected c'' \<and> a_disconnect_reason c'' = Keep_alive_timeout \<and>
       a_calls c'' = a_calls c' @ [Timer_stop Keep_alive_timer, Stcp_disconnect, Async_call])"
proof -
  let ?c = "ac_on_keep_alive_timeout c"
  have c: "input_fresh (a_input c)" "ac_ok c" "ac_alive c"
    using assms(1) by (auto simp: async_client_fresh_def)
  have ping: "a_calls ?c = a_calls c @ [Timer_start Keep_alive_timer, Stcp_write (frame (MESSI_MESSAGE_TYPE_PING, []))]"
    "a_is_connected ?c = a_is_connected c" "\<not> a_pong_received ?c" "a_input ?c = a_input c"
    using assms(2) by (simp_all add: ac_on_keep_alive_timeout_def Let_def async_simps ping_frame)
  then have ok: "ac_ok ?c" "ac_alive ?c" "input_fresh (a_input ?c)"
    using c by (simp_all add: ac_ok_def ac_alive_def async_simps)
  then have "ac.sound ?c"
    by (intro async_client_sound_ac async_client_fresh_sound) (simp add: async_client_fresh_def)
  then have "ac_on_stcp_input rd k ?c = Some (fold (ac.feed k) (concat (map frame fs)) ?c)"
    by (rule async_input_feed [OF assms(4)])
  then have c': "c' = fold (async_client_deliver k) fs ?c"
    using assms(3,5) ac.fold_feed_frames [where s = ?c and fs = fs and k = k] ok
    by (simp add: ac_deliver_eq)
  have "ac_ok c'"
    using ac.inv_fold_deliver [OF ok(1), of k fs] by (simp add: c' ac_deliver_eq)
  then have "a_is_connected c'" using assms(6) by (simp add: ac_ok_def ac_alive_def)
  moreover have "a_pong_received c' \<longleftrightarrow> MESSI_MESSAGE_TYPE_PONG \<in> fst ` set fs"
    using ac_fold_deliver_pong [of k fs ?c] assms(6) ok ping(3) by (simp add: c')
  ultimately show ?thesis
    using ping(1)
    by (simp add: assms(7) ac_on_keep_alive_timeout_def ac_disconnect_and_start_reconnect_timer_def
        Let_def async_simps ping_frame)
qed

text \<open>One round with a pong, one with a message only.\<close>

lemma async_client_keep_alive_witness:
  "let c = ac_on_keep_alive_timeout async_up
   in (\<exists>c'. ac_on_stcp_input (hand_out (frame (4, []))) demo_codec c = Some c' \<and>
         a_is_connected (ac_on_keep_alive_timeout c')) \<and>
      (\<exists>c'. ac_on_stcp_input (hand_out (frame (2, [1, 7]))) demo_codec c = Some c' \<and>
         \<not> a_is_connected (ac_on_keep_alive_timeout c'))"
proof -
  let ?c = "ac_on_keep_alive_timeout async_up"
  have step: "\<exists>c'. ac_on_stcp_input (hand_out (frame f)) demo_codec ?c = Some c' \<and> ac_alive c'"
    if "f = (4, []) \<or> f = (2, [1, 7])" for f
  proof -
    have fresh: "async_client_fresh ?c"
      by (simp add: ac_on_keep_alive_timeout_def async_up_fields async_client_fresh_def ac_ok_def ac_alive_def
          stcp_wanted_def input_fresh_def input_ok_def header_sizeof_def ac_call_def Let_def)
    have small: "\<forall>f \<in> set [f]. length (snd f) < 2 ^ 24" using that by auto
    have "ac_on_stcp_input (hand_out (frame f)) demo_codec ?c = Some (async_client_deliver demo_codec f ?c)"
      using async_input_feed [OF hand_out_delivers(1) async_client_sound_ac [OF async_client_fresh_sound [OF fresh]],
          of "frame f" demo_codec]
        ac.fold_feed_frames [where s = ?c and fs = "[f]" and k = demo_codec] small fresh
      by (simp add: async_client_fresh_def ac_deliver_eq)
    moreover have "ac_alive (async_client_deliver demo_codec f ?c)"
      using that
      by (auto simp: async_client_deliver_def ac_on_keep_alive_timeout_def async_up_fields ac_alive_def
          stcp_wanted_def ac_call_def ac_reset_input_encoded_def ac_handle_message_def ac_handle_message_pong_def
          ac_handle_message_user_def message_type_defs header_sizeof_def demo_codec_def demo_on_message_def
          async_up_callbacks ac_callback_def async_client_init_message_def async_client_new_output_message_def
          async_client_send_def demo_frame_bytes input_loaded_def buf_write_def Let_def
          simp del: drop_frame take_frame)
    ultimately show ?thesis by blast
  qed
  have k: "\<exists>c'. ac_on_stcp_input (hand_out (frame f)) demo_codec ?c = Some c' \<and>
      a_is_connected (ac_on_keep_alive_timeout c') = (fst f = 4)" if hf: "f = (4, []) \<or> f = (2, [1, 7])" for f
  proof -
    obtain c' where c': "ac_on_stcp_input (hand_out (frame f)) demo_codec ?c = Some c'" "ac_alive c'"
      using step [OF hf] by blast
    have "\<forall>g \<in> set [f]. length (snd g) < 2 ^ 24" using hf by auto
    then show ?thesis
      using async_client_keep_alive [OF async_up_fresh(1) async_up_fields(2), of "[f]" "hand_out (frame f)"
          demo_codec c', OF _ _ c' refl] hand_out_delivers(1) [of "frame f"] c'(1) hf
      by (auto simp: message_type_defs split: if_splits)
  qed
  show ?thesis unfolding Let_def using k [of "(4, [])"] k [of "(2, [1, 7])"] by auto
qed

section \<open>A message that is too big, then a new connection\<close>

text \<open>
  The server announces 13 bytes of payload to a client whose buffer has room for 12; the
  disconnection is reported, the reconnect timer expires, and the connection is up again.
\<close>

definition async_too_big :: "(nat, byte list, byte list) async_client" where
  "async_too_big = the (ac_on_stcp_input (hand_out [2, 0, 0, 13]) demo_codec async_up)"

definition async_reconnected :: "(nat, byte list, byte list) async_client" where
  "async_reconnected = ac_on_stcp_connected demo_codec 0
     (async_client_start (ac_on_disconnected demo_codec async_too_big))"

definition async_old_input :: input where
  "async_old_input = \<lparr>i_buf = [2, 0, 0, 13] @ replicate 12 0, i_cap = 16, i_size = 4, i_left = 13,
     i_state = Header, i_overrun = False\<rparr>"

lemma async_too_big_input:
  "ac_on_stcp_input (hand_out [2, 0, 0, 13]) demo_codec async_up =
     Some (ac_disconnect_and_start_reconnect_timer Message_too_big (async_up\<lparr>a_input := async_old_input\<rparr>))"
proof -
  have "input_complete (input_read [2, 0, 0, 13] (a_input async_up)) = Too_big async_old_input"
    by (simp add: async_up_fields input_complete_def input_read_def buf_write_def input_header_def
        header_at_def messi_header_get_size_def header_sizeof_def async_old_input_def Let_def)
  then show ?thesis
    unfolding ac_on_stcp_input_def
    by (subst input_loop_round [where bs = "[2, 0, 0, 13]", OF _ _ refl])
      (simp_all add: hand_out_def async_up_fields stcp_wanted_def ac_set_input_def)
qed

lemma async_reconnected_fields:
  "a_input async_reconnected = async_old_input" "a_is_connected async_reconnected"
  "a_log async_reconnected = [Connected, Disconnected Message_too_big, Connected]"
  "stcp_wanted (a_calls async_reconnected)"
  by (simp_all add: async_reconnected_def async_too_big_def async_too_big_input ac_on_disconnected_def
      ac_on_stcp_connected_def async_client_start_def ac_disconnect_and_start_reconnect_timer_def
      ac_callback_def async_up_fields async_up_callbacks ac_on_connected_default_def
      ac_on_disconnected_default_def ac_call_def stcp_wanted_def Let_def)

text \<open>\<open>NAME_client_init\<close> is the only one to prepare the input buffer of the async client, too. After a
  message that was announced as too big, the client reconnects and takes the first bytes of the new
  connection for the payload it has refused: it writes them behind the end of its buffer.\<close>

theorem async_client_overruns_after_reconnect:
  "\<not> i_overrun (a_input async_reconnected) \<and>
   a_log async_reconnected = [Connected, Disconnected Message_too_big, Connected] \<and>
   (\<exists>c. ac_on_stcp_input (hand_out (replicate 13 0)) demo_codec async_reconnected = Some c \<and>
     i_overrun (a_input c))"
proof -
  let ?bs = "replicate 13 (0 :: byte)"
  let ?i = "input_read ?bs async_old_input"
  let ?c = "ac_set_input ?i async_reconnected"
  have "input_complete ?i = Too_big (?i\<lparr>i_left := 13\<rparr>)"
    by (simp add: input_complete_def input_read_def async_old_input_def buf_write_def input_header_def
        header_at_def messi_header_get_size_def header_sizeof_def Let_def)
  then have "ac_on_stcp_input (hand_out ?bs) demo_codec async_reconnected =
      Some (ac_disconnect_and_start_reconnect_timer Message_too_big (ac_set_input (?i\<lparr>i_left := 13\<rparr>) ?c))"
    unfolding ac_on_stcp_input_def
    by (subst input_loop_round [where bs = ?bs, OF _ _ refl])
      (simp_all add: hand_out_def async_reconnected_fields ac_set_input_def, simp_all add: async_old_input_def)
  moreover have "i_overrun ?i" by (simp add: input_read_def async_old_input_def)
  ultimately show ?thesis
    by (simp add: async_reconnected_fields async_simps ac_set_input_def, simp add: async_old_input_def)
qed

section \<open>Losing a connection and getting the next one\<close>

text \<open>
  The ways in which a client gives up its connection: the framework reports that it is closed, the
  keep alive timer expires and no pong has arrived, a message to send cannot be encoded, or a frame
  arrives that is too big or that cannot be decoded.
\<close>

inductive async_loses ::
    "('i, 'o) codec \<Rightarrow> ('u, 'i, 'o) async_client \<Rightarrow> disconnect_reason \<Rightarrow> ('u, 'i, 'o) async_client \<Rightarrow> bool"
  for k c where
  closed: "async_loses k c Connection_closed (ac_on_stcp_disconnected c)"
| no_pong: "\<not> a_pong_received c \<Longrightarrow> async_loses k c Keep_alive_timeout (ac_on_keep_alive_timeout c)"
| not_encoded: "out_encode k (a_out_message c) (size_sub (a_out_size c) header_sizeof) = None \<Longrightarrow>
    async_loses k c Message_encode_error (async_client_send k c)"
| too_big: "async_client_fresh c \<Longrightarrow> length (snd f) < 2 ^ 24 \<Longrightarrow>
    i_cap (a_input c) < header_sizeof + length (snd f) \<Longrightarrow> delivers rd (frame f) \<Longrightarrow>
    ac_on_stcp_input rd k c = Some c' \<Longrightarrow> async_loses k c Message_too_big c'"
| not_decoded: "async_client_fresh c \<Longrightarrow> length payload < 2 ^ 24 \<Longrightarrow>
    header_sizeof + length payload \<le> i_cap (a_input c) \<Longrightarrow>
    in_new k (a_in_workspace_size c) = Some m \<Longrightarrow> fst (in_decode k m payload) \<noteq> int (length payload) \<Longrightarrow>
    delivers rd (frame (MESSI_MESSAGE_TYPE_SERVER_TO_CLIENT_USER, payload)) \<Longrightarrow>
    ac_on_stcp_input rd k c = Some c' \<Longrightarrow> async_loses k c Message_decode_error c'"

definition lost_calls :: "async_call list" where
  "lost_calls = [Timer_stop Keep_alive_timer, Stcp_disconnect, Async_call]"

lemma disconnect_effect:
  assumes "a_is_connected c" "c1 = ac_disconnect_and_start_reconnect_timer r c"
  shows "a_calls c1 = a_calls c @ lost_calls" "a_log c1 = a_log c" "\<not> a_is_connected c1"
    "a_disconnect_reason c1 = r" "ac_cfg c1 = ac_cfg c"
  using assms by (simp_all add: ac_disconnect_and_start_reconnect_timer_def lost_calls_def async_simps Let_def)

lemma deliver_one:
  assumes "async_client_fresh c" "length (snd f) < 2 ^ 24" "delivers rd (frame f)"
  shows "ac_on_stcp_input rd k c = Some (async_client_deliver k f c)"
  using async_input_feed [OF assms(3) async_client_sound_ac [OF async_client_fresh_sound [OF assms(1)]], of k]
    ac.fold_feed_frames [where s = c and fs = "[f]" and k = k] assms(1,2)
  by (simp add: ac_deliver_eq async_client_fresh_def)

text \<open>Each of them ends in the same way, and does nothing to a client that has given up already.\<close>

lemma async_loses_effect:
  assumes "async_loses k c r c1"
  shows "a_is_connected c \<Longrightarrow> a_calls c1 = a_calls c @ lost_calls \<and> a_log c1 = a_log c \<and>
      \<not> a_is_connected c1 \<and> a_disconnect_reason c1 = r \<and> ac_cfg c1 = ac_cfg c"
    and "\<not> a_is_connected c \<Longrightarrow> c1 = c"
proof -
  have fresh: "a_is_connected c" "ac_alive c" if "async_client_fresh c"
    using that by (auto simp: async_client_fresh_def ac_ok_def ac_alive_def)
  have "(a_is_connected c \<longrightarrow> a_calls c1 = a_calls c @ lost_calls \<and> a_log c1 = a_log c \<and>
      \<not> a_is_connected c1 \<and> a_disconnect_reason c1 = r \<and> ac_cfg c1 = ac_cfg c) \<and>
    (\<not> a_is_connected c \<longrightarrow> c1 = c)"
    using assms
  proof cases
    case (too_big f rd)
    let ?c = "c\<lparr>a_input := input_oversized f (a_input c)\<rparr>"
    have "c1 = ac_disconnect_and_start_reconnect_timer r ?c"
      using too_big deliver_one [OF too_big(2,3,5), of k] fresh(2) by (simp add: async_client_deliver_def)
    moreover have conn: "a_is_connected c" by (rule fresh(1) [OF too_big(2)])
    ultimately show ?thesis
      using disconnect_effect [of ?c c1 r] by (simp add: ac_cfg_def)
  next
    case (not_decoded payload m rd)
    let ?f = "(MESSI_MESSAGE_TYPE_SERVER_TO_CLIENT_USER, payload)"
    let ?c = "c\<lparr>a_input := input_loaded ?f (a_input c), a_in_message := Some (snd (in_decode k m payload))\<rparr>"
    have p: "i_size (input_loaded ?f (a_input c)) - header_sizeof = length payload"
      "take (length payload) (drop header_sizeof (i_buf (input_loaded ?f (a_input c)))) = payload"
      using input_loaded_payload [of ?f "a_input c"] by simp_all
    have "c1 = ac_reset_input_encoded (ac_disconnect_and_start_reconnect_timer r ?c)"
      using not_decoded deliver_one [of c ?f rd k] fresh(2)
      by (auto simp: async_client_deliver_def ac_handle_message_def ac_handle_message_user_def p Let_def
          case_prod_unfold simp del: input_loaded_simps)
    moreover have conn: "a_is_connected c" by (rule fresh(1) [OF not_decoded(2)])
    ultimately show ?thesis
      using disconnect_effect [of ?c _ r, OF _ refl]
      by (simp add: ac_reset_input_encoded_def ac_cfg_def)
  qed (auto simp: disconnect_effect [OF _ refl] ac_on_stcp_disconnected_def ac_on_keep_alive_timeout_def
      async_client_send_def async_simps)
  then show "a_is_connected c \<Longrightarrow> a_calls c1 = a_calls c @ lost_calls \<and> a_log c1 = a_log c \<and>
      \<not> a_is_connected c1 \<and> a_disconnect_reason c1 = r \<and> ac_cfg c1 = ac_cfg c"
    "\<not> a_is_connected c \<Longrightarrow> c1 = c" by blast+
qed

text \<open>What the report of a disconnection and an attempt to connect do, for any callbacks.\<close>

lemma async_call_keeps:
  "\<exists>xs. a_calls (async_client_call k q c) = a_calls c @ xs"
  "\<not> a_is_connected c \<Longrightarrow> \<not> a_is_connected (async_client_call k q c)"
  by (cases q; simp add: async_client_init_message_def async_client_new_output_message_def async_client_send_def
      async_client_stop_def ac_disconnect_and_start_reconnect_timer_def async_simps Let_def split: option.split)+

lemma ac_callback_keeps:
  "\<exists>xs. a_calls (ac_callback k cb ev c) = a_calls c @ xs"
  "\<not> a_is_connected c \<Longrightarrow> \<not> a_is_connected (ac_callback k cb ev c)"
proof -
  have calls: "\<exists>xs. a_calls (fold (async_client_call k) rs c) = a_calls c @ xs"
    for rs and c :: "('a, 'b, 'c) async_client"
  proof (induction rs arbitrary: c)
    case (Cons r rs)
    then show ?case using async_call_keeps(1) [of k r c] by (metis append.assoc fold_simps(2))
  qed simp
  have up: "\<not> a_is_connected c \<Longrightarrow> \<not> a_is_connected (fold (async_client_call k) rs c)"
    for rs and c :: "('a, 'b, 'c) async_client"
    by (induction rs arbitrary: c) (simp_all add: async_call_keeps(2))
  show "\<exists>xs. a_calls (ac_callback k cb ev c) = a_calls c @ xs"
    "\<not> a_is_connected c \<Longrightarrow> \<not> a_is_connected (ac_callback k cb ev c)"
    using calls [of "snd (cb (a_app c))" "c\<lparr>a_app := fst (cb (a_app c)), a_log := a_log c @ [ev]\<rparr>"]
      up [of "c\<lparr>a_app := fst (cb (a_app c)), a_log := a_log c @ [ev]\<rparr>" "snd (cb (a_app c))"]
    by (simp_all add: ac_callback_def case_prod_unfold Let_def)
qed

lemma on_disconnected_effect:
  assumes "c2 = ac_on_disconnected k c1"
  shows "\<exists>xs. a_calls c2 = a_calls c1 @ xs @ [Timer_start Reconnect_timer]"
    "a_log c2 = a_log c1 @ [Disconnected (a_disconnect_reason c1)]" "ac_cfg c2 = ac_cfg c1"
    "\<not> a_is_connected c1 \<Longrightarrow> \<not> a_is_connected c2"
proof -
  show "\<exists>xs. a_calls c2 = a_calls c1 @ xs @ [Timer_start Reconnect_timer]"
    using ac_callback_keeps(1) by (fastforce simp: assms ac_on_disconnected_def async_simps)
qed (simp_all add: assms ac_on_disconnected_def async_simps ac_callback_keeps)

text \<open>
  The reconnect timer expires, which calls \<open>NAME_client_start\<close>, and the framework answers with the
  result \<open>res\<close>.
\<close>

definition async_attempt ::
    "('i, 'o) codec \<Rightarrow> int \<Rightarrow> ('u, 'i, 'o) async_client \<Rightarrow> ('u, 'i, 'o) async_client" where
  "async_attempt k res c = ac_on_stcp_connected k res (async_client_start c)"

lemma attempt_fails:
  assumes "res \<noteq> 0"
  shows "a_calls (async_attempt k res c) = a_calls c @ [Stcp_connect (a_address c) (a_port c), Timer_start Reconnect_timer]"
    "a_log (async_attempt k res c) = a_log c" "ac_cfg (async_attempt k res c) = ac_cfg c"
  using assms by (simp_all add: async_attempt_def ac_on_stcp_connected_def async_client_start_def async_simps)

lemma attempts_fail:
  assumes "\<forall>res \<in> set rs. res \<noteq> 0"
  shows "a_calls (fold (async_attempt k) rs c) =
      a_calls c @ concat (replicate (length rs) [Stcp_connect (a_address c) (a_port c), Timer_start Reconnect_timer]) \<and>
    a_log (fold (async_attempt k) rs c) = a_log c \<and> ac_cfg (fold (async_attempt k) rs c) = ac_cfg c"
  using assms
proof (induction rs arbitrary: c)
  case (Cons res rs)
  note f = attempt_fails [of res k c]
  have "a_address (async_attempt k res c) = a_address c" "a_port (async_attempt k res c) = a_port c"
    using f(3) Cons.prems by (simp_all add: ac_cfg_def)
  then show ?case using Cons.IH [of "async_attempt k res c"] f Cons.prems by simp
qed simp

lemma attempt_succeeds:
  "\<exists>c1. async_attempt k 0 c = ac_callback k (a_on_connected c) Connected c1 \<and>
    a_is_connected c1 \<and> a_pong_received c1 \<and> a_log c1 = a_log c \<and> stcp_wanted (a_calls c1) \<and>
    a_calls c1 = a_calls c @ [Stcp_connect (a_address c) (a_port c), Timer_start Keep_alive_timer]"
  (is "\<exists>c1. ?P c1")
proof
  show "?P ((ac_call (Timer_start Keep_alive_timer) (async_client_start c))
      \<lparr>a_pong_received := True, a_is_connected := True\<rparr>)"
    by (simp add: async_attempt_def ac_on_stcp_connected_def async_client_start_def async_simps Let_def)
      (simp add: ac_call_def)
qed

text \<open>C21: A connection that is lost is reported once, and the client connects again. In whatever way a
  connected client loses its connection, it stops the keep alive timer, disconnects the socket and
  schedules one report; losing it in further ways before the report does nothing. The report tells
  the application the reason and then, whatever the callback did, starts the reconnect timer; its
  function connects to the same address again, a failed attempt starts the timer once more, any
  number of times and without telling the application, and a successful one starts the keep alive
  timer and tells the application that the client is connected.\<close>

theorem async_client_reconnects:
  assumes "a_is_connected c" "async_loses k c r c1" "async_loses k c1 r' c1'"
    "c2 = ac_on_disconnected k c1'" "\<forall>res \<in> set rs. res \<noteq> 0" "c3 = fold (async_attempt k) rs c2"
  shows "a_calls c1' = a_calls c @ [Timer_stop Keep_alive_timer, Stcp_disconnect, Async_call] \<and>
    a_log c1' = a_log c \<and>
    (\<exists>xs. a_calls c2 = a_calls c1' @ xs @ [Timer_start Reconnect_timer]) \<and>
    a_log c2 = a_log c @ [Disconnected r] \<and>
    a_calls c3 = a_calls c2 @
      concat (replicate (length rs) [Stcp_connect (a_address c) (a_port c), Timer_start Reconnect_timer]) \<and>
    a_log c3 = a_log c2 \<and>
    (\<exists>c4. async_attempt k 0 c3 = ac_callback k (a_on_connected c) Connected c4 \<and>
      a_is_connected c4 \<and> a_pong_received c4 \<and> a_log c4 = a_log c2 \<and>
      a_calls c4 = a_calls c3 @ [Stcp_connect (a_address c) (a_port c), Timer_start Keep_alive_timer])"
proof -
  note l = async_loses_effect(1) [OF assms(2,1)]
  have c1': "c1' = c1" using async_loses_effect(2) [OF assms(3)] l by blast
  note d = on_disconnected_effect [OF assms(4) [unfolded c1']]
  have cfg: "a_address c2 = a_address c" "a_port c2 = a_port c" using d(3) l by (simp_all add: ac_cfg_def)
  note f = attempts_fail [OF assms(5), of k c2, folded assms(6), unfolded cfg]
  have "ac_cfg c3 = ac_cfg c" using f d(3) l by simp
  then have "a_address c3 = a_address c" "a_port c3 = a_port c" "a_on_connected c3 = a_on_connected c"
    by (simp_all add: ac_cfg_def)
  note s = attempt_succeeds [of k c3, unfolded this]
  have log: "a_log c2 = a_log c @ [Disconnected r]" using d(2) l by simp
  show ?thesis using l d(1) log f s unfolding c1' lost_calls_def by auto
qed

lemma async_client_reconnects_witness:
  "a_log (async_attempt demo_codec 0 (fold (async_attempt demo_codec) [1, -1] (ac_on_disconnected demo_codec
     (ac_on_stcp_disconnected (async_client_send demo_codec (async_up\<lparr>a_out_message := None\<rparr>)))))) =
   [Connected, Disconnected Message_encode_error, Connected]"
proof -
  let ?c = "async_up\<lparr>a_out_message := None\<rparr>"
  have up: "a_is_connected ?c" by (simp add: async_up_fields)
  have lost: "async_loses demo_codec ?c Message_encode_error (async_client_send demo_codec ?c)"
    by (rule not_encoded) (simp add: demo_codec_def)
  have "\<exists>c4. async_attempt demo_codec 0 (fold (async_attempt demo_codec) [1, -1]
      (ac_on_disconnected demo_codec (ac_on_stcp_disconnected (async_client_send demo_codec ?c)))) =
      ac_callback demo_codec (a_on_connected ?c) Connected c4 \<and> a_log c4 = a_log ?c @ [Disconnected Message_encode_error]"
    using async_client_reconnects [OF up lost closed refl _ refl, of "[1, -1]"]
    by auto
  then show ?thesis by (auto simp: async_simps async_up_fields)
qed

section \<open>Stopping\<close>

text \<open>C37: Stopping an async client does not keep it stopped. When the application stops a client that
  has lost its connection before the loss is reported, the report starts the reconnect timer all the
  same. And a client that is stopped while it is connected still takes itself for connected, so that
  a message that cannot be encoded schedules a report, too. Either way the timer's function connects,
  and when that succeeds the application is told that the client it has stopped is connected.\<close>

theorem async_client_stop_is_undone:
  assumes "a_is_connected c"
    "async_loses k c r lost \<and> c1 = async_client_stop lost \<or>
     out_encode k (a_out_message c) (size_sub (a_out_size c) header_sizeof) = None \<and>
       r = Message_encode_error \<and> c1 = async_client_send k (async_client_stop c)"
    "c2 = ac_on_disconnected k c1"
  shows "\<not> stcp_wanted (a_calls c1) \<and>
    (\<exists>xs. a_calls c1 = a_calls c @ xs \<and> Async_call \<in> set xs) \<and>
    (\<exists>xs. a_calls c2 = a_calls c1 @ xs @ [Timer_start Reconnect_timer]) \<and>
    a_calls (async_client_start c2) = a_calls c2 @ [Stcp_connect (a_address c) (a_port c)] \<and>
    (\<exists>c3. async_attempt k 0 c2 = ac_callback k (a_on_connected c) Connected c3 \<and>
      a_is_connected c3 \<and> stcp_wanted (a_calls c3) \<and> a_log c3 = a_log c @ [Disconnected r])"
proof -
  have c1: "\<not> stcp_wanted (a_calls c1)" "\<exists>xs. a_calls c1 = a_calls c @ xs \<and> Async_call \<in> set xs"
    "a_log c1 = a_log c" "a_disconnect_reason c1 = r" "ac_cfg c1 = ac_cfg c"
  proof -
    have "\<not> stcp_wanted (a_calls c1) \<and> (\<exists>xs. a_calls c1 = a_calls c @ xs \<and> Async_call \<in> set xs) \<and>
      a_log c1 = a_log c \<and> a_disconnect_reason c1 = r \<and> ac_cfg c1 = ac_cfg c"
      using assms(2)
    proof (elim disjE conjE)
      assume "async_loses k c r lost" "c1 = async_client_stop lost"
      then show ?thesis
        using async_loses_effect(1) [OF _ assms(1), of k r lost]
        by (simp add: async_client_stop_def lost_calls_def async_simps)
    next
      let ?s = "async_client_stop c"
      assume e: "out_encode k (a_out_message c) (size_sub (a_out_size c) header_sizeof) = None"
        "r = Message_encode_error" "c1 = async_client_send k ?s"
      have "a_is_connected ?s" "a_out_message ?s = a_out_message c" "a_out_size ?s = a_out_size c"
        using assms(1) by (simp_all add: async_client_stop_def ac_call_def)
      then show ?thesis
        using disconnect_effect [of ?s c1 r] e
        by (simp add: async_client_send_def, simp add: async_client_stop_def lost_calls_def async_simps)
    qed
    then show "\<not> stcp_wanted (a_calls c1)" "\<exists>xs. a_calls c1 = a_calls c @ xs \<and> Async_call \<in> set xs"
      "a_log c1 = a_log c" "a_disconnect_reason c1 = r" "ac_cfg c1 = ac_cfg c" by blast+
  qed
  note d = on_disconnected_effect [OF assms(3)]
  have cfg: "a_address c2 = a_address c" "a_port c2 = a_port c" "a_on_connected c2 = a_on_connected c"
    using d(3) c1(5) by (simp_all add: ac_cfg_def)
  have "a_calls (async_client_start c2) = a_calls c2 @ [Stcp_connect (a_address c) (a_port c)]"
    by (simp add: async_client_start_def async_simps cfg)
  moreover have "a_log c2 = a_log c @ [Disconnected r]" using d(2) c1(3,4) by simp
  ultimately show ?thesis
    using c1(1,2) d(1) attempt_succeeds [of k c2, unfolded cfg] by auto
qed

lemma async_client_stop_is_undone_witness:
  "a_log (async_attempt demo_codec 0 (ac_on_disconnected demo_codec
      (async_client_stop (ac_on_stcp_disconnected async_up)))) =
    [Connected, Disconnected Connection_closed, Connected] \<and>
   a_log (async_attempt demo_codec 0 (ac_on_disconnected demo_codec
      (async_client_send demo_codec (async_client_stop (async_up\<lparr>a_out_message := None\<rparr>))))) =
    [Connected, Disconnected Message_encode_error, Connected]"
proof
  let ?c = "async_up\<lparr>a_out_message := None\<rparr>"
  have up: "a_is_connected async_up" "a_is_connected ?c" by (simp_all add: async_up_fields)
  show "a_log (async_attempt demo_codec 0 (ac_on_disconnected demo_codec
      (async_client_stop (ac_on_stcp_disconnected async_up)))) =
    [Connected, Disconnected Connection_closed, Connected]"
    using async_client_stop_is_undone [OF up(1) disjI1 [OF conjI [OF closed refl]] refl, of demo_codec]
    by (auto simp: async_simps async_up_fields)
  have "out_encode demo_codec (a_out_message ?c) (size_sub (a_out_size ?c) header_sizeof) = None"
    by (simp add: demo_codec_def)
  from async_client_stop_is_undone [OF up(2) disjI2 [OF conjI [OF this conjI [OF refl refl]]] refl]
  show "a_log (async_attempt demo_codec 0 (ac_on_disconnected demo_codec
      (async_client_send demo_codec (async_client_stop ?c)))) =
    [Connected, Disconnected Message_encode_error, Connected]"
    by (auto simp: async_simps async_up_fields)
qed

end
