(* ===== verification/AsyncServer.thy ===== *)
theory AsyncServer
  imports LinuxServer
begin

text \<open>
  The server for the async framework: the structs of \<open>templates/async/server.h\<close> and every function
  of \<open>templates/async/server.c\<close>. As for the async client, the framework is known by the calls made
  to it, and what a read delivers during an event is an argument of the event.

  The README offers async for clients only, and this template is not finished: it keeps the fields
  of the linux server but lacks much of the code that maintains them. Memory that the template reads
  and never writes is therefore part of the state, with whatever value it has: \<open>ka_server\<close> tells
  whether \<open>server_p\<close> of a client points to the server, and a callback that is \<open>None\<close> is no valid
  function.
\<close>

datatype as_framework_call =
    Server_init string int
  | Server_add_client nat
  | Server_start
  | Server_stop
  | Client_write nat "byte list"
  | Client_timer_start nat

type_synonym async_server_reads = "as_framework_call list \<Rightarrow> nat \<Rightarrow> nat \<Rightarrow> byte list"

section \<open>State\<close>

record async_sclient =
  ka_server :: bool
  ka_input :: input
  ka_next :: ptr
  ka_prev :: ptr

text \<open>
  From \<open>sa_max\<close> on the fields are not part of the struct: the array of clients and its size, the
  application, the calls made to the framework, the callbacks called so far and the ghosts: a use of
  a pointer that points nowhere or a write outside of the output buffer, and a loop over a list that
  visits more clients than there are.
\<close>

record ('u, 'i, 'o) async_server =
  sa_address :: string
  sa_port :: int
  sa_on_client_connected :: "(nat \<Rightarrow> 'u \<Rightarrow> 'u \<times> 'o server_request list) option"
  sa_on_client_disconnected :: "(nat \<Rightarrow> 'u \<Rightarrow> 'u \<times> 'o server_request list) option"
  sa_on_message :: "nat \<Rightarrow> (nat \<Rightarrow> 'i \<Rightarrow> 'u \<Rightarrow> 'u \<times> 'o server_request list) option"
  sa_current :: ptr
  sa_connected :: ptr
  sa_free :: ptr
  sa_pending :: ptr
  sa_input_buffer_size :: nat
  sa_in_message :: "'i option"
  sa_in_workspace_size :: nat
  sa_out_message :: "'o option"
  sa_out_workspace_size :: nat
  sa_out_buf :: "byte list"
  sa_out_size :: nat
  sa_max :: nat
  sa_clients :: "nat \<Rightarrow> async_sclient"
  sa_app :: 'u
  sa_calls :: "as_framework_call list"
  sa_log :: "'i server_event list"
  sa_fault :: bool
  sa_hang :: bool

definition as_upd ::
    "nat \<Rightarrow> (async_sclient \<Rightarrow> async_sclient) \<Rightarrow> ('u, 'i, 'o) async_server \<Rightarrow> ('u, 'i, 'o) async_server" where
  "as_upd i f s = s\<lparr>sa_clients := (sa_clients s)(i := f (sa_clients s i))\<rparr>"

definition as_call :: "as_framework_call \<Rightarrow> ('u, 'i, 'o) async_server \<Rightarrow> ('u, 'i, 'o) async_server" where
  "as_call x s = s\<lparr>sa_calls := sa_calls s @ [x]\<rparr>"

definition as_client_reset_input :: "nat \<Rightarrow> ('u, 'i, 'o) async_server \<Rightarrow> ('u, 'i, 'o) async_server" where
  "as_client_reset_input i s =
     as_upd i (\<lambda>c. c\<lparr>ka_input := (ka_input c)\<lparr>i_state := Header, i_size := 0, i_left := header_sizeof\<rparr>\<rparr>) s"

section \<open>What the application calls\<close>

definition async_server_new_output_message ::
    "('i, 'o) codec \<Rightarrow> ('u, 'i, 'o) async_server \<Rightarrow> ('u, 'i, 'o) async_server" where
  "async_server_new_output_message k s = s\<lparr>sa_out_message := out_new k (sa_out_workspace_size s)\<rparr>"

definition async_server_init_message ::
    "('i, 'o) codec \<Rightarrow> ('o \<Rightarrow> 'o) \<Rightarrow> ('u, 'i, 'o) async_server \<Rightarrow> ('u, 'i, 'o) async_server" where
  "async_server_init_message k alloc s =
     (let s1 = async_server_new_output_message k s
      in case sa_out_message s1 of
           None \<Rightarrow> s1\<lparr>sa_fault := True\<rparr>
         | Some m \<Rightarrow> s1\<lparr>sa_out_message := Some (alloc m)\<rparr>)"

text \<open>\<open>encode_user_message\<close>: the length of the frame in the output buffer, or \<open>None\<close> for an error.\<close>

definition as_encode_user_message ::
    "('i, 'o) codec \<Rightarrow> ('u, 'i, 'o) async_server \<Rightarrow> nat option \<times> ('u, 'i, 'o) async_server" where
  "as_encode_user_message k s =
     (case out_encode k (sa_out_message s) (size_sub (sa_out_size s) header_sizeof) of
        None \<Rightarrow> (None, s)
      | Some payload \<Rightarrow>
          (let payload_size = length payload;
               buf1 = buf_write header_sizeof payload (sa_out_buf s);
               header = (header_at buf1)\<lparr>header_type := MESSI_MESSAGE_TYPE_SERVER_TO_CLIENT_USER\<rparr>;
               header = messi_header_set_size header (of_nat payload_size)
           in (Some (payload_size + header_sizeof),
               s\<lparr>sa_out_buf := buf_write 0 (header_bytes header) buf1,
                 sa_fault := (sa_fault s \<or> length (sa_out_buf s) < header_sizeof + payload_size)\<rparr>)))"

definition async_server_start :: "('u, 'i, 'o) async_server \<Rightarrow> ('u, 'i, 'o) async_server" where
  "async_server_start s = as_call Server_start s"

definition async_server_stop :: "('u, 'i, 'o) async_server \<Rightarrow> ('u, 'i, 'o) async_server" where
  "async_server_stop s = as_call Server_stop s"

definition async_server_send ::
    "('i, 'o) codec \<Rightarrow> nat \<Rightarrow> ('u, 'i, 'o) async_server \<Rightarrow> ('u, 'i, 'o) async_server" where
  "async_server_send k i s =
     (case as_encode_user_message k s of
        (None, s1) \<Rightarrow> s1
      | (Some res, s1) \<Rightarrow> as_call (Client_write i (take res (sa_out_buf s1))) s1)"

definition async_server_reply ::
    "('i, 'o) codec \<Rightarrow> ('u, 'i, 'o) async_server \<Rightarrow> ('u, 'i, 'o) async_server" where
  "async_server_reply k s = (case sa_current s of None \<Rightarrow> s | Some i \<Rightarrow> async_server_send k i s)"

text \<open>The loop of \<open>NAME_server_broadcast\<close>.\<close>

primrec as_broadcast_loop ::
    "nat \<Rightarrow> ptr \<Rightarrow> byte list \<Rightarrow> ('u, 'i, 'o) async_server \<Rightarrow> ('u, 'i, 'o) async_server" where
  "as_broadcast_loop 0 p buf s = (if p = None then s else s\<lparr>sa_hang := True\<rparr>)"
| "as_broadcast_loop (Suc n) p buf s =
     (case p of
        None \<Rightarrow> s
      | Some i \<Rightarrow>
          (let s1 = as_call (Client_write i buf) s
           in as_broadcast_loop n (ka_next (sa_clients s1 i)) buf s1))"

definition async_server_broadcast ::
    "('i, 'o) codec \<Rightarrow> ('u, 'i, 'o) async_server \<Rightarrow> ('u, 'i, 'o) async_server" where
  "async_server_broadcast k s =
     (case as_encode_user_message k s of
        (None, s1) \<Rightarrow> s1
      | (Some res, s1) \<Rightarrow> as_broadcast_loop (sa_max s1) (sa_connected s1) (take res (sa_out_buf s1)) s1)"

text \<open>The call that would disconnect the client is commented out in the source.\<close>

definition async_server_disconnect ::
    "ptr \<Rightarrow> ('u, 'i, 'o) async_server \<Rightarrow> ('u, 'i, 'o) async_server" where
  "async_server_disconnect p s =
     (let p1 = (if p = None then sa_current s else p) in case p1 of None \<Rightarrow> s | Some i \<Rightarrow> s)"

fun async_server_call ::
    "('i, 'o) codec \<Rightarrow> 'o server_request \<Rightarrow> ('u, 'i, 'o) async_server \<Rightarrow> ('u, 'i, 'o) async_server" where
  "async_server_call k (Prepare_message alloc) s = async_server_init_message k alloc s"
| "async_server_call k (Send_to i) s = async_server_send k i s"
| "async_server_call k Reply s = async_server_reply k s"
| "async_server_call k Broadcast s = async_server_broadcast k s"
| "async_server_call k (Disconnect_client p) s = async_server_disconnect p s"

definition as_callback ::
    "('i, 'o) codec \<Rightarrow> ('u \<Rightarrow> 'u \<times> 'o server_request list) \<Rightarrow> 'i server_event \<Rightarrow>
     ('u, 'i, 'o) async_server \<Rightarrow> ('u, 'i, 'o) async_server" where
  "as_callback k cb ev s =
     (let (u, calls) = cb (sa_app s)
      in fold (async_server_call k) calls (s\<lparr>sa_app := u, sa_log := sa_log s @ [ev]\<rparr>))"

section \<open>Events\<close>

definition as_on_client_default :: "nat \<Rightarrow> 'u \<Rightarrow> 'u \<times> 'o server_request list" where
  "as_on_client_default i u = (u, [])"

definition as_on_message_default :: "nat \<Rightarrow> 'i \<Rightarrow> 'u \<Rightarrow> 'u \<times> 'o server_request list" where
  "as_on_message_default i m u = (u, [])"

text \<open>
  \<open>on_stcp_client_connected\<close> and \<open>on_stcp_client_disconnected\<close> find the server, and in it the
  callback, by way of the client.
\<close>

definition as_on_stcp_client_connected ::
    "('i, 'o) codec \<Rightarrow> nat \<Rightarrow> ('u, 'i, 'o) async_server \<Rightarrow> ('u, 'i, 'o) async_server" where
  "as_on_stcp_client_connected k i s =
     (let s1 = as_client_reset_input i s
      in if \<not> ka_server (sa_clients s1 i) then s1\<lparr>sa_fault := True\<rparr>
         else case sa_on_client_connected s1 of
             None \<Rightarrow> s1\<lparr>sa_fault := True\<rparr>
           | Some cb \<Rightarrow> as_callback k (cb i) (Client_connected i) s1)"

definition as_on_stcp_client_disconnected ::
    "('i, 'o) codec \<Rightarrow> nat \<Rightarrow> ('u, 'i, 'o) async_server \<Rightarrow> ('u, 'i, 'o) async_server" where
  "as_on_stcp_client_disconnected k i s =
     (if \<not> ka_server (sa_clients s i) then s\<lparr>sa_fault := True\<rparr>
      else case sa_on_client_disconnected s of
          None \<Rightarrow> s\<lparr>sa_fault := True\<rparr>
        | Some cb \<Rightarrow> as_callback k (cb i) (Client_disconnected i) s)"

text \<open>
  \<open>handle_message_user\<close> is called with \<open>server_p\<close> of the client, and is the only one to follow it; the
  result of a call that follows a pointer to nowhere has no meaning.
\<close>

definition as_handle_message_user ::
    "('i, 'o) codec \<Rightarrow> nat \<Rightarrow> ('u, 'i, 'o) async_server \<Rightarrow> int \<times> ('u, 'i, 'o) async_server" where
  "as_handle_message_user k i s =
     (if \<not> ka_server (sa_clients s i) then (- 1, s\<lparr>sa_fault := True\<rparr>)
      else
      let s1 = s\<lparr>sa_in_message := in_new k (sa_in_workspace_size s)\<rparr>
      in case sa_in_message s1 of
           None \<Rightarrow> (- 1, s1)
         | Some message \<Rightarrow>
             (let input = ka_input (sa_clients s1 i);
                  payload_size = i_size input - header_sizeof;
                  payload = take payload_size (drop header_sizeof (i_buf input));
                  (res, message) = in_decode k message payload;
                  s2 = s1\<lparr>sa_in_message := Some message\<rparr>
              in if res \<noteq> int payload_size then (- 1, s2)
                 else
                   (let s3 = s2\<lparr>sa_current := Some i\<rparr>;
                        s4 = (case sa_on_message s3 (in_choice k message) of
                                None \<Rightarrow> s3
                              | Some cb \<Rightarrow>
                                  as_callback k (cb i message)
                                    (Client_message i (in_choice k message) message) s3)
                    in (0, s4\<lparr>sa_current := None\<rparr>))))"

definition as_handle_message_ping ::
    "nat \<Rightarrow> ('u, 'i, 'o) async_server \<Rightarrow> int \<times> ('u, 'i, 'o) async_server" where
  "as_handle_message_ping i s =
     (let s1 = as_call (Client_timer_start i) s;
          header = (header_at (replicate 4 0))\<lparr>header_type := MESSI_MESSAGE_TYPE_PONG\<rparr>;
          header = messi_header_set_size header 0
      in (0, as_call (Client_write i (header_bytes header)) s1))"

definition as_handle_message ::
    "('i, 'o) codec \<Rightarrow> nat \<Rightarrow> byte \<Rightarrow> ('u, 'i, 'o) async_server \<Rightarrow> int \<times> ('u, 'i, 'o) async_server" where
  "as_handle_message k i ty s =
     (if ty = MESSI_MESSAGE_TYPE_CLIENT_TO_SERVER_USER then as_handle_message_user k i s
      else if ty = MESSI_MESSAGE_TYPE_PING then as_handle_message_ping i s
      else (- 1, s))"

definition as_set_input :: "nat \<Rightarrow> input \<Rightarrow> ('u, 'i, 'o) async_server \<Rightarrow> ('u, 'i, 'o) async_server" where
  "as_set_input i inp s = as_upd i (\<lambda>c. c\<lparr>ka_input := inp\<rparr>) s"

text \<open>
  The loop of \<open>on_stcp_client_input\<close>, with the number \<open>t\<close> of bytes read so far. A message that is
  too big or that cannot be handled only ends the loop: the calls that would disconnect the client
  are commented out.
\<close>

partial_function (option) as_input_loop ::
    "async_server_reads \<Rightarrow> ('i, 'o) codec \<Rightarrow> nat \<Rightarrow> nat \<Rightarrow> ('u, 'i, 'o) async_server \<Rightarrow>
     ('u, 'i, 'o) async_server option" where
  "as_input_loop rd k i t s =
     (let inp = ka_input (sa_clients s i);
          bs = rd (sa_calls s) t (i_left inp)
      in if bs = [] then Some s
         else
      let inp1 = input_read bs inp; s1 = as_set_input i inp1 s
      in if i_left inp1 > 0 then as_input_loop rd k i (t + length bs) s1
         else
      let (go_on, inp3) =
        (if i_state inp1 = Header
         then
           (let inp2 = inp1\<lparr>i_left := unat (messi_header_get_size (input_header inp1))\<rparr>
            in if i_left inp2 + header_sizeof > i_cap inp2 then (False, inp2)
               else (True, inp2\<lparr>i_state := Payload\<rparr>))
         else (True, inp1));
          s3 = as_set_input i inp3 s1
      in if \<not> go_on then Some s3
         else if i_left inp3 = 0
         then
           (let (res, s4) = as_handle_message k i (header_type (input_header inp3)) s3
            in if res = 0 then as_input_loop rd k i (t + length bs) (as_client_reset_input i s4)
               else Some s4)
         else as_input_loop rd k i (t + length bs) s3)"

definition as_on_stcp_client_input ::
    "async_server_reads \<Rightarrow> ('i, 'o) codec \<Rightarrow> nat \<Rightarrow> ('u, 'i, 'o) async_server \<Rightarrow>
     ('u, 'i, 'o) async_server option" where
  "as_on_stcp_client_input rd k i s = as_input_loop rd k i 0 s"

section \<open>Initialisation\<close>

text \<open>One round of the loop over the array of clients.\<close>

definition as_init_client ::
    "byte list \<Rightarrow> nat \<Rightarrow> nat \<Rightarrow> ('u, 'i, 'o) async_server \<Rightarrow> ('u, 'i, 'o) async_server" where
  "as_init_client bufs sz i s =
     as_call (Server_add_client i)
       (as_upd i (\<lambda>c. c\<lparr>ka_input := (ka_input c)\<lparr>i_buf := take sz (drop (i * sz) bufs), i_cap := sz,
          i_overrun := False\<rparr>\<rparr>) s)"

text \<open>
  \<open>NAME_server_init\<close>: the callbacks for connecting and disconnecting clients get their defaults but
  are not stored.
\<close>

definition async_server_init ::
    "string \<Rightarrow> int \<Rightarrow> byte list \<Rightarrow> nat \<Rightarrow> byte list \<Rightarrow> nat \<Rightarrow> nat \<Rightarrow>
     (nat \<Rightarrow> 'u \<Rightarrow> 'u \<times> 'o server_request list) option \<Rightarrow>
     (nat \<Rightarrow> 'u \<Rightarrow> 'u \<times> 'o server_request list) option \<Rightarrow>
     (nat \<times> (nat \<Rightarrow> 'i \<Rightarrow> 'u \<Rightarrow> 'u \<times> 'o server_request list) option) list \<Rightarrow>
     ('u, 'i, 'o) async_server \<Rightarrow> int \<times> ('u, 'i, 'o) async_server" where
  "async_server_init server_uri clients_max clients_input_bufs client_input_size message_buf
       workspace_in_size workspace_out_size on_client_connected on_client_disconnected on_messages s =
     (let on_message = map_option (\<lambda>cb. case cb of None \<Rightarrow> as_on_message_default | Some f \<Rightarrow> f)
            \<circ> map_of on_messages;
          on_client_connected =
            (case on_client_connected of None \<Rightarrow> as_on_client_default | Some f \<Rightarrow> f);
          on_client_disconnected =
            (case on_client_disconnected of None \<Rightarrow> as_on_client_default | Some f \<Rightarrow> f)
      in case messi_parse_tcp_uri server_uri 16 of
           None \<Rightarrow> (- 1, s)
         | Some (address, prt) \<Rightarrow>
             (let s = s\<lparr>sa_address := address, sa_port := prt, sa_on_message := on_message,
                    sa_in_workspace_size := workspace_in_size,
                    sa_out_buf := message_buf, sa_out_size := length message_buf,
                    sa_out_workspace_size := workspace_out_size,
                    sa_max := nat clients_max, sa_fault := False, sa_hang := False\<rparr>;
                  s = as_call (Server_init address prt) s
              in (0, fold (as_init_client clients_input_bufs client_input_size) [0..<nat clients_max] s)))"

end
