(* ===== verification/AsyncServerFacts.thy ===== *)
theory AsyncServerFacts
  imports AsyncServer Poller LinuxServerDemo
begin

text \<open>
  The async server: its receiving loop is an instance of \<open>frame_poller\<close>, like that of the async
  client. But nothing in the template makes the struct of a client point to the server; what that
  and the other omissions of the template lead to is shown at the end.
\<close>

named_theorems async_server_simps

section \<open>What the operations keep\<close>

lemma as_upd_simps [async_server_simps]:
  "sa_clients (as_upd i f s) = (sa_clients s)(i := f (sa_clients s i))"
  "sa_calls (as_upd i f s) = sa_calls s" "sa_log (as_upd i f s) = sa_log s"
  "sa_fault (as_upd i f s) = sa_fault s" "sa_connected (as_upd i f s) = sa_connected s"
  "sa_on_client_connected (as_upd i f s) = sa_on_client_connected s"
  "sa_on_client_disconnected (as_upd i f s) = sa_on_client_disconnected s"
  "sa_current (as_upd i f s) = sa_current s"
  by (simp_all add: as_upd_def)

lemma as_call_simps [async_server_simps]:
  "sa_clients (as_call x s) = sa_clients s" "sa_calls (as_call x s) = sa_calls s @ [x]"
  "sa_log (as_call x s) = sa_log s" "sa_fault (as_call x s) = sa_fault s"
  "sa_connected (as_call x s) = sa_connected s" "sa_current (as_call x s) = sa_current s"
  "sa_on_client_connected (as_call x s) = sa_on_client_connected s"
  "sa_on_client_disconnected (as_call x s) = sa_on_client_disconnected s"
  by (simp_all add: as_call_def)

lemma as_broadcast_clients [async_server_simps]: "sa_clients (as_broadcast_loop n p buf s) = sa_clients s"
  by (induction n arbitrary: p s) (auto simp: async_server_simps Let_def split: option.split)

lemma as_encode_clients [async_server_simps]: "sa_clients (snd (as_encode_user_message k s)) = sa_clients s"
  by (simp add: as_encode_user_message_def Let_def split: option.split)

lemma as_send_clients [async_server_simps]: "sa_clients (async_server_send k i s) = sa_clients s"
  by (simp add: async_server_send_def async_server_simps case_prod_unfold split: option.split)

lemma as_server_call_clients [async_server_simps]: "sa_clients (async_server_call k r s) = sa_clients s"
  by (cases r) (simp_all add: async_server_init_message_def async_server_new_output_message_def
      async_server_reply_def async_server_broadcast_def async_server_disconnect_def async_server_simps Let_def
      case_prod_unfold split: option.split)

lemma as_callback_clients [async_server_simps]: "sa_clients (as_callback k cb ev s) = sa_clients s"
proof -
  have "sa_clients (fold (async_server_call k) rs t) = sa_clients t" for rs and t :: "('a, 'b, 'c) async_server"
    by (induction rs arbitrary: t) (simp_all add: async_server_simps)
  then show ?thesis by (simp add: as_callback_def split: prod.split)
qed

lemma as_handle_message_clients [async_server_simps]:
  "sa_clients (snd (as_handle_message k i ty s)) = sa_clients s"
  by (auto simp: as_handle_message_def as_handle_message_user_def as_handle_message_ping_def
      async_server_simps Let_def split: option.splits prod.splits)

lemma as_set_input_simps [async_server_simps]:
  "ka_input (sa_clients (as_set_input i inp s) i) = inp"
  "ka_server (sa_clients (as_set_input i inp s) i) = ka_server (sa_clients s i)"
  "as_set_input i inp (as_set_input i inp' s) = as_set_input i inp s"
  "as_set_input i (ka_input (sa_clients s i)) s = s"
  "sa_calls (as_set_input i inp s) = sa_calls s"
  by (simp_all add: as_set_input_def as_upd_def)

lemma as_reset_input [async_server_simps]:
  "ka_input (sa_clients (as_client_reset_input i s) i) = input_reset (ka_input (sa_clients s i))"
  "ka_server (sa_clients (as_client_reset_input i s) j) = ka_server (sa_clients s j)"
  "sa_log (as_client_reset_input i s) = sa_log s"
  by (simp_all add: as_client_reset_input_def as_upd_def input_reset_def)

section \<open>The receiving loop\<close>

text \<open>
  The state of the loop: besides the server a flag that says that the loop has ended because a
  message was too big or could not be handled.
\<close>

type_synonym ('u, 'i, 'o) as_state = "bool \<times> ('u, 'i, 'o) async_server"

definition as_inp :: "nat \<Rightarrow> ('u, 'i, 'o) as_state \<Rightarrow> input" where
  "as_inp i p = ka_input (sa_clients (snd p) i)"

definition as_set_inp :: "nat \<Rightarrow> input \<Rightarrow> ('u, 'i, 'o) as_state \<Rightarrow> ('u, 'i, 'o) as_state" where
  "as_set_inp i inp p = (fst p, as_set_input i inp (snd p))"

definition as_stuck :: "('u, 'i, 'o) as_state \<Rightarrow> ('u, 'i, 'o) as_state" where
  "as_stuck p = (True, snd p)"

definition as_dispatch :: "('i, 'o) codec \<Rightarrow> nat \<Rightarrow> ('u, 'i, 'o) as_state \<Rightarrow> ('u, 'i, 'o) as_state" where
  "as_dispatch k i p =
     (let (res, s) = as_handle_message k i (header_type (input_header (as_inp i p))) (snd p)
      in if res = 0 then (fst p, as_client_reset_input i s) else (True, s))"

text \<open>What the framework promises for an event of a client for which the bytes \<open>bs\<close> have arrived.\<close>

definition server_delivers :: "async_server_reads \<Rightarrow> byte list \<Rightarrow> bool" where
  "server_delivers rd bs \<longleftrightarrow>
     (\<forall>h t n. length (rd h t n) \<le> n \<and> (\<exists>bs'. drop t bs = rd h t n @ bs') \<and>
       (0 < n \<longrightarrow> t < length bs \<longrightarrow> rd h t n \<noteq> []))"

definition as_poll ::
    "('i, 'o) codec \<Rightarrow> nat \<Rightarrow> async_server_reads \<Rightarrow> nat \<Rightarrow> ('u, 'i, 'o) as_state \<Rightarrow>
     ('u, 'i, 'o) async_server option" where
  "as_poll k i rd t p = (if fst p then Some (snd p) else as_input_loop rd k i t (snd p))"

lemma as_dispatch_simps:
  "as_inp i (as_dispatch k i p) = as_inp i p \<or> as_inp i (as_dispatch k i p) = input_reset (as_inp i p)"
  "\<not> fst (as_dispatch k i p) \<Longrightarrow> as_inp i (as_dispatch k i p) = input_reset (as_inp i p)"
  by (simp_all add: as_dispatch_def as_inp_def async_server_simps case_prod_unfold
      Let_def split: if_splits)

lemma as_input_loop_round:
  assumes "\<not> fst p" "rd (sa_calls (snd p)) t (i_left (as_inp i p)) = bs" "bs \<noteq> []"
    "p1 = as_set_inp i (input_read bs (as_inp i p)) p"
  shows "as_poll k i rd t p =
    (if 0 < i_left (as_inp i p1) then as_poll k i rd (t + length bs) p1
     else case input_complete (as_inp i p1) of
         Too_big inp \<Rightarrow> Some (snd (as_stuck (as_set_inp i inp p1)))
       | More inp \<Rightarrow> as_poll k i rd (t + length bs) (as_set_inp i inp p1)
       | Ready inp \<Rightarrow> as_poll k i rd (t + length bs) (as_dispatch k i (as_set_inp i inp p1)))"
proof -
  let ?s = "snd p"
  define inp where "inp = input_read bs (ka_input (sa_clients ?s i))"
  have p1: "p1 = (False, as_set_input i inp ?s)"
    using assms(1) by (simp add: assms(4) as_set_inp_def as_inp_def inp_def)
  have rd: "rd (sa_calls ?s) t (i_left (ka_input (sa_clients ?s i))) = bs"
    using assms(2) by (simp add: as_inp_def)
  let ?j = "inp\<lparr>i_left := unat (messi_header_get_size (input_header inp))\<rparr>"
  note loop = as_input_loop.simps [of rd k i t ?s, unfolded rd inp_def [symmetric] Let_def]
  note defs = p1 as_poll_def as_set_inp_def as_stuck_def as_dispatch_def as_inp_def case_prod_unfold Let_def
    async_server_simps
  have p: "as_poll k i rd t p = as_input_loop rd k i t ?s"
    using assms(1) by (simp add: as_poll_def)
  consider (part) "0 < i_left inp" | (payload) "i_left inp = 0" "i_state inp \<noteq> Header"
    | (too_big) "i_left inp = 0" "i_state inp = Header" "i_cap inp < i_left ?j + header_sizeof"
    | (empty) "i_left inp = 0" "i_state inp = Header" "\<not> i_cap inp < i_left ?j + header_sizeof" "i_left ?j = 0"
    | (header) "i_left inp = 0" "i_state inp = Header" "\<not> i_cap inp < i_left ?j + header_sizeof" "i_left ?j \<noteq> 0"
    by blast
  then show ?thesis
  proof cases
    case part
    then show ?thesis using assms(3) unfolding p loop by (simp add: defs)
  next
    case payload
    moreover from this have "input_complete inp = Ready inp" by (simp add: input_complete_def)
    ultimately show ?thesis using assms(3) unfolding p loop by (simp add: defs)
  next
    case too_big
    moreover from this have "input_complete inp = Too_big ?j" by (simp add: input_complete_def Let_def)
    ultimately show ?thesis using assms(3) unfolding p loop by (simp add: defs)
  next
    case empty
    moreover from this have "input_complete inp = Ready (?j\<lparr>i_state := Payload\<rparr>)"
      by (simp add: input_complete_def Let_def)
    ultimately show ?thesis using assms(3) unfolding p loop by (simp add: defs)
  next
    case header
    moreover from this have "input_complete inp = More (?j\<lparr>i_state := Payload\<rparr>)"
      by (simp add: input_complete_def Let_def)
    ultimately show ?thesis using assms(3) unfolding p loop by (simp add: defs)
  qed
qed

interpretation asv: frame_poller "as_inp i :: ('u, 'i, 'o) as_state \<Rightarrow> input"
  "as_set_inp i" "\<lambda>p. True" "\<lambda>p. \<not> fst p" as_stuck "as_dispatch k i" "\<lambda>p. sa_calls (snd p)" snd
  server_delivers "as_poll k i" for k :: "('i, 'o) codec" and i
proof unfold_locales
  fix p :: "('u, 'i, 'o) as_state" and rd t bs p1
  show "\<not> \<not> fst p \<Longrightarrow> as_poll k i rd t p = Some (snd p)" by (simp add: as_poll_def)
  show "rd (sa_calls (snd p)) t (i_left (as_inp i p)) = [] \<Longrightarrow> as_poll k i rd t p = Some (snd p)"
    by (subst (1) as_poll_def, subst as_input_loop.simps) (simp add: as_inp_def)
  assume "\<not> fst p" "rd (sa_calls (snd p)) t (i_left (as_inp i p)) = bs" "bs \<noteq> []"
    "p1 = as_set_inp i (input_read bs (as_inp i p)) p"
  then show "as_poll k i rd t p =
    (if 0 < i_left (as_inp i p1) then as_poll k i rd (t + length bs) p1
     else case input_complete (as_inp i p1) of
         Too_big inp \<Rightarrow> Some (snd (as_stuck (as_set_inp i inp p1)))
       | More inp \<Rightarrow> as_poll k i rd (t + length bs) (as_set_inp i inp p1)
       | Ready inp \<Rightarrow> as_poll k i rd (t + length bs) (as_dispatch k i (as_set_inp i inp p1)))"
    by (rule as_input_loop_round)
qed (simp_all add: as_dispatch_simps as_inp_def as_set_inp_def as_stuck_def server_delivers_def
    async_server_simps, simp_all add: as_dispatch_simps [unfolded as_inp_def])

section \<open>Messages\<close>

text \<open>
  The specification of the loop: while it has not ended the server takes a whole frame of client
  \<open>i\<close>. One that does not fit, or that cannot be handled, ends it.
\<close>

definition async_server_deliver ::
    "('i, 'o) codec \<Rightarrow> nat \<Rightarrow> byte \<times> byte list \<Rightarrow> ('u, 'i, 'o) as_state \<Rightarrow> ('u, 'i, 'o) as_state" where
  "async_server_deliver k i f p =
     (let inp = ka_input (sa_clients (snd p) i)
      in if fst p then p
         else if i_cap inp < header_sizeof + length (snd f)
         then (True, as_set_input i (input_oversized f inp) (snd p))
         else
           (let (res, s) = as_handle_message k i (fst f) (as_set_input i (input_loaded f inp) (snd p))
            in if res = 0 then (False, as_client_reset_input i s) else (True, s)))"

lemma asv_deliver_eq: "asv.deliver i k = async_server_deliver k i"
  by (intro ext) (simp add: asv.deliver_def async_server_deliver_def as_inp_def as_set_inp_def as_stuck_def
      as_dispatch_def input_loaded_type async_server_simps Let_def case_prod_unfold)

text \<open>For a client that is between two messages the loop handles whatever stream of well-formed frames
  arrives frame by frame, in order, and returns, however the framework hands it out in pieces; a
  frame that is too big or cannot be handled is the last one.\<close>

lemma async_server_handles_frames:
  assumes "input_fresh (ka_input (sa_clients s i))"
    "\<forall>f \<in> set fs. length (snd f) < 2 ^ 24" "server_delivers rd (concat (map frame fs))"
  shows "as_on_stcp_client_input rd k i s = Some (snd (fold (async_server_deliver k i) fs (False, s)))"
  using asv.poll_frames [of rd fs "(False, s)" i k] assms
  by (simp add: as_on_stcp_client_input_def as_poll_def as_inp_def asv_deliver_eq)

section \<open>What the template leaves out\<close>

lemma as_init_client_simps [async_server_simps]:
  "sa_on_client_connected (as_init_client bufs sz i s) = sa_on_client_connected s"
  "sa_on_client_disconnected (as_init_client bufs sz i s) = sa_on_client_disconnected s"
  "sa_connected (as_init_client bufs sz i s) = sa_connected s"
  "sa_current (as_init_client bufs sz i s) = sa_current s" "sa_log (as_init_client bufs sz i s) = sa_log s"
  "ka_server (sa_clients (as_init_client bufs sz i s) j) = ka_server (sa_clients s j)"
  by (simp_all add: as_init_client_def async_server_simps)

lemma as_init_clients_simps [async_server_simps]:
  "sa_on_client_connected (fold (as_init_client bufs sz) is s) = sa_on_client_connected s"
  "sa_on_client_disconnected (fold (as_init_client bufs sz) is s) = sa_on_client_disconnected s"
  "sa_connected (fold (as_init_client bufs sz) is s) = sa_connected s"
  "sa_current (fold (as_init_client bufs sz) is s) = sa_current s"
  "sa_log (fold (as_init_client bufs sz) is s) = sa_log s"
  "ka_server (sa_clients (fold (as_init_client bufs sz) is s) j) = ka_server (sa_clients s j)"
  by (induction "is" arbitrary: s) (simp_all add: async_server_simps)

text \<open>\<open>NAME_server_init\<close> of the async server leaves fields as the memory was that the rest of the
  template relies on: the pointer from each client to the server, the callbacks for connecting and
  disconnecting clients, the current client and the list of connected clients. On memory that was
  cleared, the first client that connects makes the server follow \<open>NULL\<close>, also when both callbacks
  were given; and a broadcast reaches nobody, however many clients have been added.\<close>

theorem async_server_init_incomplete:
  assumes "async_server_init uri n bufs sz buf wi wo onc ond msgs s = (0, s')"
    "\<not> ka_server (sa_clients s i)" "sa_connected s = None"
  shows "sa_on_client_connected s' = sa_on_client_connected s \<and>
    sa_on_client_disconnected s' = sa_on_client_disconnected s \<and> sa_current s' = sa_current s \<and>
    sa_fault (as_on_stcp_client_connected k i s') \<and>
    sa_calls (async_server_broadcast k s') = sa_calls s'"
proof -
  obtain address prt where "messi_parse_tcp_uri uri 16 = Some (address, prt)"
    using assms(1) by (fastforce simp: async_server_init_def split: option.splits)
  then have s': "sa_on_client_connected s' = sa_on_client_connected s"
    "sa_on_client_disconnected s' = sa_on_client_disconnected s" "sa_current s' = sa_current s"
    "sa_connected s' = None" "\<not> ka_server (sa_clients s' i)"
    using assms by (auto simp: async_server_init_def async_server_simps Let_def)
  have "sa_calls (async_server_broadcast k s') = sa_calls s'"
    using s'(4)
    by (cases "sa_max s'")
      (auto simp: async_server_broadcast_def as_encode_user_message_def Let_def split: option.split)
  then show ?thesis
    using s' by (simp add: as_on_stcp_client_connected_def async_server_simps Let_def)
qed

text \<open>A server on cleared memory, and the same with the missing fields filled in.\<close>

definition async_echo_struct :: "(nat, byte list, byte list) async_server" where
  "async_echo_struct =
     \<lparr>sa_address = [], sa_port = 0, sa_on_client_connected = None, sa_on_client_disconnected = None,
      sa_on_message = (\<lambda>n. None), sa_current = None, sa_connected = None, sa_free = None, sa_pending = None,
      sa_input_buffer_size = 0, sa_in_message = None, sa_in_workspace_size = 0, sa_out_message = None,
      sa_out_workspace_size = 0, sa_out_buf = [], sa_out_size = 0, sa_max = 0,
      sa_clients = (\<lambda>i. \<lparr>ka_server = False, ka_input = \<lparr>i_buf = [], i_cap = 0, i_size = 0, i_left = 0,
        i_state = Header, i_overrun = False\<rparr>, ka_next = None, ka_prev = None\<rparr>),
      sa_app = 0, sa_calls = [], sa_log = [], sa_fault = False, sa_hang = False\<rparr>"

definition async_echo_init :: "int \<times> (nat, byte list, byte list) async_server" where
  "async_echo_init =
     async_server_init ''tcp://127.0.0.1:6000'' 2 (replicate 32 0) 16 (replicate 12 0) 64 64
       (Some as_on_client_default) (Some as_on_client_default) [(0, None), (1, Some echo)] async_echo_struct"

definition async_echo_linked :: "(nat, byte list, byte list) async_server" where
  "async_echo_linked = as_on_stcp_client_connected echo_codec 0
     (as_upd 0 (\<lambda>c. c\<lparr>ka_server := True\<rparr>)
       ((snd async_echo_init)\<lparr>sa_on_client_connected := Some as_on_client_default,
         sa_on_client_disconnected := Some as_on_client_default\<rparr>))"

lemma async_server_init_incomplete_witness:
  "fst async_echo_init = 0 \<and> sa_fault (as_on_stcp_client_connected echo_codec 0 (snd async_echo_init))"
proof
  show init: "fst async_echo_init = 0" by code_simp
  then show "sa_fault (as_on_stcp_client_connected echo_codec 0 (snd async_echo_init))"
    using async_server_init_incomplete [of "''tcp://127.0.0.1:6000''" 2 "replicate 32 0" 16 "replicate 12 0" 64 64
        "Some as_on_client_default" "Some as_on_client_default" "[(0, None), (1, Some echo)]"
        async_echo_struct "snd async_echo_init" 0 echo_codec]
    by (simp add: async_echo_init_def async_echo_struct_def prod_eq_iff)
qed

lemma async_echo_linked_fields:
  "ka_server (sa_clients async_echo_linked 0)"
  "ka_input (sa_clients async_echo_linked 0) =
     \<lparr>i_buf = replicate 16 0, i_cap = 16, i_size = 0, i_left = 4, i_state = Header, i_overrun = False\<rparr>"
  "sa_fault async_echo_linked = False" "sa_log async_echo_linked = [Client_connected 0]"
  by code_simp+

section \<open>A server that never serves\<close>

text \<open>
  What can happen to the server once it has been set up, in any order: a client connects,
  disconnects or sends bytes, or the application calls a function.
\<close>

datatype 'o async_server_event =
    Client_connects nat
  | Client_disconnects nat
  | Client_sends nat async_server_reads
  | Application_calls "'o server_request"

fun async_server_step ::
    "('i, 'o) codec \<Rightarrow> 'o async_server_event \<Rightarrow> ('u, 'i, 'o) async_server \<Rightarrow> ('u, 'i, 'o) async_server option" where
  "async_server_step k (Client_connects i) s = Some (as_on_stcp_client_connected k i s)"
| "async_server_step k (Client_disconnects i) s = Some (as_on_stcp_client_disconnected k i s)"
| "async_server_step k (Client_sends i rd) s = as_on_stcp_client_input rd k i s"
| "async_server_step k (Application_calls r) s = Some (async_server_call k r s)"

primrec async_server_run ::
    "('i, 'o) codec \<Rightarrow> 'o async_server_event list \<Rightarrow> ('u, 'i, 'o) async_server \<Rightarrow>
     ('u, 'i, 'o) async_server option" where
  "async_server_run k [] s = Some s"
| "async_server_run k (ev # evs) s = Option.bind (async_server_step k ev s) (async_server_run k evs)"

text \<open>What every step of the receiving loop keeps, the loop keeps.\<close>

lemma as_input_loop_keeps:
  assumes "as_input_loop rd k i t s = Some s'" "P s"
    and set_input: "\<And>s inp. P s \<Longrightarrow> P (as_set_input i inp s)"
    and handle: "\<And>s ty. P s \<Longrightarrow> P (snd (as_handle_message k i ty s))"
    and reset: "\<And>s. P s \<Longrightarrow> P (as_client_reset_input i s)"
  shows "P s'"
proof -
  have "k' = k \<longrightarrow> i' = i \<longrightarrow> P s \<longrightarrow> P s'" if "as_input_loop rd k' i' t s = Some s'" for rd k' i' t s s'
  proof (rule as_input_loop.raw_induct
      [where P = "\<lambda>rd k' i' t s s'. k' = k \<longrightarrow> i' = i \<longrightarrow> P s \<longrightarrow> P s'", OF _ that], goal_cases)
    case (1 loop rd k' i' t s s')
    show ?case
    proof (intro impI)
      assume [simp]: "k' = k" "i' = i" and p: "P s"
      have IH: "loop rd k i t2 s2 = Some s' \<Longrightarrow> P s2 \<Longrightarrow> P s'" for t2 s2
        using 1(1) by blast
      let ?bs = "rd (sa_calls s) t (i_left (ka_input (sa_clients s i)))"
      have handled: "P s'" if "P s2" "(let (res, s4) = as_handle_message k i ty s2
          in if res = 0 then loop rd k i t2 (as_client_reset_input i s4) else Some s4) = Some s'" for s2 ty t2
        using that(2) IH [OF _ reset [OF handle [OF that(1), of ty]]] handle [OF that(1), of ty]
        by (auto simp: case_prod_unfold Let_def split: if_splits)
      show "P s'"
        using 1(2) p handled [OF set_input [OF set_input [OF p]]] IH [OF _ set_input [OF set_input [OF p]]]
          IH [OF _ set_input [OF p]] set_input [OF set_input [OF p]]
        by (auto simp only: Let_def prod.case if_True if_False not_True_eq_False not_False_eq_True
            option.inject \<open>k' = k\<close> \<open>i' = i\<close> split: if_splits)
    qed
  qed
  then show ?thesis using assms(1,2) by blast
qed

text \<open>
  No client points to the server, the application was told \<open>L\<close>, and if \<open>f\<close> a pointer to nowhere
  has been followed.
\<close>

definition unserved :: "'i server_event list \<Rightarrow> bool \<Rightarrow> ('u, 'i, 'o) async_server \<Rightarrow> bool" where
  "unserved L f s \<longleftrightarrow> (\<forall>i. \<not> ka_server (sa_clients s i)) \<and> sa_log s = L \<and> (f \<longrightarrow> sa_fault s)"

lemma as_broadcast_quiet [async_server_simps]:
  "sa_log (as_broadcast_loop n p buf s) = sa_log s" "sa_fault (as_broadcast_loop n p buf s) = sa_fault s"
  by (induction n arbitrary: p s) (auto simp: async_server_simps Let_def split: option.split)

lemma encode_quiet [async_server_simps]:
  "sa_log (snd (as_encode_user_message k s)) = sa_log s"
  "sa_fault s \<Longrightarrow> sa_fault (snd (as_encode_user_message k s))"
  by (simp_all add: as_encode_user_message_def Let_def split: option.split)

lemma send_quiet [async_server_simps]:
  "sa_log (async_server_send k i s) = sa_log s" "sa_fault s \<Longrightarrow> sa_fault (async_server_send k i s)"
  by (simp_all add: async_server_send_def async_server_simps case_prod_unfold split: option.split)

lemma server_call_quiet [async_server_simps]:
  "sa_log (async_server_call k r s) = sa_log s" "sa_fault s \<Longrightarrow> sa_fault (async_server_call k r s)"
  by (cases r; simp add: async_server_init_message_def async_server_new_output_message_def
      async_server_reply_def async_server_broadcast_def async_server_disconnect_def async_server_simps
      Let_def case_prod_unfold split: option.split)+

lemma unserved_call: "unserved L f s \<Longrightarrow> unserved L f (async_server_call k r s)"
  by (simp add: unserved_def async_server_simps)

lemma unserved_input: "unserved L f s \<Longrightarrow> unserved L f (as_set_input i inp s)"
  by (simp add: unserved_def as_set_input_def async_server_simps)

lemma unserved_reset: "unserved L f s \<Longrightarrow> unserved L f (as_client_reset_input i s)"
  by (simp add: unserved_def as_client_reset_input_def async_server_simps)

lemma unserved_handle: "unserved L f s \<Longrightarrow> unserved L f (snd (as_handle_message k i ty s))"
  by (simp add: unserved_def as_handle_message_def as_handle_message_user_def as_handle_message_ping_def
      async_server_simps Let_def)

lemma unserved_step:
  assumes "unserved L f s" "async_server_step k ev s = Some s'"
  shows "unserved L (f \<or> (\<exists>i. ev = Client_connects i \<or> ev = Client_disconnects i)) s'"
proof (cases ev)
  case (Client_sends i rd)
  then have "as_input_loop rd k i 0 s = Some s'" using assms(2) by (simp add: as_on_stcp_client_input_def)
  then have "unserved L f s'"
    by (rule as_input_loop_keeps [of _ _ _ _ _ _ "unserved L f"])
      (use assms(1) unserved_input unserved_handle unserved_reset in blast)+
  then show ?thesis using Client_sends by simp
next
  case (Application_calls r)
  then show ?thesis using assms unserved_call [of L f s k r] by auto
qed (use assms in \<open>auto simp: unserved_def as_on_stcp_client_connected_def as_on_stcp_client_disconnected_def
    async_server_simps Let_def\<close>)

lemma unserved_run:
  assumes "unserved L f s" "async_server_run k evs s = Some s'"
  shows "unserved L (f \<or> (\<exists>i. Client_connects i \<in> set evs \<or> Client_disconnects i \<in> set evs)) s'"
  using assms
proof (induction evs arbitrary: f s)
  case Nil
  then show ?case by (simp add: unserved_def)
next
  case (Cons ev evs)
  then obtain s1 where "async_server_step k ev s = Some s1" "async_server_run k evs s1 = Some s'"
    by (cases "async_server_step k ev s") auto
  from Cons.IH [OF unserved_step [OF Cons.prems(1) this(1)] this(2)] show ?case
    by (rule back_subst) auto
qed

text \<open>C38: The async server that the template describes never serves anybody. \<open>NAME_server_init\<close> leaves
  \<open>server_p\<close> of the clients as their memory was; on cleared memory the application is never told
  anything, neither of a client nor of a message, whatever callbacks it has given, whatever clients
  send and whatever it calls, and as soon as a client connects or disconnects the server has
  followed \<open>NULL\<close>.\<close>

theorem async_server_never_serves:
  assumes "async_server_init uri n bufs sz buf wi wo onc ond msgs s = (0, s1)"
    "\<forall>i. \<not> ka_server (sa_clients s i)" "async_server_run k evs s1 = Some s2"
  shows "sa_log s2 = sa_log s \<and>
    ((\<exists>i. Client_connects i \<in> set evs \<or> Client_disconnects i \<in> set evs) \<longrightarrow> sa_fault s2)"
proof -
  have "unserved (sa_log s) False s1"
    using assms(1,2) by (auto simp: unserved_def async_server_init_def async_server_simps Let_def split: option.splits)
  from unserved_run [OF this assms(3)] show ?thesis by (simp add: unserved_def)
qed

lemma async_server_never_serves_witness:
  "\<exists>s. async_server_run echo_codec
      [Client_sends 1 (\<lambda>h t n. take n (drop t (frame (1, [5, 7])))), Client_connects 0] (snd async_echo_init) = Some s \<and>
    sa_log s = [] \<and> sa_fault s"
proof -
  let ?rd = "\<lambda>h t n. take n (drop t (frame (1, [5, 7])))"
  have z: "i_left (ka_input (sa_clients (snd async_echo_init) 1)) = 0" by code_simp
  have "as_on_stcp_client_input ?rd echo_codec 1 (snd async_echo_init) = Some (snd async_echo_init)"
    unfolding as_on_stcp_client_input_def by (subst as_input_loop.simps) (simp add: z [simplified])
  then have "async_server_run echo_codec [Client_sends 1 ?rd, Client_connects 0] (snd async_echo_init) =
      Some (as_on_stcp_client_connected echo_codec 0 (snd async_echo_init))"
    by simp
  moreover have "async_server_init ''tcp://127.0.0.1:6000'' 2 (replicate 32 0) 16 (replicate 12 0) 64 64
      (Some as_on_client_default) (Some as_on_client_default) [(0, None), (1, Some echo)] async_echo_struct =
      (0, snd async_echo_init)"
    using async_server_init_incomplete_witness by (simp add: async_echo_init_def prod_eq_iff)
  ultimately show ?thesis
    using async_server_never_serves [of _ _ _ _ _ _ _ _ _ _ async_echo_struct "snd async_echo_init" echo_codec
        "[Client_sends 1 ?rd, Client_connects 0]"]
    by (auto simp: async_echo_struct_def)
qed


text \<open>A message that is announced as too big stays in the input state of its client, because the code
  that would disconnect the client is commented out. The next bytes the client sends are stored
  behind the end of its input memory, which is that of the next client.\<close>

theorem async_server_overruns_after_too_big:
  "\<exists>s s'. as_on_stcp_client_input (\<lambda>h t n. take n (drop t [1, 0, 0, 13])) echo_codec 0 async_echo_linked = Some s \<and>
     \<not> i_overrun (ka_input (sa_clients s 0)) \<and> async_server_disconnect (Some 0) s = s \<and>
     as_on_stcp_client_input (\<lambda>h t n. take n (drop t (replicate 13 0))) echo_codec 0 s = Some s' \<and>
     i_overrun (ka_input (sa_clients s' 0))"
proof -
  let ?p = "(False, async_echo_linked)"
  let ?i = "\<lparr>i_buf = [1, 0, 0, 13] @ replicate 12 0, i_cap = 16, i_size = 4, i_left = 13,
     i_state = Header, i_overrun = False\<rparr>"
  let ?s = "as_set_input 0 ?i async_echo_linked" and ?bs = "replicate 13 (0 :: byte)"
  let ?j = "(input_read ?bs ?i)\<lparr>i_left := 13\<rparr>"
  have "input_complete (input_read [1, 0, 0, 13] (as_inp 0 ?p)) = Too_big ?i"
    by (simp add: as_inp_def async_echo_linked_fields input_complete_def input_read_def buf_write_def
        input_header_def header_at_def messi_header_get_size_def header_sizeof_def Let_def)
  then have "as_poll echo_codec 0 (\<lambda>h t n. take n (drop t [1, 0, 0, 13])) 0 ?p = Some ?s"
    by (subst as_input_loop_round [where bs = "[1, 0, 0, 13]", OF _ _ _ refl])
      (simp_all add: as_inp_def as_set_inp_def as_stuck_def async_echo_linked_fields
        async_server_simps)
  then have 1: "as_on_stcp_client_input (\<lambda>h t n. take n (drop t [1, 0, 0, 13])) echo_codec 0 async_echo_linked = Some ?s"
    by (simp add: as_on_stcp_client_input_def as_poll_def)
  have "input_complete (input_read ?bs ?i) = Too_big ?j"
    by (simp add: input_complete_def input_read_def buf_write_def input_header_def
        header_at_def messi_header_get_size_def header_sizeof_def Let_def)
  then have "as_poll echo_codec 0 (\<lambda>h t n. take n (drop t ?bs)) 0 (False, ?s) = Some (as_set_input 0 ?j ?s)"
    by (subst as_input_loop_round [where bs = ?bs, OF _ _ _ refl])
      (simp_all add: as_inp_def as_set_inp_def as_stuck_def async_echo_linked_fields
        async_server_simps)
  then have 2: "as_on_stcp_client_input (\<lambda>h t n. take n (drop t ?bs)) echo_codec 0 ?s = Some (as_set_input 0 ?j ?s)"
    by (simp add: as_on_stcp_client_input_def as_poll_def)
  have "i_overrun ?j" by (simp add: input_read_def)
  then show ?thesis
    using 1 2 by (auto simp: async_server_disconnect_def async_server_simps)
qed

end
