(* ===== verification/EndToEnd.thy ===== *)
theory EndToEnd
  imports LinuxClientBehaviour LinuxServerDelivery
begin

text \<open>
  The client and the server together: what one application sends with the functions of one side is
  what the application on the other side is told, whatever the network makes of the bytes.
\<close>

section \<open>Two codecs\<close>

text \<open>
  What the receiver gets out of a message of the sender: the bytes the sender's generated code makes
  of it, decoded by the receiver's.
\<close>

definition transfer :: "('a, 'm) codec \<Rightarrow> ('x, 'b) codec \<Rightarrow> nat \<Rightarrow> nat \<Rightarrow> 'm \<Rightarrow> (byte list \<times> 'x) option" where
  "transfer k k' n ws m =
     (case (out_encode k (Some m) n, in_new k' ws) of
        (Some bs, Some x0) \<Rightarrow>
          (let (res, x) = in_decode k' x0 bs in if res = int (length bs) then Some (bs, x) else None)
      | _ \<Rightarrow> None)"

lemma transferD:
  assumes "transfer k k' n ws m = Some (bs, x)"
  obtains x0 where "out_encode k (Some m) n = Some bs" "in_new k' ws = Some x0" "in_decode k' x0 bs = (int (length bs), x)"
  using assms by (auto simp: transfer_def Let_def split: option.splits prod.splits if_splits)

definition transferred :: "('a, 'm) codec \<Rightarrow> ('x, 'b) codec \<Rightarrow> nat \<Rightarrow> nat \<Rightarrow> 'm list \<Rightarrow> (byte list \<times> 'x) list \<Rightarrow> bool" where
  "transferred k k' n ws ms xs \<longleftrightarrow> map (transfer k k' n ws) ms = map Some xs"

lemma transferred_simps [simp]:
  "transferred k k' n ws [] xs \<longleftrightarrow> xs = []"
  "transferred k k' n ws (m # ms) (x # xs) \<longleftrightarrow> transfer k k' n ws m = Some x \<and> transferred k k' n ws ms xs"
  "transferred k k' n ws (m # ms) [] = False"
  by (auto simp: transferred_def)

lemma transferred_Cons:
  "transferred k k' n ws (m # ms) ys \<longleftrightarrow>
     (\<exists>x xs. ys = x # xs \<and> transfer k k' n ws m = Some x \<and> transferred k k' n ws ms xs)"
  by (cases ys) auto

lemma transferred_short:
  assumes "transferred k k' n ws ms xs" "codec_fits k" "x \<in> set xs"
  shows "length (fst x) \<le> n"
  using assms
proof (induction ms arbitrary: xs)
  case (Cons m ms)
  obtain y ys where y: "xs = y # ys" "transfer k k' n ws m = Some y" "transferred k k' n ws ms ys"
    using Cons.prems(1) by (auto simp: transferred_Cons)
  have "length (fst y) \<le> n"
    using y(2) Cons.prems(2) by (cases y) (auto simp: codec_fits_def elim: transferD)
  then show ?case using Cons.IH [OF y(3) Cons.prems(2)] Cons.prems(3) y(1) by auto
qed simp

section \<open>From the client to the server\<close>

text \<open>The application prepares a message and sends it.\<close>

definition client_say :: "('i, 'o) codec \<Rightarrow> 'o \<Rightarrow> ('u, 'i, 'o) client \<Rightarrow> ('u, 'i, 'o) client" where
  "client_say k m c = client_send k (client_init_message k (\<lambda>_. m) c)"

definition client_can_send :: "('i, 'o) codec \<Rightarrow> ('u, 'i, 'o) client \<Rightarrow> bool" where
  "client_can_send k c \<longleftrightarrow> codec_fits k \<and> out_new k (c_out_workspace_size c) \<noteq> None \<and>
     c_out_size c = length (c_out_buf c) \<and> header_sizeof \<le> c_out_size c \<and> c_out_size c \<le> 2 ^ 24 \<and>
     client_alive c \<and> wscript (c_sys c) = []"

lemma client_say_effect:
  assumes "client_can_send k c" "out_encode k (Some m) (c_out_size c - header_sizeof) = Some payload"
    "f = frame (MESSI_MESSAGE_TYPE_CLIENT_TO_SERVER_USER, payload)"
  shows "client_can_send k (client_say k m c)" "c_out_size (client_say k m c) = c_out_size c"
    "c_server_fd (client_say k m c) = c_server_fd c"
    "tx (c_sys (client_say k m c)) (c_server_fd c) = tx (c_sys c) (c_server_fd c) @ f"
    "c_out_message (client_say k m c) = Some m" "c_pending_disconnect (client_say k m c) = c_pending_disconnect c"
    "fds (c_sys (client_say k m c)) = fds (c_sys c)"
proof -
  let ?c = "client_init_message k (\<lambda>_. m) c"
  obtain m0 where "out_new k (c_out_workspace_size c) = Some m0"
    using assms(1) by (auto simp: client_can_send_def)
  then have c: "?c = c\<lparr>c_out_message := Some m\<rparr>"
    by (simp add: client_init_message_def client_new_output_message_def Let_def)
  let ?os = "(c_sys c)\<lparr>tx := (tx (c_sys c))(c_server_fd c := tx (c_sys c) (c_server_fd c) @ f)\<rparr>"
  have w: "sys_write (c_server_fd c) f (c_sys c) = (Inr (length f), ?os)"
    using assms(1) by (simp add: client_can_send_def client_alive_def sys_write_def)
  have fits: "length payload \<le> c_out_size c - header_sizeof" "length f = header_sizeof + length payload"
    using assms by (auto simp: client_can_send_def codec_fits_def)
  have eq: "client_say k m c = c\<lparr>c_out_message := Some m, c_out_buf := buf_write 0 f (c_out_buf c), c_sys := ?os\<rparr>"
    using client_send_eq [of k ?c] assms w
    by (simp add: client_say_def client_can_send_def c Let_def)
  show "client_can_send k (client_say k m c)" "c_out_size (client_say k m c) = c_out_size c"
    "c_server_fd (client_say k m c) = c_server_fd c"
    "tx (c_sys (client_say k m c)) (c_server_fd c) = tx (c_sys c) (c_server_fd c) @ f"
    "c_out_message (client_say k m c) = Some m" "c_pending_disconnect (client_say k m c) = c_pending_disconnect c"
    "fds (c_sys (client_say k m c)) = fds (c_sys c)"
    using assms(1) fits by (auto simp: eq client_can_send_def client_alive_def buf_write_def)
qed

lemma client_send_app: "client_send k (c\<lparr>c_app := u\<rparr>) = (client_send k c)\<lparr>c_app := u\<rparr>"
  by (simp add: client_send_def cl_pending_disconnect_def cl_close_fd_def cl_close_def cl_epoll_ctl_del_def
      Let_def split: option.split prod.split)

lemma client_say_app: "client_say k m (c\<lparr>c_app := u\<rparr>) = (client_say k m c)\<lparr>c_app := u\<rparr>"
proof -
  have "client_init_message k f (c\<lparr>c_app := u\<rparr>) = (client_init_message k f c)\<lparr>c_app := u\<rparr>" for f
    by (simp add: client_init_message_def client_new_output_message_def Let_def split: option.split)
  then show ?thesis by (simp add: client_say_def client_send_app)
qed

lemma client_say_same_app: "c_app (client_say k m c) = c_app c"
proof -
  have "c_app (client_send k c) = c_app c" for c :: "('a, 'b, 'c) client"
    by (simp add: client_send_def cl_pending_disconnect_def cl_close_fd_def cl_close_def cl_epoll_ctl_del_def
        Let_def split: option.split prod.split)
  then show ?thesis
    by (simp add: client_say_def client_init_message_def client_new_output_message_def Let_def split: option.split)
qed

lemma client_says:
  assumes "client_can_send k c" "transferred k k' (c_out_size c - header_sizeof) ws ms xs"
  shows "tx (c_sys (fold (client_say k) ms c)) (c_server_fd c) = tx (c_sys c) (c_server_fd c) @
    concat (map (\<lambda>x. frame (MESSI_MESSAGE_TYPE_CLIENT_TO_SERVER_USER, fst x)) xs)"
  using assms
proof (induction ms arbitrary: c xs)
  case (Cons m ms)
  obtain x ys where x: "xs = x # ys" "transfer k k' (c_out_size c - header_sizeof) ws m = Some x"
    "transferred k k' (c_out_size c - header_sizeof) ws ms ys"
    using Cons.prems(2) by (auto simp: transferred_Cons)
  have "out_encode k (Some m) (c_out_size c - header_sizeof) = Some (fst x)"
    using x(2) by (cases x) (auto elim: transferD)
  note e = client_say_effect [OF Cons.prems(1) this refl]
  show ?case using Cons.IH [OF e(1), unfolded e(2,3), OF x(3)] by (simp add: e(4) x(1))
qed simp

lemma transferred_events:
  assumes "transferred k k' n (s_in_workspace_size s) ms xs"
    "\<forall>x \<in> set xs. s_on_message s (in_choice k' (snd x)) \<noteq> None"
  shows "concat (map (message_events k' i s) (take j (map (\<lambda>x. (MESSI_MESSAGE_TYPE_CLIENT_TO_SERVER_USER, fst x)) xs))) =
    map (\<lambda>x. Client_message i (in_choice k' (snd x)) (snd x)) (take j xs)"
  using assms
proof (induction ms arbitrary: xs j)
  case (Cons m ms)
  obtain x ys where x: "xs = x # ys" "transfer k k' n (s_in_workspace_size s) m = Some x"
    "transferred k k' n (s_in_workspace_size s) ms ys"
    using Cons.prems(1) by (auto simp: transferred_Cons)
  have "message_events k' i s (MESSI_MESSAGE_TYPE_CLIENT_TO_SERVER_USER, fst x) =
      [Client_message i (in_choice k' (snd x)) (snd x)]"
    using x(2) Cons.prems(2) x(1) by (cases x) (auto simp: message_events_def elim!: transferD)
  then show ?case using Cons.IH [OF x(3)] Cons.prems(2) x(1) by (cases j) auto
qed simp

text \<open>C4: What the application of a connected client sends is what the application of the server is
  told: the same messages, in the same order, each exactly once, also when the bytes that the
  client's kernel has taken reach the server in other pieces. Only when the server gives the
  client up in between (one of its callbacks may ask for that) are the last ones missing.\<close>

theorem client_to_server:
  assumes "client_can_send k c" "server_fresh i s"
    "transferred k k' (c_out_size c - header_sizeof) (s_in_workspace_size s) ms xs"
    "\<forall>x \<in> set xs. s_on_message s (in_choice k' (snd x)) \<noteq> None"
    "tx (c_sys (fold (client_say k) ms c)) (c_server_fd c) = tx (c_sys c) (c_server_fd c) @ arrived as"
    "s' = sv_process_client_socket_in k' i as s"
  shows "\<exists>n \<le> length ms. s_log s' = s_log s @
      map (\<lambda>x. Client_message i (in_choice k' (snd x)) (snd x)) (take n xs) \<and>
    (sv_receiving i s' \<longrightarrow> n = length ms)"
proof -
  let ?fs = "map (\<lambda>x. (MESSI_MESSAGE_TYPE_CLIENT_TO_SERVER_USER, fst x)) xs"
  have arr: "arrived as = concat (map frame ?fs)"
    using assms(5) client_says [OF assms(1,3)] by (simp add: comp_def)
  have "length (fst x) < 2 ^ 24" if "x \<in> set xs" for x
    using transferred_short [OF assms(3) _ that] assms(1)
    by (auto simp: client_can_send_def header_sizeof_def)
  then have short: "\<forall>f \<in> set ?fs. length (snd f) < 2 ^ 24" by auto
  have len: "length xs = length ms"
    using arg_cong [OF assms(3) [unfolded transferred_def], of length] by simp
  show ?thesis
    using server_frames_log [OF assms(2) short arr assms(6)]
    by (simp add: transferred_events [OF assms(3,4)] len) blast
qed

text \<open>The two demonstrations speak the same protocol: a client that is connected, and its server.\<close>

definition two_messages :: "(byte list \<times> byte list) list" where
  "two_messages = [([5, 7], [5, 7]), ([3], [3])]"

lemma demo_can_send: "client_can_send demo_codec demo_up"
proof -
  have "codec_fits demo_codec"
    by (auto simp: codec_fits_def demo_codec_def split: option.splits if_splits)
  then show ?thesis
    by (simp add: client_can_send_def demo_up_fields client_alive_def header_sizeof_def)
      (simp add: demo_codec_def)
qed

lemma echo_two_fields:
  "s_in_workspace_size echo_two = 64" "s_on_message echo_two = echo_callbacks" "s_out_size echo_two = 12"
  "s_out_workspace_size echo_two = 64" "s_log echo_two = [Client_connected 0, Client_connected 1]"
  by (simp_all add: echo_two_def echo_up_def)

lemma client_to_server_witness:
  "\<exists>n \<le> 2. s_log (sv_process_client_socket_in echo_codec 0
       [Chunk [1, 0], Chunk [0, 2, 5, 7, 1, 0, 0, 1], Chunk [3]] echo_two) =
     s_log echo_two @ map (\<lambda>x. Client_message 0 (in_choice echo_codec (snd x)) (snd x)) (take n two_messages)"
proof -
  have t: "transferred demo_codec echo_codec (c_out_size demo_up - header_sizeof) (s_in_workspace_size echo_two)
      [[5, 7], [3]] two_messages"
    by (simp add: two_messages_def transfer_def demo_codec_def echo_codec_def demo_up_fields header_sizeof_def)
  have "tx (c_sys (fold (client_say demo_codec) [[5, 7], [3]] demo_up)) (c_server_fd demo_up) =
      tx (c_sys demo_up) (c_server_fd demo_up) @ arrived [Chunk [1, 0], Chunk [0, 2, 5, 7, 1, 0, 0, 1], Chunk [3]]"
    using client_says [OF demo_can_send t]
    by (simp add: two_messages_def frame_def header_bytes_def messi_header_create_def messi_header_set_size_def
        MESSI_MESSAGE_TYPE_CLIENT_TO_SERVER_USER_def)
  note r = client_to_server [OF demo_can_send echo_two_fresh(1) t _ this refl]
  have "\<forall>x \<in> set two_messages. s_on_message echo_two (in_choice echo_codec (snd x)) \<noteq> None"
    by (simp add: two_messages_def echo_two_fields echo_callbacks_def echo_codec_def)
  from r [OF this] obtain n where "n \<le> length [[5 :: byte, 7], [3]]"
    "s_log (sv_process_client_socket_in echo_codec 0
       [Chunk [1, 0], Chunk [0, 2, 5, 7, 1, 0, 0, 1], Chunk [3]] echo_two) =
     s_log echo_two @ map (\<lambda>x. Client_message 0 (in_choice echo_codec (snd x)) (snd x)) (take n two_messages)"
    by blast
  then show ?thesis by (intro exI [of _ n]) simp
qed

section \<open>From the server to a client\<close>

definition server_say :: "('i, 'o) codec \<Rightarrow> nat \<Rightarrow> 'o \<Rightarrow> ('u, 'i, 'o) server \<Rightarrow> ('u, 'i, 'o) server" where
  "server_say k i m s = server_send k i (server_init_message k (\<lambda>_. m) s)"

definition server_can_send :: "fd set \<Rightarrow> nat list \<Rightarrow> nat list \<Rightarrow> nat list \<Rightarrow> ('i, 'o) codec \<Rightarrow> ('u, 'i, 'o) server \<Rightarrow> bool" where
  "server_can_send A cs ps fs k s \<longleftrightarrow> sv_flows A cs ps fs s \<and> sv_buffers_ok s \<and> server_codec_ok k s"

lemma server_say_effect:
  assumes "server_can_send A cs ps fs k s" "i \<in> set cs"
    "out_encode k (Some m) (s_out_size s - header_sizeof) = Some payload"
    "f = frame (MESSI_MESSAGE_TYPE_SERVER_TO_CLIENT_USER, payload)"
  shows "server_can_send A cs ps fs k (server_say k i m s)" "s_out_size (server_say k i m s) = s_out_size s"
    "sv_stream (server_say k i m s) i = sv_stream s i @ f"
    "\<And>j. j \<in> set cs \<Longrightarrow> j \<noteq> i \<Longrightarrow> sv_stream (server_say k i m s) j = sv_stream s j"
    "sv_cfg (server_say k i m s) = sv_cfg s" "s_app (server_say k i m s) = s_app s"
    "k_input (s_clients (server_say k i m s) j) = k_input (s_clients s j)"
proof -
  let ?s = "s\<lparr>s_out_message := Some m\<rparr>"
  obtain m0 where "out_new k (s_out_workspace_size s) = Some m0"
    using assms(1) by (auto simp: server_can_send_def server_codec_ok_def)
  then have say: "server_say k i m s = server_send k i ?s"
    by (simp add: server_say_def server_init_message_def server_new_output_message_def Let_def)
  have ok: "sv_buffers_ok ?s" "codec_fits k"
    using assms(1) by (simp_all add: server_can_send_def sv_buffers_ok_def server_codec_ok_def)
  have flows: "sv_flows A cs ps fs (?s\<lparr>s_out_buf := buf\<rparr>)" for buf
    using assms(1) by (simp add: server_can_send_def sv_flows_def)
  obtain buf where e: "server_send k i ?s = sv_client_write i f (?s\<lparr>s_out_buf := buf\<rparr>)"
    "length buf = length (s_out_buf s)"
    using ok
  proof (cases rule: encode_good_cases)
    case (some payload' buf)
    then show ?thesis using that [of buf] assms(3,4) by (simp add: server_send_def)
  qed (use assms(3) in simp)
  have "f \<noteq> []" by (simp add: assms(4) frame_not_empty)
  note w = flows_write [OF flows [of buf] assms(2) this, folded e(1), folded say]
  have q: "sv_quiet (?s\<lparr>s_out_buf := buf\<rparr>) (server_say k i m s)" unfolding say e(1) by simp
  then show cfg: "sv_cfg (server_say k i m s) = sv_cfg s" and "s_app (server_say k i m s) = s_app s"
    and "k_input (s_clients (server_say k i m s) j) = k_input (s_clients s j)"
    using sv_obsD(1) [of "server_say k i m s" "?s\<lparr>s_out_buf := buf\<rparr>"] by (simp_all add: sv_quiet_def)
  have cfg: "sv_cfg (server_say k i m s) = sv_cfg s" "s_out_buf (server_say k i m s) = buf"
    using cfg q sv_obsD(4) [of "server_say k i m s" "?s\<lparr>s_out_buf := buf\<rparr>"] by (simp_all add: sv_quiet_def)
  show "server_can_send A cs ps fs k (server_say k i m s)"
    using w(1) [OF assms(2)] assms(1) cfg(2) e(2) sv_cfgD [OF cfg(1)]
    by (simp add: server_can_send_def sv_buffers_ok_def server_codec_ok_def)
  show "s_out_size (server_say k i m s) = s_out_size s" using sv_cfgD [OF cfg(1)] by simp
  show "sv_stream (server_say k i m s) i = sv_stream s i @ f"
    using w(2) [OF assms(2)] by (simp add: sv_stream_def)
  show "sv_stream (server_say k i m s) j = sv_stream s j" if "j \<in> set cs" "j \<noteq> i" for j
    using w(2) [OF that(1)] that(2) by (simp add: sv_stream_def)
qed

lemma server_says:
  assumes "server_can_send A cs ps fs k s" "i \<in> set cs"
    "transferred k k' (s_out_size s - header_sizeof) ws ms xs"
  shows "sv_stream (fold (server_say k i) ms s) i = sv_stream s i @
    concat (map (\<lambda>x. frame (MESSI_MESSAGE_TYPE_SERVER_TO_CLIENT_USER, fst x)) xs)"
  using assms(1,3)
proof (induction ms arbitrary: s xs)
  case (Cons m ms)
  obtain x ys where x: "xs = x # ys" "transfer k k' (s_out_size s - header_sizeof) ws m = Some x"
    "transferred k k' (s_out_size s - header_sizeof) ws ms ys"
    using Cons.prems(2) by (auto simp: transferred_Cons)
  have "out_encode k (Some m) (s_out_size s - header_sizeof) = Some (fst x)"
    using x(2) by (cases x) (auto elim: transferD)
  note e = server_say_effect [OF Cons.prems(1) assms(2) this refl]
  show ?case using Cons.IH [OF e(1), unfolded e(2), OF x(3)] by (simp add: e(3) x(1))
qed simp

lemma transferred_received:
  assumes "transferred k k' n ws ms xs" "\<forall>x \<in> set xs. om (in_choice k' (snd x)) \<noteq> None"
  shows "concat (map (user_events k' ws om) (take j (map (\<lambda>x. (MESSI_MESSAGE_TYPE_SERVER_TO_CLIENT_USER, fst x)) xs))) =
    map (\<lambda>x. Received (in_choice k' (snd x)) (snd x)) (take j xs)"
  using assms
proof (induction ms arbitrary: xs j)
  case (Cons m ms)
  obtain x ys where x: "xs = x # ys" "transfer k k' n ws m = Some x" "transferred k k' n ws ms ys"
    using Cons.prems(1) by (auto simp: transferred_Cons)
  have "user_events k' ws om (MESSI_MESSAGE_TYPE_SERVER_TO_CLIENT_USER, fst x) =
      [Received (in_choice k' (snd x)) (snd x)]"
    using x(2) Cons.prems(2) x(1) by (cases x) (auto simp: user_events_def elim!: transferD)
  then show ?case using Cons.IH [OF x(3)] Cons.prems(2) x(1) by (cases j) auto
qed simp

text \<open>C5: What the application of the server sends to a client is what the application of the client is
  told: the same messages, in the same order, each exactly once, also when some of them had to be
  queued because the kernel took less than it was offered, and in whatever pieces the bytes of
  the client's stream arrive. Only when the client gives up the connection in between (one of its
  callbacks may do that) are the last ones missing.\<close>

theorem server_to_client:
  assumes "server_can_send A cs ps fs k s" "i \<in> set cs" "client_fresh c"
    "transferred k k' (s_out_size s - header_sizeof) (c_in_workspace_size c) ms xs"
    "\<forall>x \<in> set xs. c_on_message c (in_choice k' (snd x)) \<noteq> None" "s_out_size s \<le> 2 ^ 24"
    "sv_stream (fold (server_say k i) ms s) i = sv_stream s i @ arrived as"
    "c' = cl_process_socket k' as c"
  shows "\<exists>n \<le> length ms. c_log c' = c_log c @ map (\<lambda>x. Received (in_choice k' (snd x)) (snd x)) (take n xs) \<and>
    (client_alive c' \<longrightarrow> n = length ms)"
proof -
  let ?fs = "map (\<lambda>x. (MESSI_MESSAGE_TYPE_SERVER_TO_CLIENT_USER, fst x)) xs"
  have arr: "arrived as = concat (map frame ?fs)"
    using assms(7) server_says [OF assms(1,2,4)] by (simp add: comp_def)
  have buf: "codec_fits k" "header_sizeof \<le> s_out_size s"
    using assms(1) by (simp_all add: server_can_send_def server_codec_ok_def sv_buffers_ok_def)
  have "length (fst x) < 2 ^ 24" if "x \<in> set xs" for x
    using transferred_short [OF assms(4) buf(1) that] assms(6) buf(2) by (simp add: header_sizeof_def)
  then have short: "\<forall>f \<in> set ?fs. length (snd f) < 2 ^ 24" by auto
  have len: "length xs = length ms"
    using arg_cong [OF assms(4) [unfolded transferred_def], of length] by simp
  show ?thesis
    using client_frames_log [OF assms(3) short arr assms(8)]
    by (simp add: transferred_received [OF assms(4,5)] len) blast
qed

lemma echo_slow_can_send: "server_can_send {0, 1, 2, 3, 4} [1, 0] [] [] echo_codec echo_slow"
  using echo_slow_inv echo_smooth(1) echo_ok(1,2)
  by (simp add: server_can_send_def sv_flows_def server_codec_ok_def sv_buffers_ok_def header_sizeof_def)
    (simp add: echo_slow_def echo_two_def echo_up_def)

lemma server_to_client_witness:
  "\<exists>n \<le> 2. c_log (cl_process_socket demo_codec [Chunk [2, 0, 0, 2, 5], Chunk [7, 2, 0, 0, 1, 3]] demo_up) =
     c_log demo_up @ map (\<lambda>x. Received (in_choice demo_codec (snd x)) (snd x)) (take n two_messages)"
proof -
  have f: "s_out_size echo_slow = 12" "c_in_workspace_size demo_up = 64"
    by (simp add: echo_slow_def echo_two_fields) code_simp
  have t: "transferred echo_codec demo_codec (s_out_size echo_slow - header_sizeof) (c_in_workspace_size demo_up)
      [[5, 7], [3]] two_messages"
    by (simp add: two_messages_def transfer_def demo_codec_def echo_codec_def f header_sizeof_def)
  have "sv_stream (fold (server_say echo_codec 0) [[5, 7], [3]] echo_slow) 0 =
      sv_stream echo_slow 0 @ arrived [Chunk [2, 0, 0, 2, 5], Chunk [7, 2, 0, 0, 1, 3]]"
    using server_says [OF echo_slow_can_send _ t, of 0]
    by (simp add: two_messages_def frame_def header_bytes_def messi_header_create_def messi_header_set_size_def
        MESSI_MESSAGE_TYPE_SERVER_TO_CLIENT_USER_def)
  note r = server_to_client [OF echo_slow_can_send _ demo_up_fresh(1) t _ _ this refl]
  have "c_on_message demo_up 1 \<noteq> None" by code_simp
  then have "\<forall>x \<in> set two_messages. c_on_message demo_up (in_choice demo_codec (snd x)) \<noteq> None"
    by (simp add: two_messages_def demo_codec_def)
  from r [OF _ this] obtain n where "n \<le> length [[5 :: byte, 7], [3]]"
    "c_log (cl_process_socket demo_codec [Chunk [2, 0, 0, 2, 5], Chunk [7, 2, 0, 0, 1, 3]] demo_up) =
     c_log demo_up @ map (\<lambda>x. Received (in_choice demo_codec (snd x)) (snd x)) (take n two_messages)"
    by (auto simp: f)
  then show ?thesis by (intro exI [of _ n]) simp
qed

end
