(* ===== verification/LinuxServerInputs.thy ===== *)
theory LinuxServerInputs
  imports LinuxServerLifecycle
begin

text \<open>
  The input buffers of all clients of the linux server, in every state it can reach: each client
  has its part of the memory given to \<open>NAME_server_init\<close>, and the buffer of a connected client is
  well formed, so that the properties of its receiving loop always apply.
\<close>

section \<open>Well-formed inputs\<close>

text \<open>
  \<open>fs\<close> are the free clients, whose sockets and positions in the buffer are left over from earlier
  connections. A client whose disconnection is pending has no socket.
\<close>

definition sv_typed :: "nat \<Rightarrow> nat list \<Rightarrow> ('u, 'i, 'o) server \<Rightarrow> bool" where
  "sv_typed n fs s \<longleftrightarrow> (\<forall>i < s_max s. input_mem n (k_input (s_clients s i)) \<and>
     (i \<notin> set fs \<longrightarrow> k_fd (s_clients s i) = - 1 \<or> input_ok (k_input (s_clients s i))))"

lemma typed_keeps: "sv_typed n fs s \<Longrightarrow> sv_keeps s s' \<Longrightarrow> sv_typed n fs s'"
  by (auto simp: sv_typed_def sv_keeps_def sv_sockets_def sv_cfgD(10) [of s' s]) metis

lemma typed_quiet: "sv_typed n fs s \<Longrightarrow> sv_quiet s s' \<Longrightarrow> sv_typed n fs s'"
  by (rule typed_keeps [OF _ sv_quiet_keeps])

lemma typed_subset: "sv_typed n fs s \<Longrightarrow> set fs \<subseteq> set fs' \<Longrightarrow> sv_typed n fs' s"
  by (auto simp: sv_typed_def)

lemma good_socket:
  assumes "sv_good A fs s" "i < s_max s" "i \<notin> set fs"
  shows "k_fd (s_clients s i) = - 1 \<or> sv_receiving i s"
proof -
  obtain cs ps where inv: "sv_inv A s cs ps fs" using assms(1) by (auto simp: sv_good_def)
  then have "i \<in> set cs \<or> i \<in> set ps" using assms(2,3) sv_active_iff [OF inv, of i] by (simp add: sv_active_def)
  then show ?thesis
    using inv sv_fdsD(2,5) unfolding sv_inv_def sv_receiving_def by metis
qed

lemma good_no_minus: "sv_good A fs s \<Longrightarrow> sv_no_minus s"
  using sv_fdsD(11) unfolding sv_good_def sv_inv_def sv_no_minus_def by blast

text \<open>What the loop of one client does to the others.\<close>

definition sv_others :: "nat \<Rightarrow> ('u, 'i, 'o) server \<Rightarrow> ('u, 'i, 'o) server \<Rightarrow> bool" where
  "sv_others i s s' \<longleftrightarrow> sv_sockets s s' \<and> sv_cfg s' = sv_cfg s \<and>
     (\<forall>j. j \<noteq> i \<longrightarrow> k_input (s_clients s' j) = k_input (s_clients s j))"

lemma others_keeps: "sv_others i s s' \<Longrightarrow> sv_keeps s' s'' \<Longrightarrow> sv_others i s s''"
  by (auto simp: sv_others_def sv_keeps_def intro: sv_sockets_trans)

lemma process_in_others:
  fixes s :: "('u, 'i, 'o) server"
  shows "sv_others i s (sv_process_client_socket_in k i as s)"
proof (rule process_in_keeps [where P = "sv_others i s"])
  show "sv_others i s s" by (simp add: sv_others_def)
  show "sv_others i s (sv_set_input i inp t)" if "sv_others i s t" for inp t
    using that by (simp add: sv_others_def sv_sockets_def sv_set_input_def sv_upd_def)
  show "sv_others i s (sv_client_pending_disconnect i t)" if "sv_others i s t" for t
    using that sv_quiet_keeps [OF sv_quiet_ops(1) [OF sv_quiet_refl]] by (rule others_keeps)
  show "sv_others i s (snd (sv_handle_message k i ty t))" if "sv_others i s t" for ty t
    using that handle_message_keeps by (rule others_keeps)
qed

lemma typed_process_in:
  assumes "sv_typed n fs s" "sv_no_minus s" "i < s_max s" "i \<notin> set fs"
    "sv_good A fs (sv_process_client_socket_in k i as s)"
  shows "sv_typed n fs (sv_process_client_socket_in k i as s)"
proof (cases "sv_receiving i s")
  case False
  then show ?thesis
    using typed_quiet [OF assms(1) sv_quiet_ops(1) [OF sv_quiet_refl]] by (simp add: process_in_dead)
next
  case True
  let ?s = "sv_process_client_socket_in k i as s"
  note o = process_in_others [of i s k as]
  have mem: "input_mem n (k_input (s_clients s i))" using assms(1,3) by (simp add: sv_typed_def)
  have "k_fd (s_clients s i) \<noteq> - 1" using True assms(2) by (auto simp: sv_receiving_def sv_no_minus_def)
  then have "server_sound i s" using assms True by (auto simp: sv_typed_def server_sound_def)
  then have sound: "svr.sound i s" by (rule server_sound_svr)
  have "input_mem n (k_input (s_clients ?s i))"
    using svr.loop_mem [where i = i and s = s and k = k, OF sound mem] .
  moreover have "k_fd (s_clients ?s i) = - 1 \<or> input_ok (k_input (s_clients ?s i))"
  proof (cases "sv_receiving i ?s")
    case True
    then show ?thesis
      using svr.loop_ends [where i = i and s = s and k = k and as = as, OF sound]
      by (auto simp: svr.sound_def server_simps)
  next
    case False
    then show ?thesis using good_socket [OF assms(5) _ assms(4)] sv_cfgD(10) [of ?s s] o assms(3)
      by (simp add: sv_others_def)
  qed
  moreover have "input_mem n (k_input (s_clients ?s j)) \<and>
      (j \<notin> set fs \<longrightarrow> k_fd (s_clients ?s j) = - 1 \<or> input_ok (k_input (s_clients ?s j)))"
    if "j < s_max s" "j \<noteq> i" for j
    using assms(1) o that by (auto simp: sv_typed_def sv_others_def sv_sockets_def) metis
  ultimately have "input_mem n (k_input (s_clients ?s j)) \<and>
      (j \<notin> set fs \<longrightarrow> k_fd (s_clients ?s j) = - 1 \<or> input_ok (k_input (s_clients ?s j)))"
    if "j < s_max s" for j
    using that by (cases "j = i") blast+
  moreover have "s_max ?s = s_max s" using sv_cfgD(10) [of ?s s] o by (simp add: sv_others_def)
  ultimately show ?thesis by (simp add: sv_typed_def)
qed

lemma typed_event:
  assumes "sv_typed n fs s" "sv_good A fs s" "i < s_max s" "i \<notin> set fs"
    "sv_good A fs (sv_client_event k i d events as s)"
  shows "sv_typed n fs (sv_client_event k i d events as s)"
proof (cases "d = k_fd (s_clients s i)")
  case False
  then show ?thesis
    using typed_quiet [OF assms(1) sv_quiet_ops(1) [OF sv_quiet_refl]]
    by (simp add: sv_client_event_def sv_process_client_keep_alive_timer_def)
next
  case True
  define s1 where "s1 = (if events AND EPOLLOUT \<noteq> 0 then sv_process_client_socket_out i s else s)"
  have q: "sv_quiet s s1" by (simp add: s1_def)
  have eq: "sv_client_event k i d events as s =
      (if events AND EPOLLIN \<noteq> 0 then sv_process_client_socket_in k i as s1 else s1)"
    using True by (simp add: sv_client_event_def sv_process_client_socket_def s1_def Let_def)
  have "sv_no_minus s1" by (rule keeps_no_minus [OF sv_quiet_keeps [OF q] good_no_minus [OF assms(2)]])
  moreover have "s_max s1 = s_max s" using sv_cfgD(10) [of s1 s] q by (simp add: sv_quiet_def)
  ultimately show ?thesis
    using typed_process_in [OF typed_quiet [OF assms(1) q], where i = i and k = k and as = as] assms(3-5)
      typed_quiet [OF assms(1) q]
    by (auto simp: eq split: if_splits)
qed

text \<open>Disconnections are completed without touching the buffers.\<close>

lemma destroy_loop_keeps: "sv_keeps s (sv_destroy_loop k n p s)"
proof (induction n arbitrary: p s)
  case (Suc n)
  show ?case
  proof (cases p)
    case (Some i)
    let ?s2 = "sv_upd i (\<lambda>c. c\<lparr>k_timer := - 1\<rparr>) (sv_close_fd (k_timer (s_clients s i)) s)"
    let ?s3 = "sv_callback k (s_on_client_disconnected ?s2 i) (Client_disconnected i) ?s2"
    have "sv_keeps s ?s2"
      by (auto simp: sv_keeps_def sv_sockets_def sv_upd_def server_simps close_fd_shrinks)
    then have s3: "sv_keeps s ?s3" using callback_keeps by (rule sv_keeps_trans)
    have "s_sys (sv_free_pending_disconnect_client i ?s3) = s_sys ?s3"
      using remove_client_frame(5) [of "s_pending ?s3" i ?s3]
      by (simp add: sv_free_pending_disconnect_client_def case_prod_unfold Let_def)
    then have "sv_keeps ?s3 (sv_free_pending_disconnect_client i ?s3)"
      by (simp add: sv_keeps_def sv_sockets_def server_simps)
    then show ?thesis using s3 Suc.IH Some by (simp add: Let_def) (metis sv_keeps_trans)
  qed simp
qed (simp add: sv_keeps_def sv_sockets_def)

lemma destroy_keeps: "sv_keeps s (sv_destroy_pending_disconnect_clients k s)"
  unfolding sv_destroy_pending_disconnect_clients_def by (rule destroy_loop_keeps)

section \<open>A new client\<close>

text \<open>The listener only touches the first free client; its input is reset before anything can fail.\<close>

lemma client_init_input:
  "k_input (s_clients (snd (sv_client_init i d s)) j) =
     (if j = i then input_reset (k_input (s_clients s i)) else k_input (s_clients s j))"
  "j \<noteq> i \<Longrightarrow> k_fd (s_clients (snd (sv_client_init i d s)) j) = k_fd (s_clients s j)"
  "s_log (snd (sv_client_init i d s)) = s_log s"
  by (auto simp: sv_client_init_def sv_client_reset_input_def sv_upd_def input_reset_def Let_def
      sv_client_start_keep_alive_timer_def sv_epoll_ctl_add_def sv_client_init_out1_def sv_client_init_out2_def
      sv_epoll_ctl_del_def sv_close_def split: prod.split)

lemma listener_inputs:
  assumes "s' = sv_process_listener k s"
  shows "k_input (s_clients s' j) = k_input (s_clients s j) \<or> k_input (s_clients s' j) = input_reset (k_input (s_clients s j))"
    "s_free s \<noteq> Some j \<Longrightarrow> k_input (s_clients s' j) = k_input (s_clients s j) \<and>
      (k_fd (s_clients s' j) = k_fd (s_clients s j) \<or> k_fd (s_clients s' j) = - 1)"
    "s_log s' \<noteq> s_log s \<Longrightarrow> s_free s = Some j \<Longrightarrow> k_input (s_clients s' j) = input_reset (k_input (s_clients s j))"
proof -
  obtain d os1 where acc: "sys_accept (s_listener_fd s) (s_sys s) = (d, os1)" by fastforce
  obtain r2 os2 where nb: "messi_make_non_blocking d os1 = (r2, os2)" by fastforce
  obtain r3 os3 where so: "sys_setsockopt d os2 = (r3, os3)" by fastforce
  define s1 where "s1 = s\<lparr>s_sys := os3\<rparr>"
  obtain p s2 where al: "sv_alloc_client s1 = (p, s2)" by fastforce
  have step: "s' =
      (if d = - 1 then s\<lparr>s_sys := os1\<rparr>
       else if r2 = - 1 then s\<lparr>s_sys := sys_close d os2\<rparr>
       else if r3 \<noteq> 0 then s\<lparr>s_sys := sys_close d os3\<rparr>
       else case p of
         None \<Rightarrow> sv_close d s2
       | Some i \<Rightarrow> (let (res, s3) = sv_client_init i d s2
           in if res \<noteq> 0 then sv_close d (sv_free_connected_client i s3)
              else sv_callback k (s_on_client_connected s3 i) (Client_connected i) s3))"
    by (simp add: assms sv_process_listener_def acc nb so sv_process_listener_out1_def
        sv_process_listener_out2_def sv_close_def s1_def [symmetric] al split: prod.split option.split) (simp add: s1_def)
  have free: "p = s_free s"
    using al by (auto simp: sv_alloc_client_def s1_def Let_def split: option.splits)
  have s2: "k_input (s_clients s2 j) = k_input (s_clients s j)" "k_fd (s_clients s2 j) = k_fd (s_clients s j)"
    "s_log s2 = s_log s" for j
    using al by (auto simp: sv_alloc_client_def s1_def sv_upd_def Let_def split: option.splits)
  have "(k_input (s_clients s' j) = k_input (s_clients s j) \<and> s_log s' = s_log s \<and>
        (k_fd (s_clients s' j) = k_fd (s_clients s j) \<or> k_fd (s_clients s' j) = - 1)) \<or>
      (\<exists>i. s_free s = Some i \<and>
        k_input (s_clients s' j) = (if j = i then input_reset (k_input (s_clients s i)) else k_input (s_clients s j)) \<and>
        (j \<noteq> i \<longrightarrow> k_fd (s_clients s' j) = k_fd (s_clients s j) \<or> k_fd (s_clients s' j) = - 1))" for j
  proof (cases "d = - 1 \<or> r2 = - 1 \<or> r3 \<noteq> 0 \<or> p = None")
    case True
    then show ?thesis using s2 by (auto simp: step sv_close_def)
  next
    case False
    then obtain i where i: "p = Some i" by auto
    obtain res s3 where init: "sv_client_init i d s2 = (res, s3)" by fastforce
    have c: "k_input (s_clients s3 j) = (if j = i then input_reset (k_input (s_clients s i)) else k_input (s_clients s j))"
      "j \<noteq> i \<Longrightarrow> k_fd (s_clients s3 j) = k_fd (s_clients s j)"
      using client_init_input(1) [where i = i and d = d and s = s2 and j = j]
        client_init_input(2) [where i = i and d = d and s = s2 and j = j] s2
      by (simp_all add: init)
    let ?cb = "sv_callback k (s_on_client_connected s3 i) (Client_connected i) s3"
    have s': "s' = (if res \<noteq> 0 then sv_close d (sv_free_connected_client i s3) else ?cb)"
      using False i init by (simp add: step)
    have "sv_keeps s3 ?cb" by (rule callback_keeps)
    then have "k_input (s_clients ?cb j) = k_input (s_clients s3 j)"
      "k_fd (s_clients ?cb j) = k_fd (s_clients s3 j) \<or> k_fd (s_clients ?cb j) = - 1"
      by (simp_all add: sv_keeps_def sv_sockets_def)
    then show ?thesis
      using c free i by (intro disjI2 exI [of _ i]) (auto simp: s' sv_close_def server_simps)
  qed
  then show "k_input (s_clients s' j) = k_input (s_clients s j) \<or> k_input (s_clients s' j) = input_reset (k_input (s_clients s j))"
    "s_free s \<noteq> Some j \<Longrightarrow> k_input (s_clients s' j) = k_input (s_clients s j) \<and>
      (k_fd (s_clients s' j) = k_fd (s_clients s j) \<or> k_fd (s_clients s' j) = - 1)"
    "s_log s' \<noteq> s_log s \<Longrightarrow> s_free s = Some j \<Longrightarrow> k_input (s_clients s' j) = input_reset (k_input (s_clients s j))"
    by (metis option.inject)+
qed

lemma typed_listener:
  assumes "sv_typed n fs s" "header_sizeof \<le> n" "sv_lists s cs ps fs" "s' = sv_process_listener k s" "sv_cfg s' = sv_cfg s"
    "fs' = fs \<and> s_log s' = s_log s \<or> (\<exists>i. fs = i # fs' \<and> s_log s' = s_log s @ [Client_connected i])"
  shows "sv_typed n fs' s'"
proof -
  note l = listener_inputs [OF assms(4)]
  have m: "s_max s' = s_max s" using sv_cfgD [OF assms(5)] by simp
  have free: "s_free s = hd_ptr fs" using assms(3) lseg_hd by (auto simp: sv_lists_def)
  have mem: "input_mem n (k_input (s_clients s' j))" if "j < s_max s" for j
    using assms(1) l(1) [of j] that by (auto simp: sv_typed_def)
  have ok: "k_fd (s_clients s' j) = - 1 \<or> input_ok (k_input (s_clients s' j))" if "j < s_max s" "j \<notin> set fs'" for j
  proof (cases "s_free s = Some j")
    case True
    then have "fs \<noteq> []" "hd fs = j" using free by (auto simp: hd_ptr_def split: list.splits)
    then have "s_log s' \<noteq> s_log s" using assms(6) that(2) hd_in_set [of fs] by auto
    then have "k_input (s_clients s' j) = input_reset (k_input (s_clients s j))" using l(3) True by blast
    then show ?thesis
      using input_mem_fresh [OF _ assms(2)] assms(1) that(1) by (auto simp: sv_typed_def input_fresh_def)
  next
    case False
    then have "j \<notin> set fs" using assms(6) that(2) free by (auto simp: hd_ptr_def)
    then show ?thesis using l(2) [OF False] assms(1) that(1) by (auto simp: sv_typed_def)
  qed
  show ?thesis using mem ok by (simp add: sv_typed_def m)
qed

section \<open>Runs\<close>

definition sv_ready_typed :: "nat \<Rightarrow> fd set \<Rightarrow> ('u, 'i, 'o) server \<Rightarrow> bool" where
  "sv_ready_typed n A s \<longleftrightarrow> (\<exists>fs. sv_good A fs s \<and> s_current s = None \<and> sv_typed n fs s)"

lemma typed_process:
  assumes "sv_ready_typed n A s" "header_sizeof \<le> n" "server_codec_ok k s" "server_app_ok s"
    "events AND EPOLLOUT = 0 \<or> soft_writes (s_sys s)"
  shows "sv_ready_typed n A (server_process k d events as s)"
proof -
  obtain fs where t: "sv_good A fs s" "s_current s = None" "sv_typed n fs s"
    using assms(1) by (auto simp: sv_ready_typed_def)
  obtain cs ps where inv: "sv_inv A s cs ps fs" and buf: "sv_buffers_ok s" using t(1) by (auto simp: sv_good_def)
  have "\<exists>s1 fs1. server_process k d events as s = sv_destroy_pending_disconnect_clients k s1 \<and>
      sv_good A fs1 s1 \<and> s_current s1 = None \<and> sv_cfg s1 = sv_cfg s \<and> sv_typed n fs1 s1"
    using inv
  proof (cases rule: process_cases [where k = k and d = d and events = events and as = as])
    case listener
    obtain fs1 where l: "sv_good A fs1 (sv_process_listener k s)" "s_current (sv_process_listener k s) = None"
      "sv_cfg (sv_process_listener k s) = sv_cfg s"
      "fs1 = fs \<and> s_log (sv_process_listener k s) = s_log s \<or>
       (\<exists>i. fs = i # fs1 \<and> s_log (sv_process_listener k s) = s_log s @ [Client_connected i])"
      by (rule listener_inv [OF inv buf t(2) assms(3,4)])
    then show ?thesis
      using typed_listener [OF t(3) assms(2) sv_inv_lists [OF inv] refl l(3,4)] listener(2) by blast
  next
    case (client i)
    have act: "i < s_max s" "i \<notin> set fs" using client(2) sv_active_iff [OF inv, of i] by (simp_all add: sv_active_def)
    note e = client_event_good [OF t(1,2) assms(3-5) inv client(2) refl, of d as]
    then show ?thesis using typed_event [OF t(3,1) act e(1)] client(4) by blast
  next
    case nobody
    then show ?thesis using t by blast
  qed
  then obtain s1 fs1 where s1: "server_process k d events as s = sv_destroy_pending_disconnect_clients k s1"
    "sv_good A fs1 s1" "s_current s1 = None" "sv_cfg s1 = sv_cfg s" "sv_typed n fs1 s1" by blast
  obtain cs1 ps1 where inv1: "sv_inv A s1 cs1 ps1 fs1" using s1(2) by (auto simp: sv_good_def)
  note d = destroy_pending_good [OF inv1 s1(2,3), of k, unfolded sv_cfg_ok [OF s1(4)], OF assms(3,4) s1(1)]
  have "sv_typed n (rev ps1 @ fs1) (server_process k d events as s)"
    unfolding s1(1) by (rule typed_subset [OF typed_keeps [OF s1(5) destroy_keeps]]) simp
  then show ?thesis using d(2,3) by (auto simp: sv_ready_typed_def)
qed

lemma typed_reach:
  assumes "server_reach k s0 s" "sv_ready_typed n A s0" "header_sizeof \<le> n" "server_codec_ok k s0" "server_app_ok s0"
  shows "sv_ready_typed n A s \<and> sv_cfg s = sv_cfg s0"
  using assms(1)
proof (induction rule: server_reach.induct)
  case start
  then show ?case using assms(2) by simp
next
  case (process s events d as)
  then have "server_ready A s" by (auto simp: sv_ready_typed_def server_ready_good)
  then show ?case
    using process typed_process [of n A s k events d as] server_process_inv(3) [of A s k events d as]
      assms(3-5) sv_cfg_ok [of s s0] by simp
next
  case (call s i r)
  obtain fs where t: "sv_good A fs s" "s_current s = None" "sv_typed n fs s"
    using call.IH by (auto simp: sv_ready_typed_def)
  have cfg: "sv_cfg s = sv_cfg s0" using call.IH by blast
  obtain cs ps where inv: "sv_inv A s cs ps fs" using t(1) by (auto simp: sv_good_def)
  have "i \<in> set cs"
    using call.hyps(2) lseg_unique sv_inv_lists [OF inv] by (auto simp: sv_in_use_def sv_lists_def)
  then have "sv_active fs s i" by (simp add: sv_active_iff [OF inv])
  then have "sv_good A fs (server_call k r s)"
    using server_call_good [OF t(1) _ _ call.hyps(3), of k] assms(4) sv_cfg_ok(2) [OF cfg] by simp
  moreover have "sv_typed n fs (server_call k r s)" by (rule typed_keeps [OF t(3) server_call_keeps])
  ultimately show ?case
    using t(2) cfg sv_keepsD(1) [OF server_call_keeps, of k r s] by (auto simp: sv_ready_typed_def)
next
  case (system s ms ws bs)
  let ?s = "s\<lparr>s_sys := (s_sys s)\<lparr>outcomes := bs, wscript := ws, mallocs := ms\<rparr>\<rparr>"
  have "sv_inv A ?s cs ps fs = sv_inv A s cs ps fs" for cs ps fs
    by (rule sv_inv_cong) (simp_all add: same_clients_def)
  then have "sv_good A fs ?s = sv_good A fs s" "sv_typed n fs ?s = sv_typed n fs s" for fs
    by (simp_all add: sv_good_def sv_buffers_ok_def sv_active_def sv_typed_def)
  then show ?case using system.IH by (simp add: sv_ready_typed_def)
qed

section \<open>Initialisation\<close>

lemma init_clients_input:
  assumes "m * sz \<le> length bufs" "j < m"
  shows "input_mem sz (k_input (fold (\<lambda>i. sv_init_client bufs sz (Some (i + 1)) i) [0..<m] c j))"
  using assms
proof (induction m)
  case (Suc m)
  have "m * sz + sz \<le> length bufs" using Suc.prems(1) by simp
  then show ?case
    using Suc by (auto simp: sv_init_client_def input_mem_def less_Suc_eq)
qed simp

lemma server_init_typed:
  assumes "server_init uri n bufs sz buf wi wo onc ond msgs e ctl s0 = (0, s)" "0 < n" "nat n * sz \<le> length bufs"
  shows "sv_typed sz [0..<nat n] s"
proof -
  let ?last = "nat (n - 1)"
  let ?c = "fold (\<lambda>i. sv_init_client bufs sz (Some (i + 1)) i) [0..<?last] (s_clients s0)"
  have s: "s_clients s = sv_init_client bufs sz None ?last ?c" "s_max s = nat n"
    using assms(1) by (auto simp: server_init_def Let_def split: option.splits)
  have n: "nat n = Suc ?last" using assms(2) by simp
  then have fit: "?last * sz + sz \<le> length bufs" using assms(3) by simp
  have "input_mem sz (k_input (s_clients s j))" if "j < Suc ?last" for j
  proof (cases "j = ?last")
    case True
    then show ?thesis using fit by (simp add: s(1) sv_init_client_def input_mem_def)
  next
    case False
    then show ?thesis
      using init_clients_input [of ?last sz bufs j "s_clients s0"] fit that by (simp add: s(1) sv_init_client_def)
  qed
  then show ?thesis by (simp add: sv_typed_def s(2) n)
qed

text \<open>C3: The clients of a started server are well formed in every state it can reach, whatever clients
  send and whichever calls fail, under the conditions of \<open>server_stays_safe\<close> (in particular no
  \<open>write\<close> fails for good while a queue is written for an \<open>EPOLLOUT\<close> event): each client has the part of the input memory it was given, of the
  size it was given, and no byte was ever stored outside of it. A connected client has an open
  socket, and its position in the current message is consistent: what has been read and what is
  left to read are a header, or exactly the message the header announces, which fits into the
  memory. The counters never wrap around, and the properties of the receiving loop apply to every
  connected client at any time.\<close>

theorem server_inputs_typed:
  assumes "server_init uri n bufs sz buf wi wo onc ond msgs e ctl s0 = (0, s1)"
    "server_start s1 = (0, s2)" "server_reach k s2 s"
    "0 < n" "\<forall>d \<in> set (fds (s_sys s0)). 0 \<le> d" "s_heap s0 = (\<lambda>a. None)"
    "header_sizeof \<le> length buf" "length buf < 2 ^ 64"
    "codec_fits k" "out_new k wo \<noteq> None" "server_app_ok s1"
    "header_sizeof \<le> sz" "nat n * sz \<le> length bufs"
  shows "(\<forall>i < nat n. input_mem sz (k_input (s_clients s i))) \<and> (\<forall>i. sv_in_use s i \<longrightarrow> server_sound i s)"
proof -
  let ?A = "insert (s_listener_fd s2) (set (fds (s_sys s0)))"
  note i = started_ready [OF assms(1,2,4-8)]
  have "s_max s1 = s_max s2" using server_init_ready(7) [OF assms(1,4-6)] i(4) by simp
  then have "sv_typed sz [0..<nat n] s2"
    using server_init_typed [OF assms(1,4,13)] by (simp add: i(13) sv_typed_def)
  then have "sv_ready_typed sz ?A s2" using i(9,10) by (auto simp: sv_ready_typed_def)
  from typed_reach [OF assms(3) this assms(12) i(11) [OF assms(9,10)] i(12) [OF assms(11)]]
  obtain fs where r: "sv_good ?A fs s" "sv_typed sz fs s" "sv_cfg s = sv_cfg s2" by (auto simp: sv_ready_typed_def)
  have m: "s_max s = nat n" using sv_cfgD(10) [OF r(3)] i(4) by simp
  obtain cs ps where inv: "sv_inv ?A s cs ps fs" using r(1) by (auto simp: sv_good_def)
  have "server_sound j s" if "sv_in_use s j" for j
  proof -
    have j: "j \<in> set cs"
      using that lseg_unique sv_inv_lists [OF inv] by (auto simp: sv_in_use_def sv_lists_def)
    then have "j < s_max s" "j \<notin> set fs" using sv_active_iff [OF inv, of j] by (simp_all add: sv_active_def)
    moreover have "k_fd (s_clients s j) \<noteq> - 1" "sv_receiving j s"
      using inv j sv_fdsD(2,9) unfolding sv_inv_def sv_receiving_def by blast+
    ultimately show ?thesis
      using r(2) good_no_minus [OF r(1)] by (auto simp: server_sound_def sv_typed_def)
  qed
  then show ?thesis using r(2) by (simp add: sv_typed_def m)
qed

lemma server_inputs_typed_witness:
  "let s = server_process echo_codec 5 EPOLLIN [Chunk [1, 255, 255, 255, 7, 7]] (server_process echo_codec 4 EPOLLIN [] echo_up)
   in \<not> i_overrun (k_input (s_clients s 0))"
proof -
  have r: "server_reach echo_codec echo_up (server_process echo_codec 5 EPOLLIN [Chunk [1, 255, 255, 255, 7, 7]]
      (server_process echo_codec 4 EPOLLIN [] echo_up))"
    by (intro server_reach.process server_reach.start) (simp_all add: EPOLLIN_def EPOLLOUT_def)
  have init: "server_init ''tcp://127.0.0.1:6000'' 2 (replicate 32 0) 16 (replicate 12 0) 64 64
       None None [(0, None), (1, Some echo)] 3 None echo_struct = (0, snd echo_init)"
    using echo_started(1) by (simp add: echo_init_def prod_eq_iff)
  show ?thesis
    unfolding Let_def
    using server_inputs_typed [OF init echo_started(2) r] echo_ok
    by (simp add: echo_struct_def echo_os_def header_sizeof_def input_mem_def)
qed

end
