(* ===== verification/Replies.thy ===== *)
theory Replies
  imports EndToEnd LinuxServerInputs
begin

text \<open>
  One message and the reaction of the application to it, on both sides: the callback is called
  with the decoded message, what it sends is appended to the stream of the connection, and the
  connection is ready for the next message.
\<close>

section \<open>A message for the server\<close>

text \<open>The payload fits, and is decoded as the message \<open>m\<close>.\<close>

definition server_gets :: "('i, 'o) codec \<Rightarrow> nat \<Rightarrow> 'i \<Rightarrow> byte list \<Rightarrow> ('u, 'i, 'o) server \<Rightarrow> bool" where
  "server_gets k i m payload s \<longleftrightarrow> header_sizeof + length payload \<le> i_cap (k_input (s_clients s i)) \<and>
     length payload < 2 ^ 24 \<and>
     (\<exists>m0. in_new k (s_in_workspace_size s) = Some m0 \<and> in_decode k m0 payload = (int (length payload), m))"

text \<open>The server when it calls the callback for the message \<open>m\<close>, and after the callback.\<close>

definition server_asked :: "nat \<Rightarrow> 'i \<Rightarrow> input \<Rightarrow> ('u, 'i, 'o) server \<Rightarrow> ('u, 'i, 'o) server" where
  "server_asked i m inp s = (sv_set_input i inp s)\<lparr>s_in_message := Some m, s_current := Some i\<rparr>"

definition server_served ::
    "('i, 'o) codec \<Rightarrow> (nat \<Rightarrow> 'i \<Rightarrow> 'u \<Rightarrow> 'u \<times> 'o server_request list) \<Rightarrow> nat \<Rightarrow> 'i \<Rightarrow> input \<Rightarrow>
     ('u, 'i, 'o) server \<Rightarrow> ('u, 'i, 'o) server" where
  "server_served k cb i m inp s =
     sv_callback k (cb i m) (Client_message i (in_choice k m) m) (server_asked i m inp s)"

abbreviation user_request :: "byte list \<Rightarrow> byte \<times> byte list" where
  "user_request payload \<equiv> (MESSI_MESSAGE_TYPE_CLIENT_TO_SERVER_USER, payload)"

abbreviation user_response :: "byte list \<Rightarrow> byte \<times> byte list" where
  "user_response payload \<equiv> (MESSI_MESSAGE_TYPE_SERVER_TO_CLIENT_USER, payload)"

lemma deliver_request:
  assumes "sv_receiving i s" "server_gets k i m payload s" "s_on_message s (in_choice k m) = Some cb"
    "inp = input_loaded (user_request payload) (k_input (s_clients s i))"
  shows "server_deliver k i (user_request payload) s =
    sv_client_reset_input i ((server_served k cb i m inp s)\<lparr>s_current := None\<rparr>)"
proof -
  obtain m0 where m0: "in_new k (s_in_workspace_size s) = Some m0" "in_decode k m0 payload = (int (length payload), m)"
    using assms(2) by (auto simp: server_gets_def)
  have pay: "i_size inp - header_sizeof = length payload"
    "take (length payload) (drop header_sizeof (i_buf inp)) = payload"
    using input_loaded_payload [of "user_request payload" "k_input (s_clients s i)"] by (simp_all add: assms(4))
  have set: "s_in_workspace_size (sv_set_input i inp s) = s_in_workspace_size s"
    "s_on_message (sv_set_input i inp s) = s_on_message s" "k_input (s_clients (sv_set_input i inp s) i) = inp"
    by (simp_all add: sv_set_input_def)
  have "sv_handle_message k i MESSI_MESSAGE_TYPE_CLIENT_TO_SERVER_USER (sv_set_input i inp s) =
      (0, (server_served k cb i m inp s)\<lparr>s_current := None\<rparr>)"
    using m0 assms(3) pay
    by (simp add: sv_handle_message_def sv_handle_message_user_def set Let_def server_served_def server_asked_def)
  then show ?thesis
    using assms(1,2) by (simp add: server_deliver_def server_gets_def assms(4) [symmetric])
qed

lemma set_input_inv:
  "sv_inv A (sv_set_input i inp s) cs ps fs = sv_inv A s cs ps fs"
  "sv_stream (sv_set_input i inp s) j = sv_stream s j"
  "s_log (sv_set_input i inp s) = s_log s" "sv_buffers_ok (sv_set_input i inp s) = sv_buffers_ok s"
  "s_out_size (sv_set_input i inp s) = s_out_size s" "s_app (sv_set_input i inp s) = s_app s"
  "s_out_buf (sv_set_input i inp s) = s_out_buf s"
  by (rule sv_inv_cong) (simp_all add: sv_set_input_def same_clients_def sv_stream_def sv_buffers_ok_def)

lemma asked_fields [simp]:
  "sv_stream (server_asked i m inp s) j = sv_stream s j" "sv_cfg (server_asked i m inp s) = sv_cfg s"
  "k_input (s_clients (server_asked i m inp s) i) = inp"
  by (simp_all add: server_asked_def sv_set_input_def sv_stream_def)

section \<open>The answers of the server\<close>

text \<open>Between two events, with the client \<open>i\<close> connected and ready for its next message.\<close>

definition server_serving :: "fd set \<Rightarrow> nat list \<Rightarrow> nat list \<Rightarrow> ('i, 'o) codec \<Rightarrow> nat \<Rightarrow> ('u, 'i, 'o) server \<Rightarrow> bool" where
  "server_serving A cs fs k i s \<longleftrightarrow> server_can_send A cs [] fs k s \<and> i \<in> set cs \<and>
     input_fresh (k_input (s_clients s i)) \<and> s_current s = None"

lemma serving_alive:
  assumes "server_serving A cs fs k i s"
  shows "sv_inv A s cs [] fs" "sv_no_minus s" "sv_receiving i s" "server_fresh i s"
proof -
  show inv: "sv_inv A s cs [] fs"
    using assms by (simp add: server_serving_def server_can_send_def sv_flows_def)
  have i: "i \<in> set cs" "input_fresh (k_input (s_clients s i))" using assms by (simp_all add: server_serving_def)
  show nm: "sv_no_minus s" and r: "sv_receiving i s"
    using inv i(1) sv_fdsD(2,11) unfolding sv_inv_def sv_no_minus_def sv_receiving_def by blast+
  show "server_fresh i s" using nm r i(2) by (simp add: server_fresh_def)
qed

text \<open>What only the callback changes.\<close>

lemma asked_simps:
  "server_can_send A cs ps fs k ((server_asked i m inp s)\<lparr>s_app := u, s_log := l\<rparr>) = server_can_send A cs ps fs k s"
  "sv_stream ((server_asked i m inp s)\<lparr>s_app := u, s_log := l\<rparr>) j = sv_stream s j"
  "sv_cfg ((server_asked i m inp s)\<lparr>s_app := u, s_log := l\<rparr>) = sv_cfg s"
  "s_out_size ((server_asked i m inp s)\<lparr>s_app := u, s_log := l\<rparr>) = s_out_size s"
  "k_input (s_clients ((server_asked i m inp s)\<lparr>s_app := u, s_log := l\<rparr>) i) = inp"
proof -
  have "sv_inv A ((server_asked i m inp s)\<lparr>s_app := u, s_log := l\<rparr>) cs ps fs = sv_inv A s cs ps fs"
    by (rule sv_inv_cong) (simp_all add: server_asked_def sv_set_input_def same_clients_def)
  then show "server_can_send A cs ps fs k ((server_asked i m inp s)\<lparr>s_app := u, s_log := l\<rparr>) = server_can_send A cs ps fs k s"
    by (simp add: server_can_send_def sv_flows_def sv_buffers_ok_def server_codec_ok_def server_asked_def sv_set_input_def)
  show "sv_stream ((server_asked i m inp s)\<lparr>s_app := u, s_log := l\<rparr>) j = sv_stream s j"
    "sv_cfg ((server_asked i m inp s)\<lparr>s_app := u, s_log := l\<rparr>) = sv_cfg s"
    "s_out_size ((server_asked i m inp s)\<lparr>s_app := u, s_log := l\<rparr>) = s_out_size s"
    "k_input (s_clients ((server_asked i m inp s)\<lparr>s_app := u, s_log := l\<rparr>) i) = inp"
    by (simp_all add: server_asked_def sv_set_input_def sv_stream_def)
qed

lemma reset_serving:
  assumes "server_can_send A cs [] fs k s" "i \<in> set cs" "k_input (s_clients s i) = input_loaded f inp" "input_fresh inp"
    "header_sizeof + length (snd f) \<le> i_cap inp" "s' = sv_client_reset_input i (s\<lparr>s_current := None\<rparr>)"
  shows "server_serving A cs fs k i s'" "s_app s' = s_app s" "sv_stream s' j = sv_stream s j" "sv_cfg s' = sv_cfg s"
    "i_cap (k_input (s_clients s' i)) = i_cap inp"
proof -
  have "sv_inv A s' cs [] fs = sv_inv A s cs [] fs"
    unfolding assms(6) reset_input_eq set_input_inv by (rule sv_inv_cong) (simp_all add: same_clients_def)
  then have "server_can_send A cs [] fs k s'"
    using assms(1) by (simp add: server_can_send_def sv_flows_def sv_buffers_ok_def server_codec_ok_def assms(6)
        reset_input_eq sv_set_input_def)
  moreover have "input_fresh (input_reset (input_loaded f inp))"
    using assms(4,5) by (auto simp: input_fresh_def input_ok_def intro!: input_reset_fresh)
  ultimately show "server_serving A cs fs k i s'"
    using assms(2) by (simp add: server_serving_def assms(3,6) reset_input_eq sv_set_input_def)
  show "s_app s' = s_app s" "sv_stream s' j = sv_stream s j" "sv_cfg s' = sv_cfg s"
    "i_cap (k_input (s_clients s' i)) = i_cap inp"
    by (simp_all add: assms(3,6) reset_input_eq sv_set_input_def sv_stream_def)
qed

text \<open>A callback that sends nothing, and one that replies with one message.\<close>

definition reply_bytes :: "('i, 'o) codec \<Rightarrow> nat \<Rightarrow> 'o option \<Rightarrow> byte list option" where
  "reply_bytes k n r =
     (case r of None \<Rightarrow> Some []
      | Some m \<Rightarrow> map_option (\<lambda>bs. frame (user_response bs)) (out_encode k (Some m) (n - header_sizeof)))"

definition reply_calls :: "'o option \<Rightarrow> 'o server_request list" where
  "reply_calls r = (case r of None \<Rightarrow> [] | Some m \<Rightarrow> [Prepare_message (\<lambda>_. m), Reply])"

lemma serve_request:
  assumes "server_serving A cs fs k i s" "server_gets k i m payload s"
    "s_on_message s (in_choice k m) = Some cb" "cb i m (s_app s) = (u, reply_calls r)"
    "reply_bytes k (s_out_size s) r = Some bs" "s' = server_deliver k i (user_request payload) s"
  shows "server_serving A cs fs k i s'" "s_app s' = u" "sv_stream s' i = sv_stream s i @ bs" "sv_cfg s' = sv_cfg s"
    "i_cap (k_input (s_clients s' i)) = i_cap (k_input (s_clients s i))" "k_fd (s_clients s' i) = k_fd (s_clients s i)"
proof -
  let ?inp = "input_loaded (user_request payload) (k_input (s_clients s i))"
  let ?t = "(server_asked i m ?inp s)\<lparr>s_app := u, s_log := s_log s @ [Client_message i (in_choice k m) m]\<rparr>"
  have s: "server_can_send A cs [] fs k s" "i \<in> set cs" "input_fresh (k_input (s_clients s i))"
    using assms(1) by (simp_all add: server_serving_def)
  have fit: "header_sizeof + length (snd (user_request payload)) \<le> i_cap (k_input (s_clients s i))"
    using assms(2) by (simp add: server_gets_def)
  have eq: "s' = sv_client_reset_input i ((server_served k cb i m ?inp s)\<lparr>s_current := None\<rparr>)"
    using deliver_request [OF serving_alive(3) [OF assms(1)] assms(2,3) refl] assms(6) by simp
  have call: "server_served k cb i m ?inp s = fold (server_call k) (reply_calls r) ?t"
    using assms(4) by (simp add: server_served_def sv_callback_def) (simp add: server_asked_def sv_set_input_def)
  have t: "server_can_send A cs [] fs k ?t" "s_app ?t = u"
    using s(1) by (simp_all add: asked_simps)
  have "server_can_send A cs [] fs k (server_served k cb i m ?inp s) \<and> s_app (server_served k cb i m ?inp s) = u \<and>
      sv_stream (server_served k cb i m ?inp s) i = sv_stream s i @ bs \<and>
      sv_cfg (server_served k cb i m ?inp s) = sv_cfg s \<and>
      k_input (s_clients (server_served k cb i m ?inp s) i) = ?inp"
  proof (cases r)
    case None
    then show ?thesis
      using t assms(5)
      by (simp add: call reply_calls_def reply_bytes_def asked_simps)
  next
    case (Some x)
    obtain ps where ps: "out_encode k (Some x) (s_out_size ?t - header_sizeof) = Some ps" "bs = frame (user_response ps)"
      using assms(5) Some by (auto simp: reply_bytes_def asked_simps)
    have "s_current (server_init_message k (\<lambda>_. x) ?t) = Some i"
      by (simp add: server_init_message_def server_new_output_message_def server_asked_def Let_def split: option.split)
    then have say: "server_served k cb i m ?inp s = server_say k i x ?t"
      by (simp add: call Some reply_calls_def server_reply_def server_say_def)
    note e = server_say_effect [OF t(1) s(2) ps(1) ps(2)]
    show ?thesis using e(1,3,5-7) t(2) unfolding say by (simp add: asked_simps)
  qed
  then have v: "server_can_send A cs [] fs k (server_served k cb i m ?inp s)" "s_app (server_served k cb i m ?inp s) = u"
    "sv_stream (server_served k cb i m ?inp s) i = sv_stream s i @ bs" "sv_cfg (server_served k cb i m ?inp s) = sv_cfg s"
    "k_input (s_clients (server_served k cb i m ?inp s) i) = ?inp" by blast+
  note r = reset_serving [OF v(1) s(2) v(5) s(3) fit eq]
  show "server_serving A cs fs k i s'" "s_app s' = u" "sv_stream s' i = sv_stream s i @ bs" "sv_cfg s' = sv_cfg s"
    "i_cap (k_input (s_clients s' i)) = i_cap (k_input (s_clients s i))"
    using r v by simp_all
  have "sv_keeps (server_asked i m ?inp s) (server_served k cb i m ?inp s)"
    unfolding server_served_def by (rule callback_keeps)
  then have "k_fd (s_clients s' i) = k_fd (s_clients s i) \<or> k_fd (s_clients s' i) = - 1"
    unfolding sv_keeps_def sv_sockets_def eq reset_input_eq sv_set_input_def server_asked_def
    by (auto simp: sv_upd_def dest: spec [of _ i])
  then show "k_fd (s_clients s' i) = k_fd (s_clients s i)"
    using serving_alive(2,3) [OF r(1)] by (auto simp: sv_no_minus_def sv_receiving_def)
qed

text \<open>An event of a client's socket that can be read.\<close>

lemma socket_event:
  assumes "sv_inv A s cs ps fs" "i \<in> set cs" "s_listener_fd s \<in> A"
  shows "server_process k (k_fd (s_clients s i)) EPOLLIN as s =
    sv_destroy_pending_disconnect_clients k (sv_process_client_socket_in k i as s)"
proof -
  let ?d = "k_fd (s_clients s i)"
  have "sv_fds A s cs ps" using assms(1) by (simp add: sv_inv_def)
  note f = sv_fdsD [OF this]
  have d: "?d \<in> owned s i" using f(9) assms(2) by (simp add: owned_def)
  then have "?d \<notin> A" using f(8) assms(2) by auto
  then have ne: "?d \<noteq> s_listener_fd s" using assms(3) by metis
  show ?thesis
    using assms(1)
  proof (cases rule: process_cases [where k = k and d = ?d and events = EPOLLIN and as = as])
    case (client j)
    then have "?d \<in> owned s j" using f(9,10) [of j] by (auto simp: sv_owns_def owned_def)
    then have "j = i" using f(7) [of i j] d client(2) assms(2) by blast
    then show ?thesis
      using client(4) by (simp add: sv_client_event_def sv_process_client_socket_def EPOLLIN_def EPOLLOUT_def)
  next
    case nobody
    then show ?thesis using assms(2) by (auto simp: sv_owns_def)
  qed (use ne in simp)
qed

lemma serve_event:
  assumes "server_serving A cs fs k i s" "s_listener_fd s \<in> A" "\<forall>f \<in> set rs. length (snd f) < 2 ^ 24"
    "arrived as = concat (map frame rs)" "s' = fold (server_deliver k i) rs s"
  shows "server_process k (k_fd (s_clients s i)) EPOLLIN as s =
      sv_destroy_pending_disconnect_clients k (server_finish i (try_again as) s')"
    and "server_serving A cs fs k i s' \<Longrightarrow> try_again as \<Longrightarrow>
      server_process k (k_fd (s_clients s i)) EPOLLIN as s = s'"
proof -
  note a = serving_alive [OF assms(1)]
  have i: "i \<in> set cs" using assms(1) by (simp add: server_serving_def)
  show p: "server_process k (k_fd (s_clients s i)) EPOLLIN as s =
      sv_destroy_pending_disconnect_clients k (server_finish i (try_again as) s')"
    using socket_event [OF a(1) i assms(2)] server_frames [OF a(4) assms(3,4)] assms(5) by simp
  assume "server_serving A cs fs k i s'" "try_again as"
  note a' = serving_alive [OF this(1)]
  have "s_pending s' = None" using sv_inv_lists [OF a'(1)] by (simp add: sv_lists_def)
  then have "sv_destroy_pending_disconnect_clients k s' = s'"
    by (cases "s_max s'") (simp_all add: sv_destroy_pending_disconnect_clients_def)
  then show "server_process k (k_fd (s_clients s i)) EPOLLIN as s = s'"
    using \<open>try_again as\<close> a'(3) by (simp add: p server_finish_def)
qed

text \<open>A callback that disconnects the client it is called for.\<close>

lemma destroy_loop_app:
  fixes s :: "('a, 'b, 'c) server"
  assumes "s_on_client_disconnected s = sv_on_client_default"
  shows "s_app (sv_destroy_loop k n p s) = s_app s"
  using assms
proof (induction n arbitrary: p s)
  case (Suc n)
  show ?case
  proof (cases p)
    case (Some i)
    let ?s2 = "sv_upd i (\<lambda>c. c\<lparr>k_timer := - 1\<rparr>) (sv_close_fd (k_timer (s_clients s i)) s)"
    let ?s3 = "sv_callback k (s_on_client_disconnected ?s2 i) (Client_disconnected i) ?s2"
    let ?s4 = "sv_free_pending_disconnect_client i ?s3"
    have "sv_cfg ?s2 = sv_cfg s" "sv_obs ?s2 = sv_obs s" by (simp_all add: server_simps)
    then have s2: "s_on_client_disconnected ?s2 = sv_on_client_default" "s_app ?s2 = s_app s"
      using sv_cfgD(2) [of ?s2 s] sv_obsD(1) [of ?s2 s] Suc.prems by simp_all
    have "sv_cfg ?s3 = sv_cfg ?s2" by (rule sv_keepsD(1) [OF callback_keeps])
    moreover have "sv_cfg ?s4 = sv_cfg ?s3" "sv_obs ?s4 = sv_obs ?s3" by (rule free_client_frame)+
    ultimately have "sv_cfg ?s4 = sv_cfg ?s2" "sv_obs ?s4 = sv_obs ?s3" by metis+
    moreover have "s_app (sv_callback k (sv_on_client_default i) ev t) = s_app t" for ev and t :: "('a, 'b, 'c) server"
      by (simp add: sv_callback_def sv_on_client_default_def)
    then have "s_app ?s3 = s_app ?s2" by (simp only: s2(1))
    ultimately have "s_on_client_disconnected ?s4 = sv_on_client_default" "s_app ?s4 = s_app s"
      using sv_cfgD(2) [of ?s4 ?s2] sv_obsD(1) [of ?s4 ?s3] s2 by simp_all
    then show ?thesis using Suc.IH [of ?s4] Some by (simp add: Let_def)
  qed simp
qed simp

lemma serve_goodbye:
  assumes "server_serving A cs fs k i s" "s_listener_fd s \<in> A" "server_gets k i m payload s"
    "s_on_message s (in_choice k m) = Some cb" "cb i m (s_app s) = (u, [Disconnect_client None])"
    "s_on_client_disconnected s = sv_on_client_default"
    "arrived as = frame (user_request payload)"
    "s' = server_process k (k_fd (s_clients s i)) EPOLLIN as s"
  shows "s_app s' = u" "k_fd (s_clients s i) \<notin> set (fds (s_sys s'))"
proof -
  let ?f = "user_request payload" and ?d = "k_fd (s_clients s i)"
  let ?inp = "input_loaded ?f (k_input (s_clients s i))"
  let ?t = "(server_asked i m ?inp s)\<lparr>s_app := u, s_log := s_log s @ [Client_message i (in_choice k m) m]\<rparr>"
  let ?p = "sv_client_pending_disconnect i ?t"
  note a = serving_alive [OF assms(1)]
  have "server_served k cb i m ?inp s = ?p"
    using assms(5) by (simp add: server_served_def sv_callback_def server_disconnect_def server_asked_def sv_set_input_def)
  then have del: "server_deliver k i ?f s = sv_client_reset_input i (?p\<lparr>s_current := None\<rparr>)"
    using deliver_request [OF a(3) assms(3,4) refl] by simp
  let ?q = "server_deliver k i ?f s"
  have q: "k_fd (s_clients ?q i) = - 1" "s_sys ?q = s_sys ?p" "s_app ?q = s_app ?p" "sv_cfg ?q = sv_cfg ?p"
    by (simp_all add: del reset_input_eq sv_set_input_def server_simps)
  have fin: "server_finish i b ?q = ?q" for b
    using q(1) by (simp add: server_finish_def) (simp add: sv_client_pending_disconnect_def)
  have "\<forall>f \<in> set [?f]. length (snd f) < 2 ^ 24" using assms(3) by (simp add: server_gets_def)
  from serve_event(1) [OF assms(1,2) this _ refl, of as]
  have s': "s' = sv_destroy_pending_disconnect_clients k ?q"
    using assms(7,8) fin by simp
  have quiet: "sv_quiet ?t ?p" by simp
  then have p: "s_app ?p = u" "sv_cfg ?p = sv_cfg s"
    using sv_quietD(3) [OF quiet] by (simp_all add: sv_quiet_def asked_simps)
  have "s_on_client_disconnected ?q = sv_on_client_default"
    using sv_cfgD(2) [of ?q s] q(4) p(2) assms(6) by simp
  then show "s_app s' = u"
    unfolding s' sv_destroy_pending_disconnect_clients_def by (simp add: destroy_loop_app q(3) p(1))
  have "s_sys ?t = s_sys s" "k_fd (s_clients ?t i) = ?d"
    by (simp_all add: server_asked_def server_simps)
  moreover have "?d \<noteq> - 1" using a(2,3) by (auto simp: sv_no_minus_def sv_receiving_def)
  ultimately have "?d \<notin> set (fds (s_sys ?p))"
    by (simp add: sv_client_pending_disconnect_def server_simps Let_def)
  moreover have "os_shrinks (s_sys ?q) (s_sys s')"
    using destroy_keeps [of ?q k] unfolding s' by (simp add: sv_keeps_def)
  ultimately show "?d \<notin> set (fds (s_sys s'))"
    using q(2) os_shrinks_fds by metis
qed

section \<open>The first client\<close>

text \<open>No call fails while the connection is accepted, and the library's \<open>epoll_ctl\<close> is used.\<close>

definition server_lucky :: "('u, 'i, 'o) server \<Rightarrow> bool" where
  "server_lucky s \<longleftrightarrow> outcomes (s_sys s) = [] \<and> wscript (s_sys s) = [] \<and> mallocs (s_sys s) = [] \<and>
     s_epoll_ctl s = Epoll_default"

lemma lucky_sv_epoll_add:
  "outcomes (s_sys s) = [] \<Longrightarrow> s_epoll_ctl s = Epoll_default \<Longrightarrow> d \<in> set (fds (s_sys s)) \<Longrightarrow>
     sv_epoll_ctl_add d s = (0, s\<lparr>s_sys := (s_sys s)\<lparr>interest := (interest (s_sys s))(d := Some EPOLLIN)\<rparr>\<rparr>)"
  by (simp add: sv_epoll_ctl_add_def messi_epoll_ctl_default_def sys_epoll_ctl_def sys_on_fd_ok)

lemma lucky_listener:
  assumes "server_lucky s" "s_listener_fd s \<in> set (fds (s_sys s))" "s_free s = Some i" "s_connected s = None"
    "s_on_client_connected s = sv_on_client_default" "s' = sv_process_listener k s"
  shows "s_log s' = s_log s @ [Client_connected i]" "s_connected s' = Some i" "s_pending s' = s_pending s"
    "k_input (s_clients s' i) = input_reset (k_input (s_clients s i))" "sv_stream s' i = []" "s_app s' = s_app s"
    "server_lucky s'"
proof -
  let ?os = "s_sys s"
  define d where "d = lowest_free (fds ?os)"
  define t where "t = lowest_free (d # fds ?os)"
  have ne: "d \<noteq> - 1" "t \<noteq> - 1" "t \<noteq> d" using lowest_free_ne by (simp_all add: d_def t_def)
  have o: "outcomes ?os = []" "s_epoll_ctl s = Epoll_default" "mallocs ?os = []" "wscript ?os = []"
    using assms(1) by (simp_all add: server_lucky_def)
  let ?c = "(s_clients s i)\<lparr>k_next := None, k_fd := d, k_input := input_reset (k_input (s_clients s i)), k_head := None,
      k_timer := t\<rparr>"
  have s': "s' = s\<lparr>s_free := k_next (s_clients s i), s_connected := Some i, s_clients := (s_clients s)(i := ?c),
      s_sys := ?os\<lparr>fds := t # d # fds ?os, fdflags := (fdflags ?os)(d := O_NONBLOCK, t := 0),
        tx := (tx ?os)(d := [], t := []), peer := (peer ?os)(d := None, t := None),
        armed := (armed ?os)(d := None, t := Some 3), interest := (interest ?os)(t := Some EPOLLIN, d := Some EPOLLIN)\<rparr>,
      s_log := s_log s @ [Client_connected i]\<rparr>"
    using assms(2-5) o ne
    by (simp add: assms(6) sv_process_listener_def sys_accept_def lucky_new_fd os_new_fd_def d_def [symmetric] lucky_non_blocking
        sys_setsockopt_def sys_on_fd_ok sv_alloc_client_def sv_client_init_def sv_client_reset_input_def
        sys_timerfd_create_def t_def [symmetric] sv_client_start_keep_alive_timer_def sys_timerfd_settime_def
        lucky_sv_epoll_add sv_callback_def sv_on_client_default_def sv_upd_def input_reset_def Let_def)
  have empty: "heap_bytes n None h = []" for n h by (cases n) simp_all
  show "s_log s' = s_log s @ [Client_connected i]" "s_connected s' = Some i" "s_pending s' = s_pending s"
    "k_input (s_clients s' i) = input_reset (k_input (s_clients s i))" "sv_stream s' i = []" "s_app s' = s_app s"
    "server_lucky s'"
    using o ne by (simp_all add: s' server_lucky_def sv_stream_def empty)
qed

text \<open>It becomes the only connected client, and nothing has been sent to it yet.\<close>

lemma first_client:
  assumes "sv_inv A s [] [] (i # fs)" "sv_buffers_ok s" "s_current s = None" "server_codec_ok k s" "server_app_ok s"
    "server_lucky s" "s_listener_fd s \<in> A" "s_on_client_connected s = sv_on_client_default"
    "input_mem n (k_input (s_clients s i))" "header_sizeof \<le> n"
    "s' = server_process k (s_listener_fd s) events as s"
  shows "server_serving A [i] fs k i s'" "sv_stream s' i = []" "s_app s' = s_app s" "sv_cfg s' = sv_cfg s"
    "i_cap (k_input (s_clients s' i)) = n"
proof -
  let ?l = "sv_process_listener k s"
  have lists: "s_free s = Some i" "s_connected s = None" "s_pending s = None"
    using sv_inv_lists [OF assms(1)] by (auto simp: sv_lists_def)
  have "s_listener_fd s \<in> set (fds (s_sys s))" using assms(1,7) by (simp add: sv_inv_def sv_fds_def)
  note l = lucky_listener [OF assms(6) this lists(1,2) assms(8) refl, of k]
  obtain fs' where g: "sv_good A fs' ?l" "s_current ?l = None" "sv_cfg ?l = sv_cfg s" "fs' = fs"
    by (rule listener_inv [OF assms(1-5)]) (use l(1) in auto)
  obtain cs ps where inv: "sv_inv A ?l cs ps fs" and buf: "sv_buffers_ok ?l"
    using g(1,4) by (auto simp: sv_good_def)
  have ps: "ps = []" using sv_inv_lists [OF inv] l(3) lists(3) by (auto simp: sv_lists_def)
  have m: "s_max ?l = s_max s" using sv_cfgD [OF g(3)] by simp
  have "set cs \<union> set fs = insert i (set fs)" "i \<notin> set fs" "distinct (cs @ fs)"
    using sv_inv_lists [OF inv] sv_inv_lists [OF assms(1)] by (auto simp: sv_lists_def ps m)
  then have "set cs = {i}" "distinct cs" by auto
  then have cs: "cs = [i]" by (cases cs; cases "tl cs") auto
  have s': "s' = ?l"
    using l(3) lists(3)
    by (cases "s_max ?l") (simp_all add: assms(11) server_process_def sv_destroy_pending_disconnect_clients_def)
  have "smooth (s_sys ?l)" using l(7) by (simp add: server_lucky_def smooth_def soft_writes_def)
  moreover have "server_codec_ok k ?l" using assms(4) sv_cfg_ok [OF g(3)] by simp
  moreover have "input_fresh (k_input (s_clients ?l i))" using input_mem_fresh [OF assms(9,10)] by (simp add: l(4))
  ultimately show "server_serving A [i] fs k i s'"
    using inv buf g(2) by (simp add: s' server_serving_def server_can_send_def sv_flows_def ps cs)
  show "sv_stream s' i = []" "s_app s' = s_app s" "sv_cfg s' = sv_cfg s" using l(5,6) g(3) by (simp_all add: s')
  show "i_cap (k_input (s_clients s' i)) = n" using l(4) assms(9) by (simp add: s' input_mem_def)
qed

section \<open>A message for the client\<close>

definition client_gets :: "('i, 'o) codec \<Rightarrow> 'i \<Rightarrow> byte list \<Rightarrow> ('u, 'i, 'o) client \<Rightarrow> bool" where
  "client_gets k m payload c \<longleftrightarrow> header_sizeof + length payload \<le> i_cap (c_input c) \<and> length payload < 2 ^ 24 \<and>
     (\<exists>m0. in_new k (c_in_workspace_size c) = Some m0 \<and> in_decode k m0 payload = (int (length payload), m))"

text \<open>Between two events, with the connection up; and what is set up once.\<close>

definition client_talking :: "('i, 'o) codec \<Rightarrow> ('u, 'i, 'o) client \<Rightarrow> bool" where
  "client_talking k c \<longleftrightarrow> client_can_send k c \<and> client_fresh c"

definition client_cfg where
  "client_cfg c = (c_on_message c, c_on_disconnected c, c_in_workspace_size c, c_out_size c, c_server_fd c)"

lemma client_cfgD:
  assumes "client_cfg c' = client_cfg c"
  shows "c_on_message c' = c_on_message c" "c_on_disconnected c' = c_on_disconnected c"
    "c_in_workspace_size c' = c_in_workspace_size c" "c_out_size c' = c_out_size c" "c_server_fd c' = c_server_fd c"
  using assms by (simp_all add: client_cfg_def)

text \<open>A message that is sent once or several times.\<close>

lemma client_sends:
  assumes "client_can_send k c" "c_out_message c = Some r" "out_encode k (Some r) (c_out_size c - header_sizeof) = Some bs"
    "c' = fold (client_call k) (replicate n Client_send) c"
  shows "client_can_send k c' \<and> c_app c' = c_app c \<and> client_cfg c' = client_cfg c \<and> c_input c' = c_input c \<and>
    (client_ok c \<longrightarrow> client_ok c') \<and>
    tx (c_sys c') (c_server_fd c) = tx (c_sys c) (c_server_fd c) @ concat (replicate n (frame (user_request bs)))"
  using assms
proof (induction n arbitrary: c)
  case (Suc n)
  have "client_init_message k (\<lambda>_. r) c = c"
    using Suc.prems(1,2)
    by (auto simp: client_init_message_def client_new_output_message_def client_can_send_def Let_def)
  then have say: "client_say k r c = client_send k c" by (simp add: client_say_def)
  note e = client_say_effect [OF Suc.prems(1,3) refl, unfolded say]
  have "client_cfg (client_send k c) = client_cfg c"
    using e(2,3) by (simp add: client_cfg_def client_simps)
  moreover have "c_app (client_send k c) = c_app c" using client_say_same_app [of k r c] by (simp add: say)
  ultimately show ?case
    using Suc.IH [OF e(1) e(5)] Suc.prems(3,4) e(2-4) by (simp add: client_simps client_cfg_def)
qed simp

definition say_calls :: "nat \<Rightarrow> 'o \<Rightarrow> 'o client_request list" where
  "say_calls n m = Init_message (\<lambda>_. m) # replicate n Client_send"

lemma client_callback:
  assumes "client_can_send k c" "cb (c_app c) = (u, say_calls n r)"
    "out_encode k (Some r) (c_out_size c - header_sizeof) = Some bs" "c' = run_callback k cb ev c"
  shows "client_can_send k c'" "c_app c' = u" "client_cfg c' = client_cfg c" "c_input c' = c_input c"
    "client_ok c \<Longrightarrow> client_ok c'"
    "tx (c_sys c') (c_server_fd c) = tx (c_sys c) (c_server_fd c) @ concat (replicate n (frame (user_request bs)))"
proof -
  let ?t = "c\<lparr>c_app := u, c_log := c_log c @ [ev]\<rparr>"
  let ?c = "?t\<lparr>c_out_message := Some r\<rparr>"
  obtain m0 where "out_new k (c_out_workspace_size c) = Some m0" using assms(1) by (auto simp: client_can_send_def)
  then have "client_init_message k (\<lambda>_. r) ?t = ?c"
    by (simp add: client_init_message_def client_new_output_message_def Let_def)
  then have "c' = fold (client_call k) (replicate n Client_send) ?c"
    using assms(2,4) by (simp add: run_callback_def say_calls_def)
  moreover have "client_can_send k ?c" using assms(1) by (simp add: client_can_send_def client_alive_def)
  moreover have "client_ok ?c = client_ok c" by (simp add: client_ok_def)
  ultimately show "client_can_send k c'" "c_app c' = u" "client_cfg c' = client_cfg c" "c_input c' = c_input c"
    "client_ok c \<Longrightarrow> client_ok c'"
    "tx (c_sys c') (c_server_fd c) = tx (c_sys c) (c_server_fd c) @ concat (replicate n (frame (user_request bs)))"
    using client_sends [of k ?c r bs c' n] assms(3) by (simp_all add: client_cfg_def)
qed

lemma client_reaction:
  assumes "client_talking k c" "client_gets k m payload c" "c_on_message c (in_choice k m) = Some cb"
    "cb m (c_app c) = (u, say_calls n r)" "out_encode k (Some r) (c_out_size c - header_sizeof) = Some bs"
    "c' = client_deliver k (user_response payload) c"
  shows "client_talking k c'" "c_app c' = u" "client_cfg c' = client_cfg c" "i_cap (c_input c') = i_cap (c_input c)"
    "tx (c_sys c') (c_server_fd c) = tx (c_sys c) (c_server_fd c) @ concat (replicate n (frame (user_request bs)))"
proof -
  let ?f = "user_response payload"
  let ?inp = "input_loaded ?f (c_input c)"
  let ?t = "c\<lparr>c_input := ?inp, c_in_message := Some m\<rparr>"
  obtain m0 where m0: "in_new k (c_in_workspace_size c) = Some m0" "in_decode k m0 payload = (int (length payload), m)"
    and fit: "header_sizeof + length payload \<le> i_cap (c_input c)"
    using assms(2) by (auto simp: client_gets_def)
  have c: "client_can_send k c" "client_ok c" "client_alive c" "input_fresh (c_input c)"
    using assms(1) by (simp_all add: client_talking_def client_fresh_def)
  have pay: "i_size ?inp - header_sizeof = length payload"
    "take (length payload) (drop header_sizeof (i_buf ?inp)) = payload"
    using input_loaded_payload [of ?f "c_input c"] by simp_all
  have "cl_handle_message k MESSI_MESSAGE_TYPE_SERVER_TO_CLIENT_USER (c\<lparr>c_input := ?inp\<rparr>) =
      run_callback k (cb m) (Received (in_choice k m) m) ?t"
    using m0 assms(3) pay by (simp add: cl_handle_message_def cl_handle_message_user_def Let_def)
  then have eq: "c' = cl_reset_input_encoded (run_callback k (cb m) (Received (in_choice k m) m) ?t)"
    using c(3) fit assms(6) by (simp add: client_deliver_def)
  have t: "client_can_send k ?t" "client_ok ?t" "client_cfg ?t = client_cfg c"
    using c by (simp_all add: client_can_send_def client_alive_def client_ok_def client_cfg_def)
  note r = client_callback [where cb = "cb m" and ev = "Received (in_choice k m) m", OF t(1) _ _ refl,
      of u n r bs, simplified, OF assms(4,5)]
  have "client_can_send k c'" "client_ok c'" "c_app c' = u" "client_cfg c' = client_cfg c"
    using r t(2,3) by (simp_all add: eq cl_reset_input_encoded_def client_can_send_def client_alive_def client_cfg_def
        client_ok_def)
  moreover have i: "c_input c' = input_reset ?inp"
    using r(4) by (simp add: eq cl_reset_input_encoded_def input_reset_def)
  have "input_fresh (input_reset ?inp)"
    using c(4) fit by (auto simp: input_fresh_def input_ok_def intro!: input_reset_fresh)
  ultimately show "client_talking k c'" "c_app c' = u" "client_cfg c' = client_cfg c" "i_cap (c_input c') = i_cap (c_input c)"
    by (simp_all add: client_talking_def client_fresh_def i client_can_send_def)
  show "tx (c_sys c') (c_server_fd c) = tx (c_sys c) (c_server_fd c) @ concat (replicate n (frame (user_request bs)))"
    using r(6) by (simp add: eq cl_reset_input_encoded_def)
qed

lemma talking_event:
  assumes "client_talking k c" "\<forall>f \<in> set rs. length (snd f) < 2 ^ 24" "arrived as = concat (map frame rs)" "try_again as"
    "c' = fold (client_deliver k) rs c" "client_talking k c'"
  shows "client_process k (c_server_fd c) events as c = c'"
proof -
  have "client_fresh c" "client_alive c'" using assms(1,6) by (simp_all add: client_talking_def client_fresh_def)
  then have "cl_process_socket k as c = c'"
    using cl.loop_frames [where s = c and fs = rs and as = as and k = k] assms(2-5)
    by (simp add: client_fresh_def cl_deliver_eq cl_finish_eq client_finish_def)
  moreover have "\<not> c_pending_disconnect c'"
    using assms(6) by (auto simp: client_talking_def client_fresh_def client_ok_def client_alive_def)
  ultimately show ?thesis by (simp add: client_process_def Let_def)
qed

text \<open>The server is gone: the callback is called with the reason, and only a timer is started after it.\<close>

lemma reconnect_timer_app: "c_app (snd (cl_start_reconnect_timer c)) = c_app c"
  by (auto simp: cl_start_reconnect_timer_def cl_close_def cl_epoll_ctl_add_def cl_start_timer_def Let_def
      split: prod.splits)

lemma talking_closed:
  assumes "client_talking k c" "c_on_disconnected c Connection_closed (c_app c) = (u, [])"
    "c' = client_process k (c_server_fd c) events [Chunk []] c"
  shows "c_app c' = u"
proof -
  have ok: "client_ok c" "client_alive c" using assms(1) by (simp_all add: client_talking_def client_fresh_def)
  then have np: "\<not> c_pending_disconnect c" by (auto simp: client_ok_def client_alive_def)
  let ?c1 = "cl_pending_disconnect Connection_closed c"
  have c1: "cl_process_socket k [Chunk []] c = ?c1" using process_socket_alive(2) [OF ok(2)] by simp
  have "c_disconnect_reason ?c1 = Connection_closed"
    using np by (simp add: cl_pending_disconnect_def client_simps Let_def)
  then have c2: "c_disconnect_reason (cl_disconnect ?c1) = Connection_closed"
    by (simp add: disconnect_reason_disconnect client_simps)
  have "c_app (cl_disconnect ?c1) = c_app c"
    by (simp add: cl_disconnect_def client_simps Let_def)
  then have "c_app (run_callback k (c_on_disconnected (cl_disconnect ?c1) Connection_closed)
      (Disconnected Connection_closed) (cl_disconnect ?c1)) = u"
    using assms(2) by (simp add: run_callback_def client_simps)
  then show ?thesis
    by (simp add: assms(3) client_process_def c1 c2 reconnect_timer_app client_simps Let_def)
qed

end
