(* ===== verification/ChatServer.thy ===== *)
theory ChatServer
  imports Replies
begin

text \<open>
  The chat server, \<open>examples/chat/server/linux/main.c\<close>: its callbacks as an application of the
  linux server, its \<open>main\<close>, and what the clients of the chat can rely on. The messages are those of
  \<open>examples/chat/chat.proto\<close>; the code that encodes and decodes them stays a parameter, of which
  is used that \<open>messages.choice\<close> tells the messages apart.
\<close>

section \<open>Messages\<close>

datatype chat_to_server = No_request | Connect_req string | Send_message_ind string string

datatype chat_to_client = No_response | Connect_rsp | Message_ind string string

fun chat_choice :: "chat_to_server \<Rightarrow> nat" where
  "chat_choice No_request = 0"
| "chat_choice (Connect_req user) = 1"
| "chat_choice (Send_message_ind user text) = 2"

section \<open>The application\<close>

text \<open>What it prints, in order; the numbers and names that its format strings are filled with.\<close>

datatype chat_print = Text string | Number_of_clients int | Client_name string

text \<open>The counter is a C \<open>int\<close>.\<close>

record chat_app =
  number_of_connected_clients :: int
  printed :: "chat_print list"

type_synonym chat_server = "(chat_app, chat_to_server, chat_to_client) server"

definition chat_printf :: "chat_print \<Rightarrow> chat_app \<Rightarrow> chat_app" where
  "chat_printf p u = u\<lparr>printed := printed u @ [p]\<rparr>"

definition chat_on_client_disconnected :: "nat \<Rightarrow> chat_app \<Rightarrow> chat_app \<times> chat_to_client server_request list" where
  "chat_on_client_disconnected i u =
     (let u = u\<lparr>number_of_connected_clients := c_int (number_of_connected_clients u - 1)\<rparr>
      in (chat_printf (Number_of_clients (number_of_connected_clients u)) u, []))"

definition chat_on_connect_req ::
    "nat \<Rightarrow> chat_to_server \<Rightarrow> chat_app \<Rightarrow> chat_app \<times> chat_to_client server_request list" where
  "chat_on_connect_req i m u =
     (case m of
        Connect_req user \<Rightarrow>
          (let u = u\<lparr>number_of_connected_clients := c_int (number_of_connected_clients u + 1)\<rparr>;
               u = chat_printf (Client_name user) u;
               u = chat_printf (Number_of_clients (number_of_connected_clients u)) u
           in (u, [Prepare_message (\<lambda>_. Connect_rsp), Reply]))
      | _ \<Rightarrow> (u, []))"

definition chat_on_message_ind ::
    "nat \<Rightarrow> chat_to_server \<Rightarrow> chat_app \<Rightarrow> chat_app \<times> chat_to_client server_request list" where
  "chat_on_message_ind i m u =
     (case m of
        Send_message_ind user text \<Rightarrow> (u, [Prepare_message (\<lambda>_. Message_ind user text), Broadcast])
      | _ \<Rightarrow> (u, []))"

definition chat_parse_args :: "string list \<Rightarrow> string" where
  "chat_parse_args argv = (if length argv = 2 then argv ! 1 else ''tcp://127.0.0.1:6000'')"

definition chat_say :: "string \<Rightarrow> chat_server \<Rightarrow> chat_server" where
  "chat_say text s = s\<lparr>s_app := chat_printf (Text text) (s_app s)\<rparr>"

definition sys_epoll_create1 :: "os \<Rightarrow> fd \<times> os" where
  "sys_epoll_create1 os = sys_new_fd os"

text \<open>
  \<open>main\<close>, with the exit code; \<open>mem\<close> and \<open>buf\<close> are what the uninitialised buffers for the input of
  the clients and for the output hold. \<open>epoll_wait\<close> returns the events in turn, each with what
  arrives at its descriptor, and fails after the last one.
\<close>

definition chat_server_init :: "string \<Rightarrow> byte list \<Rightarrow> byte list \<Rightarrow> fd \<Rightarrow> chat_server \<Rightarrow> int \<times> chat_server" where
  "chat_server_init uri mem buf epoll_fd s =
     server_init uri 10 mem 128 buf 128 128 None (Some chat_on_client_disconnected)
       [(1, Some chat_on_connect_req), (2, Some chat_on_message_ind)] epoll_fd None s"

definition chat_server_main ::
    "(chat_to_server, chat_to_client) codec \<Rightarrow> string list \<Rightarrow> byte list \<Rightarrow> byte list \<Rightarrow>
     (fd \<times> u32 \<times> arrival list) list \<Rightarrow> chat_server \<Rightarrow> int \<times> chat_server" where
  "chat_server_main k argv mem buf evs s =
     (let uri = chat_parse_args argv;
          s = chat_say uri s;
          (epoll_fd, os) = sys_epoll_create1 (s_sys s); s = s\<lparr>s_sys := os\<rparr>
      in if epoll_fd = - 1 then (1, s)
         else
      let (res, s) = chat_server_init uri mem buf epoll_fd s
      in if res \<noteq> 0 then (1, chat_say ''Init failed.'' s)
         else
      let (res, s) = server_start s
      in if res \<noteq> 0 then (1, chat_say ''Start failed.'' s)
         else (1, server_loop k evs (chat_say ''Server started.'' s)))"

section \<open>The chat\<close>

text \<open>
  What is used of the generated code: that \<open>messages.choice\<close> tells the messages apart, that the
  encoder keeps to its space, and that the 128 bytes of \<open>workspace_out\<close> are enough for a new
  message. \<open>chat_callbacks\<close> is what \<open>main\<close> gives to \<open>chat_server_init\<close>.
\<close>

definition chat_codec :: "(chat_to_server, chat_to_client) codec \<Rightarrow> bool" where
  "chat_codec k \<longleftrightarrow> in_choice k = chat_choice \<and> codec_fits k \<and> out_new k 128 \<noteq> None"

definition chat_callbacks :: "chat_server \<Rightarrow> bool" where
  "chat_callbacks s \<longleftrightarrow> s_on_client_connected s = sv_on_client_default \<and>
     s_on_client_disconnected s = chat_on_client_disconnected \<and>
     s_on_message s = [1 \<mapsto> chat_on_connect_req, 2 \<mapsto> chat_on_message_ind] \<and>
     s_out_workspace_size s = 128"

lemma chat_say_simps [simp]:
  "s_sys (chat_say t s) = s_sys s" "s_heap (chat_say t s) = s_heap s" "s_fault (chat_say t s) = s_fault s"
  "s_hang (chat_say t s) = s_hang s" "sv_cfg (chat_say t s) = sv_cfg s" "s_log (chat_say t s) = s_log s"
  by (simp_all add: chat_say_def)

lemma chat_say_callbacks: "chat_callbacks (chat_say t s) = chat_callbacks s"
  by (simp add: chat_say_def chat_callbacks_def)

lemma chat_say_ready: "server_ready A s \<Longrightarrow> server_ready A (chat_say t s)"
  by (simp add: server_ready_def chat_say_def sv_buffers_ok_def)

lemma chat_app_ok: "chat_callbacks s \<Longrightarrow> server_app_ok s"
  by (auto simp: chat_callbacks_def server_app_ok_def sv_on_client_default_def chat_on_client_disconnected_def
      chat_on_connect_req_def chat_on_message_ind_def Let_def split: if_splits chat_to_server.splits)

lemma chat_init_callbacks: "chat_server_init uri mem buf e s = (0, s') \<Longrightarrow> chat_callbacks s'"
  by (auto simp: chat_server_init_def server_init_def chat_callbacks_def Let_def split: option.splits)

lemma chat_codec_ok: "chat_codec k \<Longrightarrow> chat_callbacks s \<Longrightarrow> server_codec_ok k s"
  by (simp add: chat_codec_def chat_callbacks_def server_codec_ok_def)

lemma epoll_create_effect:
  assumes "sys_epoll_create1 os = (d, os')" "\<forall>d \<in> set (fds os). 0 \<le> d"
  shows "\<forall>d \<in> set (fds os'). 0 \<le> d" "keeps_soft os os'"
  using new_fd_effect [of os d os'] new_fd_soft [of os] assms by (auto simp: sys_epoll_create1_def)


section \<open>What the clients get\<close>

text \<open>One request that a client sends, in any number of pieces, as the server decodes it.\<close>

definition chat_request :: "(chat_to_server, chat_to_client) codec \<Rightarrow> nat \<Rightarrow> chat_to_server \<Rightarrow> arrival list \<Rightarrow> chat_server \<Rightarrow> bool" where
  "chat_request k i m as s \<longleftrightarrow>
     (\<exists>payload. arrived as = frame (user_request payload) \<and> try_again as \<and> server_gets k i m payload s)"

lemma live_client:
  assumes "sv_inv A s cs ps fs" "i \<in> set cs"
  shows "sv_no_minus s" "sv_receiving i s"
  using assms sv_fdsD(2,11) unfolding sv_inv_def sv_no_minus_def sv_receiving_def by blast+

text \<open>The request is handed to its callback; then the client is ready for the next one.\<close>

lemma request_handled:
  assumes "chat_codec k" "sv_inv A s cs ps fs" "i \<in> set cs" "input_fresh (k_input (s_clients s i))"
    "chat_request k i m as s" "s_on_message s (chat_choice m) = Some cb"
    "s' = sv_process_client_socket_in k i as s"
  obtains inp where "sv_receiving i (server_served k cb i m inp s) \<longrightarrow>
    s' = sv_client_reset_input i ((server_served k cb i m inp s)\<lparr>s_current := None\<rparr>) \<and> server_fresh i s'"
proof -
  obtain payload where r: "arrived as = frame (user_request payload)" "try_again as" "server_gets k i m payload s"
    using assms(5) by (auto simp: chat_request_def)
  let ?f = "user_request payload"
  have fresh: "server_fresh i s" using live_client [OF assms(2,3)] assms(4) by (simp add: server_fresh_def)
  have fs: "\<forall>f \<in> set [?f]. length (snd f) < 2 ^ 24" "arrived as = concat (map frame [?f])"
    using r by (simp_all add: server_gets_def)
  define t where "t = server_served k cb i m (input_loaded ?f (k_input (s_clients s i))) s"
  have "s_on_message s (in_choice k m) = Some cb" using assms(1,6) by (simp add: chat_codec_def)
  note del = deliver_request [OF live_client(2) [OF assms(2,3)] r(3) this refl, folded t_def]
  have rec: "sv_receiving i (sv_client_reset_input i (t\<lparr>s_current := None\<rparr>)) = sv_receiving i t"
    by (simp add: sv_receiving_def reset_input_eq server_simps)
  show ?thesis
  proof (rule that [of "input_loaded ?f (k_input (s_clients s i))", folded t_def], rule impI)
    assume "sv_receiving i t"
    then show "s' = sv_client_reset_input i (t\<lparr>s_current := None\<rparr>) \<and> server_fresh i s'"
      using server_frames [OF fresh fs, of k] server_frames_log [OF fresh fs assms(7)] assms(7) r(2) rec
      by (auto simp: del server_finish_def)
  qed
qed

lemma broadcast_app:
  assumes "sv_buffers_ok s" "codec_fits k"
  shows "s_app (server_broadcast k s) = s_app s"
  using assms
proof (cases rule: encode_good_cases)
  case (some payload buf)
  have "s_app (sv_broadcast_loop n p bs (s\<lparr>s_out_buf := buf\<rparr>)) = s_app (s\<lparr>s_out_buf := buf\<rparr>)" for n p bs
    by (rule sv_quietD(3)) simp
  then show ?thesis using some by (simp add: server_broadcast_def)
qed (simp add: server_broadcast_def)

text \<open>C16: What somebody says in the chat reaches everybody who is connected (the author, too), unchanged:
  when a client sends a message, each connected client's stream is extended by one frame with
  the message as the server's generated code encodes it, and by nothing else. Nobody loses the
  connection, the author's client is ready for its next message, and the server's own state and
  output stay as they are.\<close>

theorem chat_message_for_all:
  assumes "chat_codec k" "chat_callbacks s" "sv_inv A s cs ps fs" "smooth (s_sys s)" "sv_buffers_ok s"
    "i \<in> set cs" "input_fresh (k_input (s_clients s i))"
    "chat_request k i (Send_message_ind user text) as s"
    "out_encode k (Some (Message_ind user text)) (s_out_size s - header_sizeof) = Some bs"
    "s' = sv_process_client_socket_in k i as s"
  shows "sv_inv A s' cs ps fs \<and> server_fresh i s' \<and> s_app s' = s_app s \<and>
    (\<forall>j \<in> set cs. sv_stream s' j = sv_stream s j @ frame (MESSI_MESSAGE_TYPE_SERVER_TO_CLIENT_USER, bs))"
proof -
  have cb: "s_on_message s (chat_choice (Send_message_ind user text)) = Some chat_on_message_ind"
    using assms(2) by (simp add: chat_callbacks_def)
  let ?cb = "chat_on_message_ind" and ?m = "Send_message_ind user text"
  obtain inp where s': "sv_receiving i (server_served k ?cb i ?m inp s) \<longrightarrow>
    s' = sv_client_reset_input i ((server_served k ?cb i ?m inp s)\<lparr>s_current := None\<rparr>) \<and> server_fresh i s'"
    by (rule request_handled [OF assms(1,3,6,7,8) cb assms(10)])
  let ?t = "server_served k ?cb i ?m inp s"
  obtain r0 where "out_new k (s_out_workspace_size s) = Some r0" using assms(1,2) by (auto simp: chat_codec_def chat_callbacks_def)
  then obtain u where t: "?t = server_broadcast k u" "u = (server_asked i ?m inp s)\<lparr>s_app := s_app s,
      s_log := s_log s @ [Client_message i 2 ?m], s_out_message := Some (Message_ind user text)\<rparr>"
    using assms(1)
    by (simp add: server_served_def sv_callback_def chat_on_message_ind_def server_init_message_def chat_codec_def
        server_new_output_message_def server_asked_def sv_set_input_def Let_def)
  have u: "sv_inv A u cs ps fs" "smooth (s_sys u)" "sv_buffers_ok u" "s_out_size u = s_out_size s"
    "s_out_message u = Some (Message_ind user text)" "sv_stream u j = sv_stream s j" "s_app u = s_app s" for j
    using assms(3-5) by (simp_all add: t(2) server_asked_def set_input_inv server_simps sv_buffers_ok_def)
  have k: "codec_fits k" using assms(1) by (simp add: chat_codec_def)
  have e: "sv_inv A ?t cs ps fs"
    "\<forall>j \<in> set cs. sv_stream ?t j = sv_stream s j @ frame (MESSI_MESSAGE_TYPE_SERVER_TO_CLIENT_USER, bs)"
    using broadcast_effect [OF u(1-3) k t(1)] assms(9) by (simp_all add: u(4-6))
  have "s_app ?t = s_app s" using broadcast_app [OF u(3) k] u(7) by (simp add: t(1))
  moreover have eq: "s' = sv_client_reset_input i (?t\<lparr>s_current := None\<rparr>)" and "server_fresh i s'"
    using s' live_client(2) [OF e(1) assms(6)] by blast+
  ultimately show ?thesis
    using e by (auto simp add: eq reset_input_eq set_input_inv)
qed

section \<open>A chat\<close>

definition byte_char :: "byte \<Rightarrow> char" where
  "byte_char b = char_of (unat b)"

definition char_byte :: "char \<Rightarrow> byte" where
  "char_byte c = of_nat (of_char c)"

definition chat_demo_codec :: "(chat_to_server, chat_to_client) codec" where
  "chat_demo_codec =
     \<lparr>in_new = (\<lambda>n. Some No_request),
      in_decode = (\<lambda>m bs. case bs of
          [] \<Rightarrow> (0, m)
        | b # bs' \<Rightarrow>
            if b = 1 then (int (length bs), Connect_req (map byte_char bs'))
            else (case bs' of [] \<Rightarrow> (- 1, m)
              | n # r \<Rightarrow> (int (length bs), Send_message_ind (map byte_char (take (unat n) r)) (map byte_char (drop (unat n) r))))),
      in_choice = chat_choice,
      out_new = (\<lambda>n. Some No_response),
      out_encode = (\<lambda>m n. case m of
          Some (Message_ind user text) \<Rightarrow>
            (let bs = 2 # of_nat (length user) # map char_byte user @ map char_byte text
             in if length bs \<le> n then Some bs else None)
        | _ \<Rightarrow> if 1 \<le> n then Some [1] else None)\<rparr>"

text \<open>The connections of \<open>echo_two\<close>, as those of a chat server.\<close>

definition chat_two :: chat_server where
  "chat_two =
     \<lparr>s_address = ''127.0.0.1'', s_port = 6000, s_on_client_connected = sv_on_client_default,
      s_on_client_disconnected = chat_on_client_disconnected,
      s_on_message = [1 \<mapsto> chat_on_connect_req, 2 \<mapsto> chat_on_message_ind],
      s_epoll_fd = 3, s_epoll_ctl = Epoll_default, s_listener_fd = 4, s_current = None,
      s_connected = Some 1, s_free = None, s_pending = None, s_input_buffer_size = 16,
      s_in_message = None, s_in_workspace_size = 128, s_out_message = None, s_out_workspace_size = 128,
      s_out_buf = replicate 128 0, s_out_size = 128, s_max = 2,
      s_clients = (\<lambda>i. echo_junk)(0 := echo_connected 5 6 None (Some 1), 1 := echo_connected 7 8 (Some 0) None),
      s_heap = (\<lambda>a. None), s_brk = 0, s_app = \<lparr>number_of_connected_clients = 2, printed = []\<rparr>,
      s_sys = s_sys echo_two, s_log = [], s_fault = False, s_hang = False\<rparr>"

lemma chat_two_inv: "sv_inv {0, 1, 2, 3, 4} chat_two [1, 0] [] []"
proof -
  have "sv_queues chat_two (set [1, 0]) (\<lambda>i. [])"
    by (simp add: sv_queues_def tail_ok_def chat_two_def echo_connected_def)
  moreover have "sv_fds {0, 1, 2, 3, 4} chat_two [1, 0] []"
    by (simp add: sv_fds_def owned_def chat_two_def echo_two_def echo_connected_def) auto
  moreover have "sv_lists chat_two [1, 0] [] []"
    by (auto simp: sv_lists_def chat_two_def echo_connected_def prevs_ok_def)
  ultimately show ?thesis by (auto simp: sv_inv_def chat_two_def)
qed

lemma chat_demo_codec: "chat_codec chat_demo_codec"
  by (auto simp: chat_codec_def chat_demo_codec_def codec_fits_def Let_def
      split: option.splits chat_to_client.splits if_splits)

lemma chat_message_for_all_witness:
  "sv_stream (sv_process_client_socket_in chat_demo_codec 0 [Chunk [1, 0, 0, 5, 2], Chunk [1, 97, 104, 105]] chat_two) 1 =
     [2, 0, 0, 5, 2, 1, 97, 104, 105]"
proof -
  have "chat_callbacks chat_two" "smooth (s_sys chat_two)" "sv_buffers_ok chat_two"
    "input_fresh (k_input (s_clients chat_two 0))" "sv_stream chat_two 1 = []"
    using echo_smooth(2) echo_two_fresh(1)
    by (simp_all add: chat_callbacks_def sv_buffers_ok_def chat_two_def header_sizeof_def sv_stream_def
        echo_connected_def input_fresh_def input_ok_def) (simp add: echo_two_def echo_up_def)
  moreover have "chat_request chat_demo_codec 0 (Send_message_ind ''a'' ''hi'')
      [Chunk [1, 0, 0, 5, 2], Chunk [1, 97, 104, 105]] chat_two"
    unfolding chat_request_def
    by (rule exI [of _ "[2, 1, 97, 104, 105]"])
      (simp add: server_gets_def frame_def header_bytes_def messi_header_create_def messi_header_set_size_def chat_two_def
        echo_connected_def header_sizeof_def chat_demo_codec_def MESSI_MESSAGE_TYPE_CLIENT_TO_SERVER_USER_def, code_simp)
  moreover have "out_encode chat_demo_codec (Some (Message_ind ''a'' ''hi'')) (s_out_size chat_two - header_sizeof) =
      Some [2, 1, 97, 104, 105]"
    by code_simp
  ultimately show ?thesis
    using chat_message_for_all [OF chat_demo_codec _ chat_two_inv _ _ _ _ _ _ refl, of 0 "''a''" "''hi''"]
    by (simp add: frame_def header_bytes_def messi_header_create_def messi_header_set_size_def
        MESSI_MESSAGE_TYPE_SERVER_TO_CLIENT_USER_def)
qed


end
