(* ===== verification/ChatClient.thy ===== *)
theory ChatClient
  imports ChatServer EndToEnd
begin

text \<open>
  The chat client for linux, \<open>examples/chat/client/linux/main.c\<close>. Like the one for the async
  framework it collects what the user types in a buffer of 128 characters and sends it, once the
  line is complete, as a string of C.
\<close>

section \<open>The line editor\<close>

text \<open>The ghost \<open>line_overrun\<close> records a write outside of the buffer.\<close>

record line =
  line_buf :: "char list"
  line_length :: nat
  line_overrun :: bool

definition newline :: char where
  "newline = CHR 0x0A"

definition nul :: char where
  "nul = CHR 0x00"

text \<open>The string a pointer to the buffer stands for: it ends at the first \<open>NUL\<close>.\<close>

definition c_string :: "char list \<Rightarrow> string" where
  "c_string buf = takeWhile (\<lambda>c. c \<noteq> nul) buf"

lemma c_string_end: "nul \<notin> set xs \<Longrightarrow> c_string (xs @ nul # ys) = xs"
  by (induction xs) (auto simp: c_string_def)

text \<open>
  The three steps that the two clients have in common: start again when the buffer is full, store
  a character, and complete the line (with the text to send) or go on.
\<close>

definition line_room :: "line \<Rightarrow> line" where
  "line_room l = (if line_length l = 128 - 1 then l\<lparr>line_length := 0\<rparr> else l)"

definition line_store :: "char \<Rightarrow> line \<Rightarrow> line" where
  "line_store ch l = l\<lparr>line_buf := (line_buf l)[line_length l := ch],
     line_overrun := (line_overrun l \<or> length (line_buf l) \<le> line_length l)\<rparr>"

definition line_finish :: "line \<Rightarrow> string option \<times> line" where
  "line_finish l =
     (if line_buf l ! line_length l = newline
      then (let l = line_store nul l in (Some (c_string (line_buf l)), l\<lparr>line_length := 0\<rparr>))
      else (None, l\<lparr>line_length := line_length l + 1\<rparr>))"

definition line_type :: "char \<Rightarrow> line \<Rightarrow> string option \<times> line" where
  "line_type ch l = line_finish (line_store ch (line_room l))"

definition line_ok :: "line \<Rightarrow> bool" where
  "line_ok l \<longleftrightarrow> length (line_buf l) = 128 \<and> line_length l \<le> 127 \<and> \<not> line_overrun l"

lemma line_room_ok: "line_ok l \<Longrightarrow> line_ok (line_room l) \<and> line_length (line_room l) < 127"
  by (auto simp: line_room_def line_ok_def)

lemma line_type_ok: "line_ok l \<Longrightarrow> line_ok (snd (line_type ch l))"
  using line_room_ok [of l] by (auto simp: line_type_def line_finish_def line_store_def line_ok_def Let_def)

text \<open>
  A line that has been typed so far: after a multiple of 127 characters, which are forgotten, the
  buffer holds the rest.
\<close>

definition line_holds :: "string \<Rightarrow> line \<Rightarrow> bool" where
  "line_holds cs l \<longleftrightarrow> line_ok l \<and> (\<exists>a. 127 dvd length a \<and> cs = a @ take (line_length l) (line_buf l))"

lemma line_holds_type:
  assumes "line_holds cs l" "ch \<noteq> newline"
  shows "fst (line_type ch l) = None" "line_holds (cs @ [ch]) (snd (line_type ch l))"
proof -
  obtain a where a: "127 dvd length a" "cs = a @ take (line_length l) (line_buf l)" and ok: "line_ok l"
    using assms(1) by (auto simp: line_holds_def)
  let ?l = "line_room l"
  have r: "line_ok ?l" "line_length ?l < 127" using line_room_ok [OF ok] by auto
  have len: "line_length ?l < length (line_buf ?l)" using r by (simp add: line_ok_def)
  then have stored: "line_buf (line_store ch ?l) ! line_length (line_store ch ?l) = ch"
    by (simp add: line_store_def)
  then have t: "line_type ch l = (None, (line_store ch ?l)\<lparr>line_length := line_length ?l + 1\<rparr>)"
    using assms(2) by (simp add: line_type_def line_finish_def) (simp add: line_store_def)
  then show "fst (line_type ch l) = None" by simp
  have "\<exists>b. 127 dvd length b \<and> cs = b @ take (line_length ?l) (line_buf ?l)"
  proof (cases "line_length l = 127")
    case True
    then have "127 dvd length cs" using a ok by (auto simp: line_ok_def)
    then show ?thesis using True by (intro exI [of _ cs]) (simp add: line_room_def)
  next
    case False
    then show ?thesis using a by (auto simp: line_room_def)
  qed
  then obtain b where b: "127 dvd length b" "cs = b @ take (line_length ?l) (line_buf ?l)" by blast
  have "take (line_length ?l + 1) ((line_buf ?l)[line_length ?l := ch]) = take (line_length ?l) (line_buf ?l) @ [ch]"
    using len by (simp add: take_Suc_conv_app_nth)
  then have "cs @ [ch] = b @ take (line_length ?l + 1) ((line_buf ?l)[line_length ?l := ch])" using b(2) by simp
  then show "line_holds (cs @ [ch]) (snd (line_type ch l))"
    unfolding line_holds_def t using r b(1) by (auto simp: line_store_def line_ok_def)
qed

lemma line_holds_finish:
  assumes "line_holds cs l" "nul \<notin> set cs"
  shows "fst (line_type newline l) = Some (drop (127 * (length cs div 127)) cs)"
    "line_holds [] (snd (line_type newline l))"
proof -
  obtain a where a: "127 dvd length a" "cs = a @ take (line_length l) (line_buf l)" and ok: "line_ok l"
    using assms(1) by (auto simp: line_holds_def)
  let ?l = "line_room l"
  have r: "line_ok ?l" "line_length ?l < 127" using line_room_ok [OF ok] by auto
  then have len: "line_length ?l < length (line_buf ?l)" by (simp add: line_ok_def)
  have t: "line_type newline l = (Some (c_string ((line_buf ?l)[line_length ?l := nul])),
      (line_store nul (line_store newline ?l))\<lparr>line_length := 0\<rparr>)"
    using len by (simp add: line_type_def line_finish_def line_store_def Let_def)
  show "line_holds [] (snd (line_type newline l))"
    unfolding line_holds_def t using r by (simp add: line_store_def line_ok_def)
  have rest: "take (line_length ?l) (line_buf ?l) = drop (127 * (length cs div 127)) cs"
  proof (cases "line_length l = 127")
    case True
    then have "127 dvd length cs" using a ok by (auto simp: line_ok_def)
    then show ?thesis using True by (auto simp: line_room_def)
  next
    case False
    then have "length (take (line_length l) (line_buf l)) < 127" using ok by (simp add: line_ok_def)
    moreover obtain m where m: "length a = 127 * m" using a(1) by auto
    moreover have "length cs = length a + length (take (line_length l) (line_buf l))"
      using arg_cong [OF a(2), of length] by (simp only: length_append)
    ultimately have "127 * (length cs div 127) = length a" by simp
    then show ?thesis using a(2) False by (simp add: line_room_def)
  qed
  have "nul \<notin> set (take (line_length ?l) (line_buf ?l))"
    using assms(2) set_drop_subset [of "127 * (length cs div 127)" cs] unfolding rest by blast
  moreover have "(line_buf ?l)[line_length ?l := nul] =
      take (line_length ?l) (line_buf ?l) @ nul # drop (Suc (line_length ?l)) (line_buf ?l)"
    using len by (rule upd_conv_take_nth_drop)
  ultimately have "c_string ((line_buf ?l)[line_length ?l := nul]) = take (line_length ?l) (line_buf ?l)"
    using c_string_end by simp
  then show "fst (line_type newline l) = Some (drop (127 * (length cs div 127)) cs)"
    by (simp add: t rest)
qed

section \<open>The client\<close>

datatype chat_client_print =
    Usage "string option" | Server_uri string | Init_failed
  | Connected_text | Disconnected_text string | Said string string

record chat_user =
  user_line :: line
  user_connected :: bool
  user_name :: string
  user_printed :: "chat_client_print list"

type_synonym chat_client = "(chat_user, chat_to_client, chat_to_server) client"

definition user_print :: "chat_client_print \<Rightarrow> chat_user \<Rightarrow> chat_user" where
  "user_print p u = u\<lparr>user_printed := user_printed u @ [p]\<rparr>"

definition chat_on_connected :: "chat_user \<Rightarrow> chat_user \<times> chat_to_server client_request list" where
  "chat_on_connected u = (u, [Init_message (\<lambda>_. Connect_req (user_name u)), Client_send])"

definition chat_on_disconnected ::
    "disconnect_reason \<Rightarrow> chat_user \<Rightarrow> chat_user \<times> chat_to_server client_request list" where
  "chat_on_disconnected reason u =
     (let u = user_print (Disconnected_text (messi_disconnect_reason_string (reason_code reason))) u;
          u = u\<lparr>user_line := (user_line u)\<lparr>line_length := 0\<rparr>\<rparr>
      in (u\<lparr>user_connected := False\<rparr>, []))"

definition chat_on_connect_rsp ::
    "chat_to_client \<Rightarrow> chat_user \<Rightarrow> chat_user \<times> chat_to_server client_request list" where
  "chat_on_connect_rsp m u = ((user_print Connected_text u)\<lparr>user_connected := True\<rparr>, [])"

definition chat_on_message ::
    "chat_to_client \<Rightarrow> chat_user \<Rightarrow> chat_user \<times> chat_to_server client_request list" where
  "chat_on_message m u =
     (case m of Message_ind user text \<Rightarrow> (user_print (Said user text) u, []) | _ \<Rightarrow> (u, []))"

definition chat_send_message_ind ::
    "(chat_to_client, chat_to_server) codec \<Rightarrow> string \<Rightarrow> chat_client \<Rightarrow> chat_client" where
  "chat_send_message_ind k text c =
     client_send k (client_init_message k (\<lambda>_. Send_message_ind (user_name (c_app c)) text) c)"

text \<open>\<open>user_input\<close> with what waits on the standard input; a read that fails leaves the buffer as it is.\<close>

definition STDIN_FILENO :: fd where
  "STDIN_FILENO = 0"

definition chat_set_line :: "line \<Rightarrow> chat_client \<Rightarrow> chat_client" where
  "chat_set_line l c = c\<lparr>c_app := (c_app c)\<lparr>user_line := l\<rparr>\<rparr>"

definition chat_user_input ::
    "(chat_to_client, chat_to_server) codec \<Rightarrow> arrival list \<Rightarrow> chat_client \<Rightarrow> chat_client" where
  "chat_user_input k as c =
     (let l = line_room (user_line (c_app c));
          l = (case fst (sys_read STDIN_FILENO 1 as (c_sys c)) of
                 Inr (b # bs) \<Rightarrow> line_store (byte_char b) l
               | _ \<Rightarrow> l);
          c = chat_set_line l c
      in if \<not> user_connected (c_app c) then c
         else (case line_finish l of
             (Some text, l') \<Rightarrow> chat_set_line l' (chat_send_message_ind k text c)
           | (None, l') \<Rightarrow> chat_set_line l' c))"

definition chat_client_parse_args :: "string list \<Rightarrow> (string \<times> string) option" where
  "chat_client_parse_args argv =
     (if length argv < 2 then None
      else Some (argv ! 1, if length argv = 3 then argv ! 2 else ''tcp://127.0.0.1:6000''))"

definition chat_client_init :: "string \<Rightarrow> byte list \<Rightarrow> byte list \<Rightarrow> fd \<Rightarrow> chat_client \<Rightarrow> int \<times> chat_client" where
  "chat_client_init uri encoded_in encoded_out epoll_fd c =
     client_init uri encoded_in 128 encoded_out 128 (Some chat_on_connected) (Some chat_on_disconnected)
       [(1, Some chat_on_connect_rsp), (2, Some chat_on_message)] epoll_fd None c"

definition chat_client_event ::
    "(chat_to_client, chat_to_server) codec \<Rightarrow> fd \<times> u32 \<times> arrival list \<Rightarrow> chat_client \<Rightarrow> chat_client" where
  "chat_client_event k ev c =
     (case ev of (d, events, as) \<Rightarrow>
        if d = STDIN_FILENO then chat_user_input k as c else client_process k d events as c)"

text \<open>\<open>main\<close> with its exit code; the loop ends when \<open>epoll_wait\<close> has delivered all events and fails.\<close>

definition chat_client_main ::
    "(chat_to_client, chat_to_server) codec \<Rightarrow> string list \<Rightarrow> byte list \<Rightarrow> byte list \<Rightarrow>
     (fd \<times> u32 \<times> arrival list) list \<Rightarrow> chat_client \<Rightarrow> int \<times> chat_client" where
  "chat_client_main k argv encoded_in encoded_out evs c =
     (case chat_client_parse_args argv of
        None \<Rightarrow>
          (1, c\<lparr>c_app := user_print (Usage (case argv of [] \<Rightarrow> None | a # _ \<Rightarrow> Some a)) (c_app c)\<rparr>)
      | Some (user, uri) \<Rightarrow>
          (let c = c\<lparr>c_app := user_print (Server_uri uri) ((c_app c)\<lparr>user_name := user, user_connected := False\<rparr>)\<rparr>;
               (epoll_fd, os) = sys_epoll_create1 (c_sys c); c = c\<lparr>c_sys := os\<rparr>
           in if epoll_fd = - 1 then (1, c)
              else
           let (res, os) = sys_epoll_ctl epoll_fd EPOLL_CTL_ADD STDIN_FILENO EPOLLIN (c_sys c); c = c\<lparr>c_sys := os\<rparr>
           in if res \<noteq> 0 then (1, c)
              else
           let c = chat_set_line ((user_line (c_app c))\<lparr>line_length := 0\<rparr>) c;
               (res, c) = chat_client_init uri encoded_in encoded_out epoll_fd c
           in if res \<noteq> 0
              then (1, c\<lparr>c_app := user_print Init_failed (c_app c)\<rparr>)
              else (0, fold (chat_client_event k) evs (client_start k c))))"

section \<open>What the user types\<close>

lemma byte_char [simp]: "byte_char (char_byte ch) = ch"
proof -
  have "(of_char ch :: nat) < 256" by (rule nat_of_char_less_256)
  then show ?thesis by (simp add: byte_char_def char_byte_def unsigned_of_nat take_bit_nat_def)
qed

text \<open>A key stroke while the client is connected.\<close>

lemma user_input_step:
  assumes "user_connected (c_app c)" "STDIN_FILENO \<in> set (fds (c_sys c))"
  shows "chat_user_input k [Chunk [char_byte ch]] c =
    (case line_type ch (user_line (c_app c)) of
       (None, l') \<Rightarrow> chat_set_line l' c
     | (Some text, l') \<Rightarrow> chat_set_line l' (client_say k (Send_message_ind (user_name (c_app c)) text) c))"
proof -
  let ?l = "line_store ch (line_room (user_line (c_app c)))"
  have "sys_read STDIN_FILENO 1 [Chunk [char_byte ch]] (c_sys c) = (Inr [char_byte ch], [])"
    using assms(2) by (simp add: sys_read_def)
  then have input: "chat_user_input k [Chunk [char_byte ch]] c =
      (let c = chat_set_line ?l c in
       case line_finish ?l of
         (Some text, l') \<Rightarrow> chat_set_line l' (chat_send_message_ind k text c)
       | (None, l') \<Rightarrow> chat_set_line l' c)"
    using assms(1) by (simp add: chat_user_input_def chat_set_line_def Let_def)
  have say: "chat_set_line l' (chat_send_message_ind k msg (chat_set_line l c)) =
      chat_set_line l' (client_say k (Send_message_ind (user_name (c_app c)) msg) c)" for l l' msg
    by (simp add: chat_set_line_def chat_send_message_ind_def client_say_def [symmetric] client_say_app
        client_say_same_app)
  have set: "chat_set_line l' (chat_set_line l c) = chat_set_line l' c" for l l'
    by (simp add: chat_set_line_def)
  obtain x l' where "line_finish ?l = (x, l')" by fastforce
  then show ?thesis
    unfolding input line_type_def by (cases x) (simp_all only: Let_def prod.case option.case say set)
qed

lemma set_line_same: "chat_set_line l' (chat_set_line l c) = chat_set_line l' c"
  "user_line (c_app (chat_set_line l c)) = l" "user_connected (c_app (chat_set_line l c)) = user_connected (c_app c)"
  "user_name (c_app (chat_set_line l c)) = user_name (c_app c)" "c_sys (chat_set_line l c) = c_sys c"
  by (simp_all add: chat_set_line_def)

lemma typed_line:
  assumes "user_connected (c_app c)" "STDIN_FILENO \<in> set (fds (c_sys c))" "line_holds as (user_line (c_app c))"
    "newline \<notin> set cs"
  shows "\<exists>l. fold (\<lambda>ch. chat_user_input k [Chunk [char_byte ch]]) cs c = chat_set_line l c \<and> line_holds (as @ cs) l"
  using assms
proof (induction cs arbitrary: c as)
  case Nil
  then show ?case by (intro exI [of _ "user_line (c_app c)"]) (simp add: chat_set_line_def)
next
  case (Cons ch cs)
  obtain l where l: "line_type ch (user_line (c_app c)) = (None, l)" "line_holds (as @ [ch]) l"
    using line_holds_type [OF Cons.prems(3), of ch] Cons.prems(4) by (cases "line_type ch (user_line (c_app c))") auto
  then have "chat_user_input k [Chunk [char_byte ch]] c = chat_set_line l c"
    using user_input_step [OF Cons.prems(1,2)] by simp
  then show ?case
    using Cons.IH [of "chat_set_line l c" "as @ [ch]"] Cons.prems l(2) by (simp add: set_line_same)
qed

text \<open>C34: The line editor of the chat client never writes outside of its buffer of 128 characters, and what
  it sends when the user completes a line is exactly one message with the user's name and the
  characters of the line; of a line with 127 characters or more, only what follows the last full
  127 characters is sent (the code starts again at the front of the buffer, without a notice).
  Then it is ready for the next line.\<close>

theorem chat_client_line:
  assumes "user_connected (c_app c)" "STDIN_FILENO \<in> set (fds (c_sys c))"
    "line_ok (user_line (c_app c))" "line_length (user_line (c_app c)) = 0"
    "newline \<notin> set cs" "nul \<notin> set cs"
    "c' = fold (\<lambda>ch. chat_user_input k [Chunk [char_byte ch]]) (cs @ [newline]) c"
  shows "\<exists>l. line_ok l \<and> line_length l = 0 \<and>
    c' = chat_set_line l (client_say k (Send_message_ind (user_name (c_app c)) (drop (127 * (length cs div 127)) cs)) c)"
proof -
  have "line_holds [] (user_line (c_app c))" using assms(3,4) by (simp add: line_holds_def)
  from typed_line [OF assms(1,2) this assms(5), of k]
  obtain l where l: "fold (\<lambda>ch. chat_user_input k [Chunk [char_byte ch]]) cs c = chat_set_line l c" "line_holds cs l"
    by auto
  obtain l' where l': "line_type newline l = (Some (drop (127 * (length cs div 127)) cs), l')" "line_holds [] l'"
    using line_holds_finish [OF l(2) assms(6)] by (cases "line_type newline l") auto
  have "line_length l' = 0" "line_ok l'" using l'(2) by (auto simp: line_holds_def line_ok_def)
  moreover have "chat_set_line l' (client_say k m (chat_set_line l c)) = chat_set_line l' (client_say k m c)" for m
    by (simp add: chat_set_line_def client_say_app client_say_same_app)
  ultimately show ?thesis
    using user_input_step [of "chat_set_line l c" k newline] assms(1,2) l'(1)
    by (auto simp: assms(7) l(1) set_line_same)
qed

section \<open>A user\<close>

text \<open>The client side of \<open>chat_demo_codec\<close>.\<close>

definition chat_demo_client_codec :: "(chat_to_client, chat_to_server) codec" where
  "chat_demo_client_codec =
     \<lparr>in_new = (\<lambda>n. Some No_response),
      in_decode = (\<lambda>m bs. case bs of
          [] \<Rightarrow> (0, m)
        | b # r \<Rightarrow>
            if b = 1 then (int (length bs), Connect_rsp)
            else (case r of [] \<Rightarrow> (- 1, m)
              | n # r \<Rightarrow> (int (length bs), Message_ind (map byte_char (take (unat n) r)) (map byte_char (drop (unat n) r))))),
      in_choice = (\<lambda>m. case m of No_response \<Rightarrow> 0 | Connect_rsp \<Rightarrow> 1 | Message_ind user text \<Rightarrow> 2),
      out_new = (\<lambda>n. Some No_request),
      out_encode = (\<lambda>m n.
          let bs = (case m of
              Some (Send_message_ind user text) \<Rightarrow>
                2 # of_nat (length user) # map char_byte user @ map char_byte text
            | Some (Connect_req user) \<Rightarrow> 1 # map char_byte user
            | _ \<Rightarrow> [])
          in if length bs \<le> n then Some bs else None)\<rparr>"

definition chat_ann :: chat_client where
  "chat_ann =
     \<lparr>c_address = ''127.0.0.1'', c_port = 6000, c_disconnect_reason = General_error,
      c_on_connected = chat_on_connected, c_on_disconnected = chat_on_disconnected,
      c_on_message = [1 \<mapsto> chat_on_connect_rsp, 2 \<mapsto> chat_on_message], c_epoll_fd = 3, c_epoll_ctl = Epoll_default,
      c_server_fd = 4, c_keep_alive_timer_fd = 5, c_reconnect_timer_fd = - 1,
      c_pong_received = True, c_pending_disconnect = False, c_in_message = None,
      c_in_workspace_size = 128,
      c_input = \<lparr>i_buf = replicate 128 0, i_cap = 128, i_size = 0, i_left = 4, i_state = Header, i_overrun = False\<rparr>,
      c_out_message = None, c_out_workspace_size = 128, c_out_buf = replicate 128 0, c_out_size = 128,
      c_app = \<lparr>user_line = \<lparr>line_buf = replicate 128 (CHR ''x''), line_length = 0, line_overrun = False\<rparr>, user_connected = True,
        user_name = ''a'', user_printed = []\<rparr>,
      c_sys = \<lparr>outcomes = [], wscript = [], fds = [5, 4, 3, 2, 1, 0], interest = (\<lambda>d. None), armed = (\<lambda>d. None),
        fdflags = (\<lambda>d. 0), tx = (\<lambda>d. []), peer = (\<lambda>d. None), aton = (\<lambda>s. None), mallocs = []\<rparr>,
      c_log = [], c_fault = False\<rparr>"

lemma ann_says:
  "tx (c_sys (client_say chat_demo_client_codec (Send_message_ind ''a'' ''hi'') chat_ann)) 4 = [1, 0, 0, 5, 2, 1, 97, 104, 105]"
proof -
  have k: "codec_fits chat_demo_client_codec" "out_new chat_demo_client_codec 128 \<noteq> None"
    by (auto simp: codec_fits_def chat_demo_client_codec_def Let_def split: if_splits)
  then have "client_can_send chat_demo_client_codec chat_ann"
    by (simp add: client_can_send_def client_alive_def chat_ann_def header_sizeof_def)
  moreover have "out_encode chat_demo_client_codec (Some (Send_message_ind ''a'' ''hi'')) (128 - header_sizeof) =
      Some [2, 1, 97, 104, 105]"
    by code_simp
  moreover have "c_out_size chat_ann = 128" "c_server_fd chat_ann = 4" "tx (c_sys chat_ann) 4 = []"
    by (simp_all add: chat_ann_def)
  ultimately show ?thesis
    using client_say_effect(4) [OF _ _ refl, of chat_demo_client_codec chat_ann "Send_message_ind ''a'' ''hi''"]
    by (simp add: frame_def header_bytes_def messi_header_create_def
        messi_header_set_size_def MESSI_MESSAGE_TYPE_CLIENT_TO_SERVER_USER_def)
qed

lemma chat_client_line_witness:
  "tx (c_sys (fold (\<lambda>ch. chat_user_input chat_demo_client_codec [Chunk [char_byte ch]]) (''hi'' @ [newline]) chat_ann)) 4 =
     [1, 0, 0, 5, 2, 1, 97, 104, 105]"
proof -
  have ann: "user_connected (c_app chat_ann)" "STDIN_FILENO \<in> set (fds (c_sys chat_ann))"
    "line_ok (user_line (c_app chat_ann))" "line_length (user_line (c_app chat_ann)) = 0" "user_name (c_app chat_ann) = ''a''"
    by (simp_all add: chat_ann_def STDIN_FILENO_def line_ok_def)
  have hi: "newline \<notin> set ''hi''" "nul \<notin> set ''hi''"
    by code_simp+
  obtain l where
    "fold (\<lambda>ch. chat_user_input chat_demo_client_codec [Chunk [char_byte ch]]) (''hi'' @ [newline]) chat_ann =
     chat_set_line l (client_say chat_demo_client_codec (Send_message_ind ''a'' ''hi'') chat_ann)"
    using chat_client_line [OF ann(1-4) hi refl, of chat_demo_client_codec] ann(5) by auto
  then show ?thesis by (simp only: set_line_same ann_says)
qed

end
