(* ===== verification/ChatAsyncClient.thy ===== *)
theory ChatAsyncClient
  imports ChatClient AsyncClientFacts
begin

text \<open>
  The chat client for the async framework, \<open>examples/chat/client/async/client.c\<close>: its callbacks, the
  function that sets it up and the one that the framework calls for each character the user
  types; and the program around it, \<open>main.c\<close>. Its line editor is that of the linux client.
\<close>

type_synonym async_chat_client = "(chat_user, chat_to_client, chat_to_server) async_client"

definition async_chat_on_connected :: "chat_user \<Rightarrow> chat_user \<times> chat_to_server client_request list" where
  "async_chat_on_connected u = (u, [Init_message (\<lambda>_. Connect_req (user_name u)), Client_send])"

definition async_chat_on_disconnected ::
    "disconnect_reason \<Rightarrow> chat_user \<Rightarrow> chat_user \<times> chat_to_server client_request list" where
  "async_chat_on_disconnected reason u =
     ((user_print (Disconnected_text (messi_disconnect_reason_string (reason_code reason))) u)
       \<lparr>user_connected := False\<rparr>, [])"

definition async_chat_on_connect_rsp ::
    "chat_to_client \<Rightarrow> chat_user \<Rightarrow> chat_user \<times> chat_to_server client_request list" where
  "async_chat_on_connect_rsp m u = ((user_print Connected_text u)\<lparr>user_connected := True\<rparr>, [])"

definition async_chat_on_message_ind ::
    "chat_to_client \<Rightarrow> chat_user \<Rightarrow> chat_user \<times> chat_to_server client_request list" where
  "async_chat_on_message_ind m u =
     (case m of Message_ind user text \<Rightarrow> (user_print (Said user text) u, []) | _ \<Rightarrow> (u, []))"

definition async_chat_send_message ::
    "(chat_to_client, chat_to_server) codec \<Rightarrow> string \<Rightarrow> async_chat_client \<Rightarrow> async_chat_client" where
  "async_chat_send_message k text c =
     async_client_send k (async_client_init_message k (\<lambda>_. Send_message_ind (user_name (a_app c)) text) c)"

definition async_chat_set_line :: "line \<Rightarrow> async_chat_client \<Rightarrow> async_chat_client" where
  "async_chat_set_line l c = c\<lparr>a_app := (a_app c)\<lparr>user_line := l\<rparr>\<rparr>"

text \<open>The result of the library's \<open>init\<close> is ignored, as in the code.\<close>

definition async_chat_client_init ::
    "string \<Rightarrow> string \<Rightarrow> byte list \<Rightarrow> byte list \<Rightarrow> async_chat_client \<Rightarrow> async_chat_client" where
  "async_chat_client_init name uri encoded_in encoded_out c =
     (let c = c\<lparr>a_app := (a_app c)\<lparr>user_name := name\<rparr>\<rparr>;
          c = async_chat_set_line ((user_line (a_app c))\<lparr>line_length := 0\<rparr>) c;
          c = c\<lparr>a_app := (a_app c)\<lparr>user_connected := False\<rparr>\<rparr>;
          (_, c) = async_client_init uri encoded_in 128 encoded_out 128
            (Some async_chat_on_connected) (Some async_chat_on_disconnected)
            [(1, Some async_chat_on_connect_rsp), (2, Some async_chat_on_message_ind)] c
      in async_client_start c)"

definition async_chat_user_input ::
    "(chat_to_client, chat_to_server) codec \<Rightarrow> char \<Rightarrow> async_chat_client \<Rightarrow> async_chat_client" where
  "async_chat_user_input k ch c =
     (if \<not> user_connected (a_app c) then c
      else
        (let l = line_store ch (line_room (user_line (a_app c)));
             c = async_chat_set_line l c
         in case line_finish l of
              (Some text, l') \<Rightarrow> async_chat_set_line l' (async_chat_send_message k text c)
            | (None, l') \<Rightarrow> async_chat_set_line l' c))"

section \<open>Starting\<close>

lemma async_chat_client_starts:
  assumes "messi_parse_tcp_uri uri 16 = Some (address, prt)" "c' = async_chat_client_init name uri ein eout c"
  shows "a_address c' = address \<and> a_port c' = prt \<and> \<not> user_connected (a_app c') \<and> \<not> a_is_connected c' \<and>
    a_calls c' = a_calls c @ [Stcp_init, Timer_init Keep_alive_timer 2000 0, Timer_init Reconnect_timer 1000 0,
      Stcp_connect address prt]"
  using assms by (simp add: async_chat_client_init_def async_client_init_def async_client_start_def ac_call_def
      ac_reset_input_encoded_def async_chat_set_line_def Let_def)

text \<open>An URI that cannot be parsed goes unnoticed: the client connects to whatever its memory held.\<close>

lemma async_chat_client_bad_uri:
  assumes "messi_parse_tcp_uri uri 16 = None" "c' = async_chat_client_init name uri ein eout c"
  shows "a_calls c' = a_calls c @ [Stcp_connect (a_address c) (a_port c)]"
  using assms by (simp add: async_chat_client_init_def async_client_init_def async_client_start_def ac_call_def
      async_chat_set_line_def Let_def)

section \<open>What the user types\<close>

definition async_client_say :: "('i, 'o) codec \<Rightarrow> 'o \<Rightarrow> ('u, 'i, 'o) async_client \<Rightarrow> ('u, 'i, 'o) async_client" where
  "async_client_say k m c = async_client_send k (async_client_init_message k (\<lambda>_. m) c)"

lemma async_say_app:
  "async_client_say k m (c\<lparr>a_app := u\<rparr>) = (async_client_say k m c)\<lparr>a_app := u\<rparr>"
  "a_app (async_client_say k m c) = a_app c"
  by (simp_all add: async_client_say_def async_client_send_def async_client_init_message_def ac_call_def
      async_client_new_output_message_def ac_disconnect_and_start_reconnect_timer_def Let_def split: option.split)

lemma async_set_line_simps [simp]:
  "async_chat_set_line l' (async_chat_set_line l c) = async_chat_set_line l' c"
  "user_line (a_app (async_chat_set_line l c)) = l"
  "user_connected (a_app (async_chat_set_line l c)) = user_connected (a_app c)"
  "user_name (a_app (async_chat_set_line l c)) = user_name (a_app c)"
  "a_calls (async_chat_set_line l c) = a_calls c"
  by (simp_all add: async_chat_set_line_def)

lemma async_say_set_line:
  "async_chat_set_line l' (async_client_say k m (async_chat_set_line l c)) = async_chat_set_line l' (async_client_say k m c)"
  by (simp add: async_chat_set_line_def async_say_app)

lemma async_user_input_step:
  assumes "user_connected (a_app c)"
  shows "async_chat_user_input k ch c =
    (case line_type ch (user_line (a_app c)) of
       (None, l') \<Rightarrow> async_chat_set_line l' c
     | (Some text, l') \<Rightarrow> async_chat_set_line l' (async_client_say k (Send_message_ind (user_name (a_app c)) text) c))"
proof -
  have send: "async_chat_send_message k msg (async_chat_set_line l c) =
      async_client_say k (Send_message_ind (user_name (a_app c)) msg) (async_chat_set_line l c)" for l msg
    by (simp add: async_chat_send_message_def async_client_say_def)
  show ?thesis
    using assms by (auto simp: async_chat_user_input_def line_type_def Let_def send async_say_set_line
        split: prod.split option.split)
qed

lemma async_typed_line:
  assumes "user_connected (a_app c)" "line_holds as (user_line (a_app c))" "newline \<notin> set cs"
  shows "\<exists>l. fold (async_chat_user_input k) cs c = async_chat_set_line l c \<and> line_holds (as @ cs) l"
  using assms
proof (induction cs arbitrary: c as)
  case Nil
  then show ?case by (intro exI [of _ "user_line (a_app c)"]) (simp add: async_chat_set_line_def)
next
  case (Cons ch cs)
  obtain l where l: "line_type ch (user_line (a_app c)) = (None, l)" "line_holds (as @ [ch]) l"
    using line_holds_type [OF Cons.prems(2), of ch] Cons.prems(3) by (cases "line_type ch (user_line (a_app c))") auto
  then show ?case
    using Cons.IH [of "async_chat_set_line l c" "as @ [ch]"] Cons.prems by (simp add: async_user_input_step)
qed

text \<open>
  A line that is completed is sent, and the editor starts again. What was typed before a
  disconnection is kept, and is the beginning of the line that is completed after it: unlike the
  linux client, this one does not start again when the connection is lost.
\<close>

lemma async_chat_client_line:
  assumes "user_connected (a_app c)" "line_holds as (user_line (a_app c))" "newline \<notin> set cs" "nul \<notin> set (as @ cs)"
  shows "\<exists>l. line_holds [] l \<and> fold (async_chat_user_input k) (cs @ [newline]) c =
    async_chat_set_line l (async_client_say k
      (Send_message_ind (user_name (a_app c)) (drop (127 * (length (as @ cs) div 127)) (as @ cs))) c)"
proof -
  obtain l where l: "fold (async_chat_user_input k) cs c = async_chat_set_line l c" "line_holds (as @ cs) l"
    using async_typed_line [OF assms(1-3)] by blast
  obtain l' where l': "line_type newline l = (Some (drop (127 * (length (as @ cs) div 127)) (as @ cs)), l')" "line_holds [] l'"
    using line_holds_finish [OF l(2) assms(4)] by (cases "line_type newline l") auto
  then show ?thesis
    using assms(1) by (intro exI [of _ l']) (simp add: l(1) async_user_input_step async_say_set_line)
qed

lemma async_chat_disconnected_keeps_line:
  "user_line (fst (async_chat_on_disconnected r u)) = user_line u"
  "line_length (user_line (fst (chat_on_disconnected r u))) = 0"
  by (simp_all add: async_chat_on_disconnected_def chat_on_disconnected_def user_print_def Let_def)

section \<open>The program\<close>

text \<open>
  \<open>examples/chat/client/async/main.c\<close>. One thread reads what the user types, a character at a time, and
  has the framework call \<open>client_user_input\<close> with each of them in turn; it ends the process when no
  memory is left (then the exit code is the second component), and ends itself when the input does.
\<close>

definition async_chat_parse_args :: "string list \<Rightarrow> string option" where
  "async_chat_parse_args argv = (if length argv \<noteq> 2 then None else Some (argv ! 1))"

function forward_stdin_to_client_main :: "arrival list \<Rightarrow> os \<Rightarrow> char list \<times> int option" where
  "forward_stdin_to_client_main as os =
     (let (ok, os) = sys_malloc os
      in if \<not> ok then ([], Some 1)
         else (case sys_read STDIN_FILENO 1 as os of
             (Inr (b # bs), as') \<Rightarrow>
               (let (cs, code) = forward_stdin_to_client_main as' os in (byte_char b # cs, code))
           | _ \<Rightarrow> ([], None)))"
  by pat_completeness auto

termination
  by (relation "measure (\<lambda>(as, os). arrivals_size as)") (auto intro: sys_read_decreases [OF sym])

declare forward_stdin_to_client_main.simps [simp del]

text \<open>
  \<open>main\<close>. The framework is not part of the program: \<open>fw n\<close> is what it does with the client, in its own
  thread, before it hands over the \<open>n\<close>-th character.
\<close>

primrec async_chat_hand_over ::
    "(chat_to_client, chat_to_server) codec \<Rightarrow> (nat \<Rightarrow> async_chat_client \<Rightarrow> async_chat_client) \<Rightarrow> nat \<Rightarrow> char list \<Rightarrow>
     async_chat_client \<Rightarrow> async_chat_client" where
  "async_chat_hand_over k fw n [] c = fw n c"
| "async_chat_hand_over k fw n (ch # cs) c =
     async_chat_hand_over k fw (Suc n) cs (async_chat_user_input k ch (fw n c))"

definition async_chat_client_main ::
    "(chat_to_client, chat_to_server) codec \<Rightarrow> (nat \<Rightarrow> async_chat_client \<Rightarrow> async_chat_client) \<Rightarrow> string list \<Rightarrow>
     byte list \<Rightarrow> byte list \<Rightarrow> arrival list \<Rightarrow> os \<Rightarrow> async_chat_client \<Rightarrow> int option \<times> async_chat_client" where
  "async_chat_client_main k fw argv encoded_in encoded_out as os c =
     (case async_chat_parse_args argv of
        None \<Rightarrow>
          (Some 1, c\<lparr>a_app := user_print (Usage (case argv of [] \<Rightarrow> None | a # _ \<Rightarrow> Some a)) (a_app c)\<rparr>)
      | Some user \<Rightarrow>
          (let c = async_chat_client_init user ''tcp://127.0.0.1:6000'' encoded_in encoded_out c;
               (cs, code) = forward_stdin_to_client_main as os
           in (code, async_chat_hand_over k fw 0 cs c)))"

text \<open>Every character reaches the line editor, in order, until the input ends.\<close>

lemma forward_stdin:
  assumes "STDIN_FILENO \<in> set (fds os)" "mallocs os = []"
  shows "forward_stdin_to_client_main as os = (map byte_char (arrived as), None)"
  using assms
proof (induction "arrivals_size as" arbitrary: as rule: less_induct)
  case less
  have malloc: "sys_malloc os = (True, os)" by (simp add: sys_malloc_def less.prems(2))
  show ?case
  proof (cases as)
    case Nil
    then show ?thesis
      using less.prems by (subst forward_stdin_to_client_main.simps) (simp add: malloc sys_read_def)
  next
    case (Cons a as')
    show ?thesis
    proof (cases a)
      case (Chunk bs)
      then show ?thesis
        using less.prems less.hyps [of "tl as"] less.hyps [of "Chunk (tl bs) # as'"] Cons
        by (subst forward_stdin_to_client_main.simps) (cases bs; auto simp: malloc sys_read_def)
    qed (use less.prems Cons in \<open>subst forward_stdin_to_client_main.simps, simp add: malloc sys_read_def\<close>)
  qed
qed

text \<open>
  What is typed while the framework has nothing to do reaches the line editor; before the server
  has accepted the user, it is dropped.
\<close>

lemma async_chat_hand_over_fold:
  "\<forall>n. fw n = (\<lambda>c. c) \<Longrightarrow> async_chat_hand_over k fw n cs c = fold (async_chat_user_input k) cs c"
  by (induction cs arbitrary: n c) simp_all

lemma async_chat_input_dropped:
  "\<not> user_connected (a_app c) \<Longrightarrow> fold (async_chat_user_input k) cs c = c"
  by (induction cs) (simp_all add: async_chat_user_input_def)

end
