(* ===== verification/MyProtocol.thy ===== *)
theory MyProtocol
  imports ChatServer AsyncClient
begin

text \<open>
  The programs of \<open>examples/my_protocol\<close>: the server \<open>server/linux/main.c\<close>, the client
  \<open>client/linux/main.c\<close> and the one for the async framework, \<open>client/async/client.c\<close>. The messages are
  those of \<open>my_protocol.proto\<close>; none of them has fields.

  A callback that calls \<open>exit\<close> notes the exit code in its state and does nothing more; the loop of
  \<open>main\<close> ends after the event with that code. What the library still does in the same event, after
  the callback, is to release the connection (server) or to set a timer (client), which nobody
  can see of a process that is gone.
\<close>

section \<open>Messages\<close>

datatype my_to_server = No_my_request | Foo_req | Bar_ind | Fie_rsp

datatype my_to_client = No_my_response | Foo_rsp | Fie_req

fun my_server_choice :: "my_to_server \<Rightarrow> nat" where
  "my_server_choice No_my_request = 0"
| "my_server_choice Foo_req = 1"
| "my_server_choice Bar_ind = 2"
| "my_server_choice Fie_rsp = 3"

fun my_client_choice :: "my_to_client \<Rightarrow> nat" where
  "my_client_choice No_my_response = 0"
| "my_client_choice Foo_rsp = 1"
| "my_client_choice Fie_req = 2"

section \<open>The server\<close>

text \<open>The static counter of \<open>on_bar_ind\<close>, the exit code, and the lines printed so far.\<close>

record my_server_app =
  bar_count :: int
  server_exit :: "int option"
  server_lines :: "string list"

type_synonym my_server = "(my_server_app, my_to_server, my_to_client) server"

definition server_line :: "string \<Rightarrow> my_server_app \<Rightarrow> my_server_app" where
  "server_line l u = u\<lparr>server_lines := server_lines u @ [l]\<rparr>"

definition my_on_foo_req ::
    "nat \<Rightarrow> my_to_server \<Rightarrow> my_server_app \<Rightarrow> my_server_app \<times> my_to_client server_request list" where
  "my_on_foo_req i m u =
     (server_line ''Got FooReq. Sending FooRsp.'' u, [Prepare_message (\<lambda>_. Foo_rsp), Reply])"

definition my_on_bar_ind ::
    "nat \<Rightarrow> my_to_server \<Rightarrow> my_server_app \<Rightarrow> my_server_app \<times> my_to_client server_request list" where
  "my_on_bar_ind i m u =
     (let u = u\<lparr>bar_count := c_int (bar_count u + 1)\<rparr>
      in if bar_count u < 2 then (server_line ''Got BarInd.'' u, [])
         else (server_line ''Got BarInd. Sending FieReq.'' u, [Prepare_message (\<lambda>_. Fie_req), Reply]))"

definition my_on_fie_rsp ::
    "nat \<Rightarrow> my_to_server \<Rightarrow> my_server_app \<Rightarrow> my_server_app \<times> my_to_client server_request list" where
  "my_on_fie_rsp i m u =
     ((server_line ''Got FieRsp. Disconnecting the client and exiting.'' u)\<lparr>server_exit := Some 0\<rparr>,
      [Disconnect_client None])"

definition my_server_init :: "byte list \<Rightarrow> byte list \<Rightarrow> fd \<Rightarrow> my_server \<Rightarrow> int \<times> my_server" where
  "my_server_init mem buf epoll_fd s =
     server_init ''tcp://127.0.0.1:7840'' 1 mem 128 buf 128 128 None None
       [(1, Some my_on_foo_req), (2, Some my_on_bar_ind), (3, Some my_on_fie_rsp)] epoll_fd None s"

fun my_server_loop ::
    "(my_to_server, my_to_client) codec \<Rightarrow> (fd \<times> u32 \<times> arrival list) list \<Rightarrow> my_server \<Rightarrow> int \<times> my_server" where
  "my_server_loop k [] s = (1, s)"
| "my_server_loop k ((d, events, as) # evs) s =
     (let s = server_process k d events as s
      in case server_exit (s_app s) of Some code \<Rightarrow> (code, s) | None \<Rightarrow> my_server_loop k evs s)"

definition my_server_say :: "string \<Rightarrow> my_server \<Rightarrow> my_server" where
  "my_server_say l s = s\<lparr>s_app := server_line l (s_app s)\<rparr>"

definition my_server_main ::
    "(my_to_server, my_to_client) codec \<Rightarrow> byte list \<Rightarrow> byte list \<Rightarrow> (fd \<times> u32 \<times> arrival list) list \<Rightarrow>
     my_server \<Rightarrow> int \<times> my_server" where
  "my_server_main k mem buf evs s =
     (let s = s\<lparr>s_app := (s_app s)\<lparr>bar_count := 0, server_exit := None\<rparr>\<rparr>;
          (epoll_fd, os) = sys_epoll_create1 (s_sys s); s = s\<lparr>s_sys := os\<rparr>
      in if epoll_fd = - 1 then (1, s)
         else
      let (res, s) = my_server_init mem buf epoll_fd s
      in if res \<noteq> 0 then (1, my_server_say ''Init failed.'' s)
         else
      let (res, s) = server_start s
      in if res \<noteq> 0 then (1, my_server_say ''Start failed.'' s)
         else my_server_loop k evs (my_server_say ''Server started.'' s))"

section \<open>The client\<close>

record my_client_app =
  client_exit :: "int option"
  client_lines :: "string list"

type_synonym my_client = "(my_client_app, my_to_client, my_to_server) client"

definition client_line :: "string \<Rightarrow> my_client_app \<Rightarrow> my_client_app" where
  "client_line l u = u\<lparr>client_lines := client_lines u @ [l]\<rparr>"

definition my_on_connected :: "my_client_app \<Rightarrow> my_client_app \<times> my_to_server client_request list" where
  "my_on_connected u = (client_line ''Connected. Sending FooReq.'' u, [Init_message (\<lambda>_. Foo_req), Client_send])"

definition my_on_disconnected ::
    "disconnect_reason \<Rightarrow> my_client_app \<Rightarrow> my_client_app \<times> my_to_server client_request list" where
  "my_on_disconnected reason u =
     ((client_line (''Disconnected (reason: '' @ messi_disconnect_reason_string (reason_code reason) @ ''). Exiting.'') u)
        \<lparr>client_exit := Some 0\<rparr>, [])"

definition my_on_foo_rsp :: "my_to_client \<Rightarrow> my_client_app \<Rightarrow> my_client_app \<times> my_to_server client_request list" where
  "my_on_foo_rsp m u =
     (client_line ''Got FooRsp. Sending BarInd twice.'' u, [Init_message (\<lambda>_. Bar_ind), Client_send, Client_send])"

definition my_on_fie_req :: "my_to_client \<Rightarrow> my_client_app \<Rightarrow> my_client_app \<times> my_to_server client_request list" where
  "my_on_fie_req m u =
     (client_line ''Got FieReq. Sending FieRsp.'' u, [Init_message (\<lambda>_. Fie_rsp), Client_send])"

definition my_client_init :: "byte list \<Rightarrow> byte list \<Rightarrow> fd \<Rightarrow> my_client \<Rightarrow> int \<times> my_client" where
  "my_client_init encoded_in encoded_out epoll_fd c =
     client_init ''tcp://127.0.0.1:7840'' encoded_in 128 encoded_out 128 (Some my_on_connected) (Some my_on_disconnected)
       [(1, Some my_on_foo_rsp), (2, Some my_on_fie_req)] epoll_fd None c"

fun my_client_loop ::
    "(my_to_client, my_to_server) codec \<Rightarrow> (fd \<times> u32 \<times> arrival list) list \<Rightarrow> my_client \<Rightarrow> int \<times> my_client" where
  "my_client_loop k [] c = (0, c)"
| "my_client_loop k ((d, events, as) # evs) c =
     (let c = client_process k d events as c
      in case client_exit (c_app c) of Some code \<Rightarrow> (code, c) | None \<Rightarrow> my_client_loop k evs c)"

definition my_client_main ::
    "(my_to_client, my_to_server) codec \<Rightarrow> byte list \<Rightarrow> byte list \<Rightarrow> (fd \<times> u32 \<times> arrival list) list \<Rightarrow>
     my_client \<Rightarrow> int \<times> my_client" where
  "my_client_main k encoded_in encoded_out evs c =
     (let c = c\<lparr>c_app := (c_app c)\<lparr>client_exit := None\<rparr>\<rparr>;
          (epoll_fd, os) = sys_epoll_create1 (c_sys c); c = c\<lparr>c_sys := os\<rparr>
      in if epoll_fd = - 1 then (1, c)
         else
      let (res, c) = my_client_init encoded_in encoded_out epoll_fd c
      in if res \<noteq> 0 then (1, c\<lparr>c_app := client_line ''Init failed.'' (c_app c)\<rparr>)
         else my_client_loop k evs (client_start k c))"

section \<open>The client for the async framework\<close>

text \<open>Its callbacks are those of the linux client, word for word; the result of \<open>init\<close> is ignored.\<close>

type_synonym my_async_client = "(my_client_app, my_to_client, my_to_server) async_client"

definition my_async_on_connected :: "my_client_app \<Rightarrow> my_client_app \<times> my_to_server client_request list" where
  "my_async_on_connected u =
     (client_line ''Connected. Sending FooReq.'' u, [Init_message (\<lambda>_. Foo_req), Client_send])"

definition my_async_on_disconnected ::
    "disconnect_reason \<Rightarrow> my_client_app \<Rightarrow> my_client_app \<times> my_to_server client_request list" where
  "my_async_on_disconnected reason u =
     ((client_line (''Disconnected (reason: '' @ messi_disconnect_reason_string (reason_code reason) @ ''). Exiting.'') u)
        \<lparr>client_exit := Some 0\<rparr>, [])"

definition my_async_on_foo_rsp ::
    "my_to_client \<Rightarrow> my_client_app \<Rightarrow> my_client_app \<times> my_to_server client_request list" where
  "my_async_on_foo_rsp m u =
     (client_line ''Got FooRsp. Sending BarInd twice.'' u, [Init_message (\<lambda>_. Bar_ind), Client_send, Client_send])"

definition my_async_on_fie_req ::
    "my_to_client \<Rightarrow> my_client_app \<Rightarrow> my_client_app \<times> my_to_server client_request list" where
  "my_async_on_fie_req m u =
     (client_line ''Got FieReq. Sending FieRsp.'' u, [Init_message (\<lambda>_. Fie_rsp), Client_send])"

definition my_async_client_init :: "byte list \<Rightarrow> byte list \<Rightarrow> my_async_client \<Rightarrow> my_async_client" where
  "my_async_client_init encoded_in encoded_out c =
     (let (_, c) = async_client_init ''tcp://127.0.0.1:7840'' encoded_in 128 encoded_out 128
            (Some my_async_on_connected) (Some my_async_on_disconnected)
            [(1, Some my_async_on_foo_rsp), (2, Some my_async_on_fie_req)] c
      in async_client_start c)"

text \<open>The two clients differ in nothing but the library underneath.\<close>

lemma my_async_callbacks:
  "my_async_on_connected = my_on_connected" "my_async_on_disconnected = my_on_disconnected"
  "my_async_on_foo_rsp = my_on_foo_rsp" "my_async_on_fie_req = my_on_fie_req"
  by (auto simp: fun_eq_iff my_async_on_connected_def my_on_connected_def my_async_on_disconnected_def
      my_on_disconnected_def my_async_on_foo_rsp_def my_on_foo_rsp_def my_async_on_fie_req_def my_on_fie_req_def)

lemma my_async_client_starts:
  assumes "c' = my_async_client_init encoded_in encoded_out c"
  shows "a_address c' = ''127.0.0.1''" "a_port c' = 7840"
    "a_calls c' = a_calls c @ [Stcp_init, Timer_init Keep_alive_timer 2000 0, Timer_init Reconnect_timer 1000 0,
      Stcp_connect ''127.0.0.1'' 7840]"
proof -
  have "messi_parse_tcp_uri ''tcp://127.0.0.1:7840'' 16 = Some (''127.0.0.1'', 7840)" by code_simp
  then show "a_address c' = ''127.0.0.1''" "a_port c' = 7840"
    "a_calls c' = a_calls c @ [Stcp_init, Timer_init Keep_alive_timer 2000 0, Timer_init Reconnect_timer 1000 0,
      Stcp_connect ''127.0.0.1'' 7840]"
    by (simp_all add: assms my_async_client_init_def async_client_init_def async_client_start_def ac_call_def
        ac_reset_input_encoded_def Let_def)
qed

end
