(* ===== verification/MyConversation.thy ===== *)
theory MyConversation
  imports MyProtocol
begin

text \<open>
  The conversation of \<open>examples/my_protocol\<close>, as its \<open>README.rst\<close> draws it: the client and the server
  run against each other, with any generated code that encodes and decodes the messages and any
  way of the network to deliver the bytes.
\<close>

section \<open>The server\<close>

text \<open>\<open>req\<close> and \<open>rsp\<close> are the encoded messages; they fit and are decoded by the other side.\<close>

definition my_server_ok ::
    "(my_to_server, my_to_client) codec \<Rightarrow> (my_to_server \<Rightarrow> byte list) \<Rightarrow> (my_to_client \<Rightarrow> byte list) \<Rightarrow>
     fd set \<Rightarrow> nat list \<Rightarrow> nat list \<Rightarrow> fd \<Rightarrow> nat \<Rightarrow> my_server \<Rightarrow> bool" where
  "my_server_ok k req rsp A cs fs d i s \<longleftrightarrow> server_serving A cs fs k i s \<and> s_listener_fd s \<in> A \<and>
     k_fd (s_clients s i) = d \<and>
     s_on_client_disconnected s = sv_on_client_default \<and>
     s_on_message s = [1 \<mapsto> my_on_foo_req, 2 \<mapsto> my_on_bar_ind, 3 \<mapsto> my_on_fie_rsp] \<and>
     in_choice k = my_server_choice \<and>
     (\<forall>m \<in> {Foo_req, Bar_ind, Fie_rsp}. server_gets k i m (req m) s) \<and>
     (\<forall>m \<in> {Foo_rsp, Fie_req}. out_encode k (Some m) (s_out_size s - header_sizeof) = Some (rsp m))"

lemma my_server_ok_step:
  assumes "my_server_ok k req rsp A cs fs d i s" "server_serving A cs fs k i s'" "sv_cfg s' = sv_cfg s"
    "i_cap (k_input (s_clients s' i)) = i_cap (k_input (s_clients s i))" "k_fd (s_clients s' i) = k_fd (s_clients s i)"
  shows "my_server_ok k req rsp A cs fs d i s'"
  using assms sv_cfgD [OF assms(3)] by (simp add: my_server_ok_def server_gets_def)

abbreviation my_request :: "(my_to_server \<Rightarrow> byte list) \<Rightarrow> my_to_server \<Rightarrow> byte \<times> byte list" where
  "my_request req m \<equiv> user_request (req m)"

abbreviation my_response :: "(my_to_client \<Rightarrow> byte list) \<Rightarrow> my_to_client \<Rightarrow> byte \<times> byte list" where
  "my_response rsp m \<equiv> user_response (rsp m)"

lemma my_serve:
  assumes "my_server_ok k req rsp A cs fs d i s" "m \<in> {Foo_req, Bar_ind}"
    "the (s_on_message s (my_server_choice m)) i m (s_app s) = (u, reply_calls r)"
    "r \<noteq> Some No_my_response" "s' = server_deliver k i (my_request req m) s"
  shows "my_server_ok k req rsp A cs fs d i s'" "s_app s' = u"
    "sv_stream s' i = sv_stream s i @ (case r of None \<Rightarrow> [] | Some x \<Rightarrow> frame (my_response rsp x))"
proof -
  have s: "server_serving A cs fs k i s" "server_gets k i m (req m) s"
    "s_on_message s (in_choice k m) = Some (the (s_on_message s (my_server_choice m)))"
    using assms(1,2) by (auto simp: my_server_ok_def)
  have "x \<in> {Foo_rsp, Fie_req}" if "r = Some x" for x using assms(4) that by (cases x) auto
  then have "reply_bytes k (s_out_size s) r = Some (case r of None \<Rightarrow> [] | Some x \<Rightarrow> frame (my_response rsp x))"
    using assms(1) by (cases r) (auto simp: reply_bytes_def my_server_ok_def)
  note v = serve_request [OF s(1-3) assms(3) this assms(5)]
  show "my_server_ok k req rsp A cs fs d i s'" "s_app s' = u"
    "sv_stream s' i = sv_stream s i @ (case r of None \<Rightarrow> [] | Some x \<Rightarrow> frame (my_response rsp x))"
    using my_server_ok_step [OF assms(1) v(1,4-6)] v(2,3) by simp_all
qed

lemma my_serve_foo:
  assumes "my_server_ok k req rsp A cs fs d i s" "s' = server_deliver k i (my_request req Foo_req) s"
  shows "my_server_ok k req rsp A cs fs d i s'" "s_app s' = server_line ''Got FooReq. Sending FooRsp.'' (s_app s)"
    "sv_stream s' i = sv_stream s i @ frame (my_response rsp Foo_rsp)"
proof -
  have "the (s_on_message s (my_server_choice Foo_req)) i Foo_req (s_app s) =
      (server_line ''Got FooReq. Sending FooRsp.'' (s_app s), reply_calls (Some Foo_rsp))"
    using assms(1) by (simp add: my_server_ok_def my_on_foo_req_def reply_calls_def)
  note v = my_serve [OF assms(1) _ this _ assms(2)]
  show "my_server_ok k req rsp A cs fs d i s'" "s_app s' = server_line ''Got FooReq. Sending FooRsp.'' (s_app s)"
    "sv_stream s' i = sv_stream s i @ frame (my_response rsp Foo_rsp)"
    using v by simp_all
qed

lemma my_serve_bar:
  assumes "my_server_ok k req rsp A cs fs d i s" "s' = server_deliver k i (my_request req Bar_ind) s"
    "u = (s_app s)\<lparr>bar_count := c_int (bar_count (s_app s) + 1)\<rparr>"
  shows "my_server_ok k req rsp A cs fs d i s'"
    "s_app s' = server_line (if bar_count u < 2 then ''Got BarInd.'' else ''Got BarInd. Sending FieReq.'') u"
    "sv_stream s' i = sv_stream s i @ (if bar_count u < 2 then [] else frame (my_response rsp Fie_req))"
proof -
  have "the (s_on_message s (my_server_choice Bar_ind)) i Bar_ind (s_app s) =
      (server_line (if bar_count u < 2 then ''Got BarInd.'' else ''Got BarInd. Sending FieReq.'') u,
       reply_calls (if bar_count u < 2 then None else Some Fie_req))"
    using assms(1,3) by (simp add: my_server_ok_def my_on_bar_ind_def reply_calls_def Let_def)
  note v = my_serve [OF assms(1) _ this _ assms(2)]
  show "my_server_ok k req rsp A cs fs d i s'"
    "s_app s' = server_line (if bar_count u < 2 then ''Got BarInd.'' else ''Got BarInd. Sending FieReq.'') u"
    "sv_stream s' i = sv_stream s i @ (if bar_count u < 2 then [] else frame (my_response rsp Fie_req))"
    using v by simp_all
qed

text \<open>The three events of the server.\<close>

lemma my_server_short:
  "my_server_ok k req rsp A cs fs d i s \<Longrightarrow> m \<in> {Foo_req, Bar_ind, Fie_rsp} \<Longrightarrow> length (req m) < 2 ^ 24"
  by (auto simp: my_server_ok_def server_gets_def)

lemma my_server_first:
  assumes "my_server_ok k req rsp A cs fs d i s" "arrived as = frame (my_request req Foo_req)" "try_again as"
    "s' = server_process k d EPOLLIN as s"
  shows "my_server_ok k req rsp A cs fs d i s'" "s_app s' = server_line ''Got FooReq. Sending FooRsp.'' (s_app s)"
    "sv_stream s' i = sv_stream s i @ frame (my_response rsp Foo_rsp)"
proof -
  let ?s1 = "server_deliver k i (my_request req Foo_req) s"
  note d = my_serve_foo [OF assms(1) refl]
  have "server_serving A cs fs k i s" "s_listener_fd s \<in> A" "k_fd (s_clients s i) = d" "server_serving A cs fs k i ?s1"
    using assms(1) d(1) by (simp_all add: my_server_ok_def)
  moreover have "\<forall>f \<in> set [my_request req Foo_req]. length (snd f) < 2 ^ 24" using my_server_short [OF assms(1)] by simp
  ultimately have "s' = ?s1"
    using serve_event(2) [of A cs fs k i s "[my_request req Foo_req]" as] assms(2-4) by simp
  then show "my_server_ok k req rsp A cs fs d i s'" "s_app s' = server_line ''Got FooReq. Sending FooRsp.'' (s_app s)"
    "sv_stream s' i = sv_stream s i @ frame (my_response rsp Foo_rsp)"
    using d by simp_all
qed

lemma my_server_second:
  assumes "my_server_ok k req rsp A cs fs d i s" "bar_count (s_app s) = 0"
    "arrived as = frame (my_request req Bar_ind) @ frame (my_request req Bar_ind)" "try_again as"
    "s' = server_process k d EPOLLIN as s"
  shows "my_server_ok k req rsp A cs fs d i s'" "server_exit (s_app s') = server_exit (s_app s)"
    "server_lines (s_app s') = server_lines (s_app s) @ [''Got BarInd.'', ''Got BarInd. Sending FieReq.'']"
    "sv_stream s' i = sv_stream s i @ frame (my_response rsp Fie_req)"
proof -
  let ?s1 = "server_deliver k i (my_request req Bar_ind) s"
  let ?s2 = "server_deliver k i (my_request req Bar_ind) ?s1"
  note d = my_serve_bar [OF assms(1) refl refl]
  note e = my_serve_bar [OF d(1) refl refl]
  have "server_serving A cs fs k i s" "s_listener_fd s \<in> A" "k_fd (s_clients s i) = d" "server_serving A cs fs k i ?s2"
    using assms(1) e(1) by (simp_all add: my_server_ok_def)
  moreover have "\<forall>f \<in> set [my_request req Bar_ind, my_request req Bar_ind]. length (snd f) < 2 ^ 24"
    using my_server_short [OF assms(1)] by simp
  ultimately have "s' = ?s2"
    using serve_event(2) [of A cs fs k i s "[my_request req Bar_ind, my_request req Bar_ind]" as] assms(3-5) by simp
  then show "my_server_ok k req rsp A cs fs d i s'" "server_exit (s_app s') = server_exit (s_app s)"
    "server_lines (s_app s') = server_lines (s_app s) @ [''Got BarInd.'', ''Got BarInd. Sending FieReq.'']"
    "sv_stream s' i = sv_stream s i @ frame (my_response rsp Fie_req)"
    using e d(2,3) assms(2) by (simp_all add: server_line_def c_int_id)
qed

lemma my_server_third:
  assumes "my_server_ok k req rsp A cs fs d i s" "arrived as = frame (my_request req Fie_rsp)"
    "s' = server_process k d EPOLLIN as s"
  shows "server_exit (s_app s') = Some 0" "d \<notin> set (fds (s_sys s'))"
    "server_lines (s_app s') = server_lines (s_app s) @ [''Got FieRsp. Disconnecting the client and exiting.'']"
proof -
  have s: "server_serving A cs fs k i s" "s_listener_fd s \<in> A" "server_gets k i Fie_rsp (req Fie_rsp) s"
    "s_on_message s (in_choice k Fie_rsp) = Some my_on_fie_rsp" "s_on_client_disconnected s = sv_on_client_default"
    and d: "d = k_fd (s_clients s i)"
    using assms(1) by (simp_all add: my_server_ok_def)
  note g = serve_goodbye [OF s(1-4) _ s(5) assms(2) assms(3) [unfolded d], unfolded my_on_fie_rsp_def, OF refl]
  show "server_exit (s_app s') = Some 0" "d \<notin> set (fds (s_sys s'))"
    "server_lines (s_app s') = server_lines (s_app s) @ [''Got FieRsp. Disconnecting the client and exiting.'']"
    using g by (simp_all add: server_line_def d)
qed

section \<open>The client\<close>

definition my_client_ok ::
    "(my_to_client, my_to_server) codec \<Rightarrow> (my_to_server \<Rightarrow> byte list) \<Rightarrow> (my_to_client \<Rightarrow> byte list) \<Rightarrow> my_client \<Rightarrow> bool" where
  "my_client_ok k req rsp c \<longleftrightarrow> client_talking k c \<and> c_on_disconnected c = my_on_disconnected \<and>
     c_on_message c = [1 \<mapsto> my_on_foo_rsp, 2 \<mapsto> my_on_fie_req] \<and> in_choice k = my_client_choice \<and>
     (\<forall>m \<in> {Foo_rsp, Fie_req}. client_gets k m (rsp m) c) \<and>
     (\<forall>m \<in> {Foo_req, Bar_ind, Fie_rsp}. out_encode k (Some m) (c_out_size c - header_sizeof) = Some (req m))"

lemma my_client_ok_step:
  assumes "my_client_ok k req rsp c" "client_talking k c'" "client_cfg c' = client_cfg c"
    "i_cap (c_input c') = i_cap (c_input c)"
  shows "my_client_ok k req rsp c'"
  using assms client_cfgD [OF assms(3)] by (simp add: my_client_ok_def client_gets_def)

lemma my_react:
  assumes "my_client_ok k req rsp c" "m \<in> {Foo_rsp, Fie_req}" "r \<noteq> No_my_request"
    "the (c_on_message c (my_client_choice m)) m (c_app c) = (u, say_calls n r)"
    "arrived as = frame (my_response rsp m)" "try_again as" "c' = client_process k (c_server_fd c) EPOLLIN as c"
  shows "my_client_ok k req rsp c'" "c_app c' = u" "c_server_fd c' = c_server_fd c"
    "tx (c_sys c') (c_server_fd c) = tx (c_sys c) (c_server_fd c) @ concat (replicate n (frame (my_request req r)))"
proof -
  let ?d = "client_deliver k (my_response rsp m) c"
  have c: "client_talking k c" "client_gets k m (rsp m) c"
    "c_on_message c (in_choice k m) = Some (the (c_on_message c (my_client_choice m)))"
    using assms(1,2) by (auto simp: my_client_ok_def)
  have "out_encode k (Some r) (c_out_size c - header_sizeof) = Some (req r)"
    using assms(1,3) by (cases r) (auto simp: my_client_ok_def)
  note d = client_reaction [OF c assms(4) this refl]
  have "\<forall>f \<in> set [my_response rsp m]. length (snd f) < 2 ^ 24" using c(2) by (simp add: client_gets_def)
  then have "c' = ?d"
    using talking_event [OF c(1), of "[my_response rsp m]" as ?d EPOLLIN] d(1) assms(5-7) by simp
  then show "my_client_ok k req rsp c'" "c_app c' = u" "c_server_fd c' = c_server_fd c"
    "tx (c_sys c') (c_server_fd c) = tx (c_sys c) (c_server_fd c) @ concat (replicate n (frame (my_request req r)))"
    using my_client_ok_step [OF assms(1) d(1,3,4)] d(2,5) client_cfgD(5) [OF d(3)] by simp_all
qed

lemma my_client_first:
  assumes "my_client_ok k req rsp c" "arrived as = frame (my_response rsp Foo_rsp)" "try_again as"
    "c' = client_process k (c_server_fd c) EPOLLIN as c"
  shows "my_client_ok k req rsp c'" "c_app c' = client_line ''Got FooRsp. Sending BarInd twice.'' (c_app c)"
    "c_server_fd c' = c_server_fd c"
    "tx (c_sys c') (c_server_fd c) = tx (c_sys c) (c_server_fd c) @
       frame (my_request req Bar_ind) @ frame (my_request req Bar_ind)"
proof -
  have "the (c_on_message c (my_client_choice Foo_rsp)) Foo_rsp (c_app c) =
      (client_line ''Got FooRsp. Sending BarInd twice.'' (c_app c), say_calls 2 Bar_ind)"
    using assms(1) by (simp add: my_client_ok_def my_on_foo_rsp_def say_calls_def numeral_2_eq_2)
  note v = my_react [OF assms(1) _ _ this assms(2-4)]
  show "my_client_ok k req rsp c'" "c_app c' = client_line ''Got FooRsp. Sending BarInd twice.'' (c_app c)"
    "c_server_fd c' = c_server_fd c"
    "tx (c_sys c') (c_server_fd c) = tx (c_sys c) (c_server_fd c) @
       frame (my_request req Bar_ind) @ frame (my_request req Bar_ind)"
    using v by (simp_all add: numeral_2_eq_2)
qed

lemma my_client_second:
  assumes "my_client_ok k req rsp c" "arrived as = frame (my_response rsp Fie_req)" "try_again as"
    "c' = client_process k (c_server_fd c) EPOLLIN as c"
  shows "my_client_ok k req rsp c'" "c_app c' = client_line ''Got FieReq. Sending FieRsp.'' (c_app c)"
    "c_server_fd c' = c_server_fd c"
    "tx (c_sys c') (c_server_fd c) = tx (c_sys c) (c_server_fd c) @ frame (my_request req Fie_rsp)"
proof -
  have "the (c_on_message c (my_client_choice Fie_req)) Fie_req (c_app c) =
      (client_line ''Got FieReq. Sending FieRsp.'' (c_app c), say_calls 1 Fie_rsp)"
    using assms(1) by (simp add: my_client_ok_def my_on_fie_req_def say_calls_def)
  note v = my_react [OF assms(1) _ _ this assms(2-4)]
  show "my_client_ok k req rsp c'" "c_app c' = client_line ''Got FieReq. Sending FieRsp.'' (c_app c)"
    "c_server_fd c' = c_server_fd c"
    "tx (c_sys c') (c_server_fd c) = tx (c_sys c) (c_server_fd c) @ frame (my_request req Fie_rsp)"
    using v by simp_all
qed

lemma my_client_third:
  assumes "my_client_ok k req rsp c" "c' = client_process k (c_server_fd c) EPOLLIN [Chunk []] c"
  shows "client_exit (c_app c') = Some 0"
    "client_lines (c_app c') = client_lines (c_app c) @ [''Disconnected (reason: Connection closed.). Exiting.'']"
proof -
  have c: "client_talking k c" "c_on_disconnected c = my_on_disconnected" using assms(1) by (simp_all add: my_client_ok_def)
  have reason: "messi_disconnect_reason_string 2 = ''Connection closed.''" by code_simp
  have "c_app c' = fst (my_on_disconnected Connection_closed (c_app c))"
    using talking_closed [OF c(1) _ assms(2)] c(2) by (simp add: my_on_disconnected_def)
  then show "client_exit (c_app c') = Some 0"
    "client_lines (c_app c') = client_lines (c_app c) @ [''Disconnected (reason: Connection closed.). Exiting.'']"
    by (simp_all add: my_on_disconnected_def client_line_def reason)
qed

section \<open>Setting up\<close>

text \<open>
  The generated code of the two sides: every message is encoded in the 124 bytes that the buffers
  of the examples leave for it, and decoded as the same message by the other side.
\<close>

definition my_codecs ::
    "(my_to_server, my_to_client) codec \<Rightarrow> (my_to_client, my_to_server) codec \<Rightarrow>
     (my_to_server \<Rightarrow> byte list) \<Rightarrow> (my_to_client \<Rightarrow> byte list) \<Rightarrow> bool" where
  "my_codecs ks kc req rsp \<longleftrightarrow>
     codec_fits ks \<and> codec_fits kc \<and> in_choice ks = my_server_choice \<and> in_choice kc = my_client_choice \<and>
     out_new ks 128 \<noteq> None \<and> out_new kc 128 \<noteq> None \<and>
     (\<forall>m \<in> {Foo_req, Bar_ind, Fie_rsp}. out_encode kc (Some m) 124 = Some (req m) \<and>
        (\<exists>m0. in_new ks 128 = Some m0 \<and> in_decode ks m0 (req m) = (int (length (req m)), m))) \<and>
     (\<forall>m \<in> {Foo_rsp, Fie_req}. out_encode ks (Some m) 124 = Some (rsp m) \<and>
        (\<exists>m0. in_new kc 128 = Some m0 \<and> in_decode kc m0 (rsp m) = (int (length (rsp m)), m)))"

lemma my_codecs_short:
  assumes "my_codecs ks kc req rsp"
  shows "m \<in> {Foo_req, Bar_ind, Fie_rsp} \<Longrightarrow> length (req m) \<le> 124" "m' \<in> {Foo_rsp, Fie_req} \<Longrightarrow> length (rsp m') \<le> 124"
  using assms unfolding my_codecs_def codec_fits_def by blast+

lemma my_uri: "messi_parse_tcp_uri ''tcp://127.0.0.1:7840'' 16 = Some (''127.0.0.1'', 7840)"
  by code_simp

lemma my_client_started:
  assumes "my_codecs ks kc req rsp" "my_client_init bin bout e c0 = (res, c)" "length bin = 128" "length bout = 128"
    "outcomes (c_sys c0) = []" "wscript (c_sys c0) = []" "- 1 \<notin> set (fds (c_sys c0))" "c1 = client_start kc c"
  shows "res = 0" "my_client_ok kc req rsp c1" "c_app c1 = client_line ''Connected. Sending FooReq.'' (c_app c0)"
    "tx (c_sys c1) (c_server_fd c1) = frame (my_request req Foo_req)"
proof -
  have c: "res = 0" "c_on_connected c = my_on_connected" "c_on_disconnected c = my_on_disconnected"
    "c_on_message c = [1 \<mapsto> my_on_foo_rsp, 2 \<mapsto> my_on_fie_req]" "c_epoll_ctl c = Epoll_default"
    "c_in_workspace_size c = 128" "c_out_workspace_size c = 128" "c_out_size c = 128" "c_out_buf c = bout"
    "c_input c = \<lparr>i_buf = bin, i_cap = 128, i_size = 0, i_left = header_sizeof, i_state = Header, i_overrun = False\<rparr>"
    "c_sys c = c_sys c0" "c_app c = c_app c0" "\<not> c_pending_disconnect c"
    using assms(2-4) by (auto simp: my_client_init_def client_init_def my_uri cl_reset_input_encoded_def fun_upd_twist)
  show "res = 0" by (rule c(1))
  have "client_lucky c" using assms(5) c(5,11) by (simp add: client_lucky_def)
  note s = lucky_connect [OF this refl refl refl, of kc]
  define t where "t = c\<lparr>c_keep_alive_timer_fd := lowest_free (lowest_free (fds (c_sys c)) # fds (c_sys c)),
      c_sys := os_connected (case aton (c_sys c) (c_address c) of None \<Rightarrow> 0 | Some a \<Rightarrow> a) (sin_port (c_port c)) (c_sys c),
      c_server_fd := lowest_free (fds (c_sys c)), c_pong_received := True\<rparr>"
  have c1: "c1 = run_callback kc my_on_connected Connected t"
    using s by (simp add: assms(8) client_start_def t_def [symmetric] c(2))
  have t: "c_app t = c_app c0" "c_out_size t = 128" "c_input t = c_input c" "client_cfg t =
      ([1 \<mapsto> my_on_foo_rsp, 2 \<mapsto> my_on_fie_req], my_on_disconnected, 128, 128, c_server_fd t)"
    "tx (c_sys t) (c_server_fd t) = []" "client_ok t" "client_can_send kc t"
    using c assms lowest_free_ne [of "fds (c_sys c)"] lowest_free_ne [of "lowest_free (fds (c_sys c)) # fds (c_sys c)"]
    by (simp_all add: t_def client_cfg_def os_connected_def client_ok_def client_can_send_def client_alive_def
        my_codecs_def header_sizeof_def Let_def)
  have "out_encode kc (Some Foo_req) (c_out_size t - header_sizeof) = Some (req Foo_req)"
    using assms(1) by (simp add: t(2) my_codecs_def header_sizeof_def)
  note v = client_callback [OF t(7) _ this c1, of "client_line ''Connected. Sending FooReq.'' (c_app t)" 1]
  have v: "client_can_send kc c1" "c_app c1 = client_line ''Connected. Sending FooReq.'' (c_app t)"
    "client_cfg c1 = client_cfg t" "c_input c1 = c_input t" "client_ok c1"
    "tx (c_sys c1) (c_server_fd t) = frame (my_request req Foo_req)"
    using v t(5,6) by (simp_all add: my_on_connected_def say_calls_def)
  then show "c_app c1 = client_line ''Connected. Sending FooReq.'' (c_app c0)"
    "tx (c_sys c1) (c_server_fd c1) = frame (my_request req Foo_req)"
    using t(1) client_cfgD(5) [OF v(3)] by simp_all
  have "input_fresh (c_input c)" using assms(3) by (simp add: c(10) input_fresh_def input_ok_def header_sizeof_def)
  then have "client_talking kc c1"
    using v(1,4,5) t(3) by (simp add: client_talking_def client_fresh_def client_can_send_def)
  moreover have "client_gets kc m (rsp m) c1" if "m \<in> {Foo_rsp, Fie_req}" for m
    using assms(1) my_codecs_short(2) [OF assms(1) that] that v(3,4) t(3,4)
    by (auto simp: client_gets_def my_codecs_def header_sizeof_def client_cfg_def c(10))
  ultimately show "my_client_ok kc req rsp c1"
    using assms(1) v(3) t(4) by (simp add: my_client_ok_def my_codecs_def client_cfg_def header_sizeof_def)
qed

text \<open>The server, when the client has connected.\<close>

lemma my_server_started:
  assumes "my_codecs ks kc req rsp" "my_server_init mem buf e s0 = (0, s1)" "server_start s1 = (0, s2)"
    "length mem = 128" "length buf = 128" "\<forall>d \<in> set (fds (s_sys s0)). 0 \<le> d" "s_heap s0 = (\<lambda>a. None)" "server_lucky s2"
    "s3 = server_process ks (s_listener_fd s2) EPOLLIN as (my_server_say l s2)"
  shows "\<exists>A. my_server_ok ks req rsp A [0] [] (k_fd (s_clients s3 0)) 0 s3" "s_app s3 = server_line l (s_app s0)" "sv_stream s3 0 = []"
proof -
  let ?A = "insert (s_listener_fd s2) (set (fds (s_sys s0)))" and ?s = "my_server_say l s2"
  note init = assms(2) [unfolded my_server_init_def]
  have "header_sizeof \<le> length buf" "length buf < 2 ^ 64" using assms(5) by (simp_all add: header_sizeof_def)
  note r = started_ready [OF init assms(3) zero_less_one assms(6,7) this]
  have s1: "s_on_client_connected s1 = sv_on_client_default" "s_on_client_disconnected s1 = sv_on_client_default"
    "s_on_message s1 = [1 \<mapsto> my_on_foo_req, 2 \<mapsto> my_on_bar_ind, 3 \<mapsto> my_on_fie_rsp]" "s_app s1 = s_app s0"
    "s_in_workspace_size s1 = 128" "s_out_size s1 = 128" "input_mem 128 (k_input (s_clients s1 0))"
    using init assms(4,5) by (auto simp: server_init_def my_uri fun_upd_twist sv_init_client_def Let_def input_mem_def)
  obtain l' os where "s2 = s1\<lparr>s_sys := os, s_listener_fd := l'\<rparr>"
    by (rule server_start_effect [OF assms(3)]) auto
  then have s2: "s_on_client_connected ?s = sv_on_client_default" "s_on_client_disconnected ?s = sv_on_client_default"
    "s_on_message ?s = [1 \<mapsto> my_on_foo_req, 2 \<mapsto> my_on_bar_ind, 3 \<mapsto> my_on_fie_rsp]" "s_app ?s = server_line l (s_app s0)"
    "s_in_workspace_size ?s = 128" "s_out_size ?s = 128" "input_mem 128 (k_input (s_clients ?s 0))"
    "s_listener_fd s2 = s_listener_fd ?s" "server_lucky ?s = server_lucky s2" "s_current ?s = s_current s2"
    "sv_buffers_ok ?s = sv_buffers_ok s2" "server_codec_ok ks ?s = server_codec_ok ks s2"
    using s1 by (simp_all add: my_server_say_def server_lucky_def sv_buffers_ok_def server_codec_ok_def)
  have "sv_inv ?A ?s [] [] [0..<nat 1] = sv_inv ?A s2 [] [] [0..<nat 1]"
    by (rule sv_inv_cong) (simp_all add: my_server_say_def same_clients_def)
  then have inv: "sv_inv ?A ?s [] [] [0]" using r(2) by simp
  have app: "server_app_ok ?s"
    using s2(1-3)
    by (auto simp: server_app_ok_def sv_on_client_default_def my_on_foo_req_def my_on_bar_ind_def my_on_fie_rsp_def
        Let_def split: if_splits)
  have codec: "server_codec_ok ks ?s" using r(11) assms(1) s2(12) by (simp add: my_codecs_def)
  have "sv_buffers_ok ?s" using r(10) s2(11) by (simp add: sv_good_def)
  note f = first_client [OF inv this _ codec app _ _ s2(1,7) _ assms(9) [unfolded s2(8)]]
  have f: "server_serving ?A [0] [] ks 0 s3" "sv_stream s3 0 = []" "s_app s3 = s_app ?s" "sv_cfg s3 = sv_cfg ?s"
    "i_cap (k_input (s_clients s3 0)) = 128"
    using f r(9) s2(8-10) assms(8) by (simp_all add: header_sizeof_def)
  then show "s_app s3 = server_line l (s_app s0)" "sv_stream s3 0 = []" using s2(4) by simp_all
  note c = sv_cfgD [OF f(4)]
  have "server_gets ks 0 m (req m) s3" if "m \<in> {Foo_req, Bar_ind, Fie_rsp}" for m
    using assms(1) my_codecs_short(1) [OF assms(1) that] that f(5) s2(5) c
    by (auto simp: server_gets_def my_codecs_def header_sizeof_def)
  then have "my_server_ok ks req rsp ?A [0] [] (k_fd (s_clients s3 0)) 0 s3"
    using f(1) assms(1) c s2 by (simp add: my_server_ok_def my_codecs_def header_sizeof_def)
  then show "\<exists>A. my_server_ok ks req rsp A [0] [] (k_fd (s_clients s3 0)) 0 s3" ..
qed

section \<open>The conversation\<close>

text \<open>
  The memory the two processes provide and the system they find: 128 bytes for every buffer, the
  variables of the callbacks at their first values, no failing calls on the client's side, and no
  items allocated on the server's.
\<close>

definition my_machines :: "byte list \<Rightarrow> byte list \<Rightarrow> my_server \<Rightarrow> byte list \<Rightarrow> byte list \<Rightarrow> my_client \<Rightarrow> bool" where
  "my_machines mem buf s bin bout c \<longleftrightarrow>
     length mem = 128 \<and> length buf = 128 \<and> (\<forall>d \<in> set (fds (s_sys s)). 0 \<le> d) \<and> s_heap s = (\<lambda>a. None) \<and>
     s_app s = \<lparr>bar_count = 0, server_exit = None, server_lines = []\<rparr> \<and>
     length bin = 128 \<and> length bout = 128 \<and> outcomes (c_sys c) = [] \<and> wscript (c_sys c) = [] \<and>
     - 1 \<notin> set (fds (c_sys c)) \<and> c_app c = \<lparr>client_exit = None, client_lines = []\<rparr>"

text \<open>The two loops, from the initialised structs on.\<close>

lemma my_conversation_loops:
  assumes "my_codecs ks kc req rsp" "my_machines mem buf s bin bout c"
    "my_server_init mem buf e s = (0, si)" "server_start si = (0, sl)" "server_lucky sl"
    "my_client_init bin bout e' c = (res, ci)"
    "s0 = my_server_say ''Server started.'' sl" "s1 = server_process ks (s_listener_fd sl) EPOLLIN as0 s0"
    "c1 = client_start kc ci" "f = c_server_fd c1" "d = k_fd (s_clients s1 0)"
    "s2 = server_process ks d EPOLLIN as1 s1" "arrived as1 = tx (c_sys c1) f" "try_again as1"
    "c2 = client_process kc f EPOLLIN bs1 c1" "arrived bs1 = sv_stream s2 0" "try_again bs1"
    "s3 = server_process ks d EPOLLIN as2 s2" "tx (c_sys c2) f = tx (c_sys c1) f @ arrived as2" "try_again as2"
    "c3 = client_process kc f EPOLLIN bs2 c2" "sv_stream s3 0 = sv_stream s2 0 @ arrived bs2" "try_again bs2"
    "s4 = server_process ks d EPOLLIN as3 s3" "tx (c_sys c3) f = tx (c_sys c2) f @ arrived as3"
    "c4 = client_process kc f EPOLLIN [Chunk []] c3"
  shows "my_server_loop ks [(s_listener_fd sl, EPOLLIN, as0), (d, EPOLLIN, as1), (d, EPOLLIN, as2), (d, EPOLLIN, as3)] s0 =
      (0, s4) \<and>
    my_client_loop kc [(f, EPOLLIN, bs1), (f, EPOLLIN, bs2), (f, EPOLLIN, [Chunk []])] c1 = (0, c4) \<and>
    server_lines (s_app s4) = [''Server started.'', ''Got FooReq. Sending FooRsp.'', ''Got BarInd.'',
      ''Got BarInd. Sending FieReq.'', ''Got FieRsp. Disconnecting the client and exiting.''] \<and>
    client_lines (c_app c4) = [''Connected. Sending FooReq.'', ''Got FooRsp. Sending BarInd twice.'',
      ''Got FieReq. Sending FieRsp.'', ''Disconnected (reason: Connection closed.). Exiting.''] \<and>
    d \<notin> set (fds (s_sys s4))"
proof -
  note m = assms(2) [unfolded my_machines_def]
  obtain A where s1: "my_server_ok ks req rsp A [0] [] d 0 s1" "s_app s1 = server_line ''Server started.'' (s_app s)"
    "sv_stream s1 0 = []"
    using my_server_started [OF assms(1,3,4) _ _ _ _ assms(5) assms(8) [unfolded assms(7)]] m assms(11) by blast
  have c1: "my_client_ok kc req rsp c1" "c_app c1 = client_line ''Connected. Sending FooReq.'' (c_app c)"
    "tx (c_sys c1) f = frame (my_request req Foo_req)"
    using my_client_started [OF assms(1,6) _ _ _ _ _ assms(9)] m assms(10) by simp_all
  note s2 = my_server_first [OF s1(1) assms(13) [unfolded c1(3)] assms(14,12)]
  have "arrived bs1 = frame (my_response rsp Foo_rsp)" using assms(16) s2(3) s1(3) by simp
  note c2 = my_client_first [OF c1(1) this assms(17) assms(15) [unfolded assms(10)], folded assms(10)]
  have "bar_count (s_app s2) = 0" using s1(2) s2(2) m by (simp add: server_line_def)
  moreover have "arrived as2 = frame (my_request req Bar_ind) @ frame (my_request req Bar_ind)"
    using assms(19) c2(4) by simp
  ultimately have s3: "my_server_ok ks req rsp A [0] [] d 0 s3" "server_exit (s_app s3) = server_exit (s_app s2)"
    "server_lines (s_app s3) = server_lines (s_app s2) @ [''Got BarInd.'', ''Got BarInd. Sending FieReq.'']"
    "sv_stream s3 0 = sv_stream s2 0 @ frame (my_response rsp Fie_req)"
    using my_server_second [OF s2(1) _ _ assms(20,18)] by simp_all
  have "arrived bs2 = frame (my_response rsp Fie_req)" using assms(22) s3(4) by simp
  note c3 = my_client_second [OF c2(1) this assms(23), unfolded c2(3), OF assms(21)]
  have "arrived as3 = frame (my_request req Fie_rsp)" using assms(25) c3(4) by simp
  note s4 = my_server_third [OF s3(1) this assms(24)]
  note c4 = my_client_third [OF c3(1), unfolded c3(3) c2(3), OF assms(26)]
  have "server_exit (s_app s1) = None" "server_exit (s_app s2) = None" "server_exit (s_app s3) = None"
    "client_exit (c_app c2) = None" "client_exit (c_app c3) = None"
    using m s1(2) s2(2) s3(2) c1(2) c2(2) c3(2) by (simp_all add: server_line_def client_line_def)
  then have "my_server_loop ks [(s_listener_fd sl, EPOLLIN, as0), (d, EPOLLIN, as1), (d, EPOLLIN, as2), (d, EPOLLIN, as3)]
      s0 = (0, s4)"
    "my_client_loop kc [(f, EPOLLIN, bs1), (f, EPOLLIN, bs2), (f, EPOLLIN, [Chunk []])] c1 = (0, c4)"
    using s4(1) c4(1)
    by (simp_all add: Let_def assms(8) [symmetric] assms(12) [symmetric] assms(15) [symmetric] assms(18) [symmetric]
        assms(21) [symmetric] assms(24) [symmetric] assms(26) [symmetric])
  moreover have "server_lines (s_app s4) = [''Server started.'', ''Got FooReq. Sending FooRsp.'', ''Got BarInd.'',
      ''Got BarInd. Sending FieReq.'', ''Got FieRsp. Disconnecting the client and exiting.'']"
    using s4(3) s3(3) s2(2) s1(2) m by (simp add: server_line_def)
  moreover have "client_lines (c_app c4) = [''Connected. Sending FooReq.'', ''Got FooRsp. Sending BarInd twice.'',
      ''Got FieReq. Sending FieRsp.'', ''Disconnected (reason: Connection closed.). Exiting.'']"
    using c4(2) c3(2) c2(2) c1(2) m by (simp add: client_line_def)
  ultimately show ?thesis using s4(2) by blast
qed

lemma lucky_epoll_create:
  assumes "my_machines mem buf s bin bout c" "sys_epoll_create1 (s_sys s) = (e, os)" "sys_epoll_create1 (c_sys c) = (e', os')"
  shows "my_machines mem buf (s\<lparr>s_sys := os\<rparr>) bin bout (c\<lparr>c_sys := os'\<rparr>)" "e' \<noteq> - 1"
proof -
  have m: "\<forall>d \<in> set (fds (s_sys s)). 0 \<le> d" "outcomes (c_sys c) = []" using assms(1) by (simp_all add: my_machines_def)
  have c: "e' = lowest_free (fds (c_sys c))" "os' = os_new_fd (c_sys c)"
    using assms(3) lucky_new_fd [OF m(2)] by (simp_all add: sys_epoll_create1_def)
  show "e' \<noteq> - 1" by (simp add: c(1) lowest_free_ne)
  show "my_machines mem buf (s\<lparr>s_sys := os\<rparr>) bin bout (c\<lparr>c_sys := os'\<rparr>)"
    using assms(1) epoll_create_effect(1) [OF assms(2) m(1)] lowest_free_ne [of "fds (c_sys c)"]
    by (simp add: my_machines_def c(2) os_new_fd_def Let_def)
qed

text \<open>C6: The client and the server of the example, started and run against each other, have the conversation
  that their documentation draws, for any generated code that encodes and decodes the messages
  and however the network cuts the bytes: what one side has written to its socket is what the
  other side reads. After the connection, three events of the client's socket on the server and
  two on the client, and the end of the connection, both programs have ended with the exit code 0,
  the server has closed the client's socket, and each side has printed exactly its lines below:
  the second indication, not the first, is answered with a request, and the reason for the
  disconnection is that the connection was closed.\<close>

theorem my_protocol_conversation:
  assumes "my_codecs ks kc req rsp" "my_machines mem buf s bin bout c"
    "sys_epoll_create1 (s_sys s) = (e, os)" "e \<noteq> - 1" "my_server_init mem buf e (s\<lparr>s_sys := os\<rparr>) = (0, si)"
    "server_start si = (0, sl)" "server_lucky sl"
    "sys_epoll_create1 (c_sys c) = (e', os')" "my_client_init bin bout e' (c\<lparr>c_sys := os'\<rparr>) = (res, ci)"
    "s1 = server_process ks (s_listener_fd sl) EPOLLIN as0 (my_server_say ''Server started.'' sl)"
    "c1 = client_start kc ci" "f = c_server_fd c1" "d = k_fd (s_clients s1 0)"
    "s2 = server_process ks d EPOLLIN as1 s1" "arrived as1 = tx (c_sys c1) f" "try_again as1"
    "c2 = client_process kc f EPOLLIN bs1 c1" "arrived bs1 = sv_stream s2 0" "try_again bs1"
    "s3 = server_process ks d EPOLLIN as2 s2" "tx (c_sys c2) f = tx (c_sys c1) f @ arrived as2" "try_again as2"
    "c3 = client_process kc f EPOLLIN bs2 c2" "sv_stream s3 0 = sv_stream s2 0 @ arrived bs2" "try_again bs2"
    "s4 = server_process ks d EPOLLIN as3 s3" "tx (c_sys c3) f = tx (c_sys c2) f @ arrived as3"
    "c4 = client_process kc f EPOLLIN [Chunk []] c3"
  shows "my_server_main ks mem buf
      [(s_listener_fd sl, EPOLLIN, as0), (d, EPOLLIN, as1), (d, EPOLLIN, as2), (d, EPOLLIN, as3)] s = (0, s4) \<and>
    my_client_main kc bin bout [(f, EPOLLIN, bs1), (f, EPOLLIN, bs2), (f, EPOLLIN, [Chunk []])] c = (0, c4) \<and>
    server_lines (s_app s4) = [''Server started.'', ''Got FooReq. Sending FooRsp.'', ''Got BarInd.'',
      ''Got BarInd. Sending FieReq.'', ''Got FieRsp. Disconnecting the client and exiting.''] \<and>
    client_lines (c_app c4) = [''Connected. Sending FooReq.'', ''Got FooRsp. Sending BarInd twice.'',
      ''Got FieReq. Sending FieRsp.'', ''Disconnected (reason: Connection closed.). Exiting.''] \<and>
    d \<notin> set (fds (s_sys s4))"
proof -
  note m = lucky_epoll_create [OF assms(2,3,8)]
  note v = my_conversation_loops [OF assms(1) m(1) assms(5-7,9) refl assms(10-28)]
  have app: "s\<lparr>s_app := (s_app s)\<lparr>bar_count := 0, server_exit := None\<rparr>\<rparr> = s"
    "c\<lparr>c_app := (c_app c)\<lparr>client_exit := None\<rparr>\<rparr> = c"
    using assms(2) by (cases s; cases c; simp add: my_machines_def)+
  have "res = 0" using assms(9) by (auto simp: my_client_init_def client_init_def my_uri Let_def)
  then have main: "my_server_main ks mem buf evs s = my_server_loop ks evs (my_server_say ''Server started.'' sl)"
    "my_client_main kc bin bout evs' c = my_client_loop kc evs' c1" for evs evs'
    using assms(3-6,8,9,11) m(2) by (simp_all add: my_server_main_def my_client_main_def app Let_def)
  show ?thesis unfolding main by (rule v)
qed

text \<open>A protocol in which a message is one byte, its number, and the two processes with it.\<close>

definition my_demo_server_codec :: "(my_to_server, my_to_client) codec" where
  "my_demo_server_codec =
     \<lparr>in_new = (\<lambda>n. Some No_my_request),
      in_decode = (\<lambda>m bs. (int (length bs), if bs = [1] then Foo_req else if bs = [2] then Bar_ind else Fie_rsp)),
      in_choice = my_server_choice,
      out_new = (\<lambda>n. Some No_my_response),
      out_encode = (\<lambda>m n. if n < 1 then None else Some [if m = Some Foo_rsp then 1 else 2])\<rparr>"

definition my_demo_client_codec :: "(my_to_client, my_to_server) codec" where
  "my_demo_client_codec =
     \<lparr>in_new = (\<lambda>n. Some No_my_response),
      in_decode = (\<lambda>m bs. (int (length bs), if bs = [1] then Foo_rsp else Fie_req)),
      in_choice = my_client_choice,
      out_new = (\<lambda>n. Some No_my_request),
      out_encode = (\<lambda>m n. if n < 1 then None
         else Some [if m = Some Foo_req then 1 else if m = Some Bar_ind then 2 else 3])\<rparr>"

definition my_server_struct :: my_server where
  "my_server_struct =
     \<lparr>s_address = ''x'', s_port = 7, s_on_client_connected = sv_on_client_default,
      s_on_client_disconnected = sv_on_client_default, s_on_message = (\<lambda>n. None),
      s_epoll_fd = 77, s_epoll_ctl = Epoll_default, s_listener_fd = 77, s_current = Some 7,
      s_connected = Some 7, s_free = None, s_pending = Some 7, s_input_buffer_size = 7,
      s_in_message = None, s_in_workspace_size = 0, s_out_message = None, s_out_workspace_size = 0,
      s_out_buf = [], s_out_size = 0, s_max = 0, s_clients = (\<lambda>i. echo_junk), s_heap = (\<lambda>a. None),
      s_brk = 0, s_app = \<lparr>bar_count = 0, server_exit = None, server_lines = []\<rparr>, s_sys = echo_os, s_log = [],
      s_fault = True, s_hang = True\<rparr>"

definition my_client_struct :: my_client where
  "my_client_struct =
     \<lparr>c_address = ''x'', c_port = 7, c_disconnect_reason = General_error,
      c_on_connected = (\<lambda>u. (u, [])), c_on_disconnected = (\<lambda>r u. (u, [])),
      c_on_message = (\<lambda>n. None), c_epoll_fd = 77, c_epoll_ctl = Epoll_default,
      c_server_fd = 77, c_keep_alive_timer_fd = 77, c_reconnect_timer_fd = 77,
      c_pong_received = False, c_pending_disconnect = True, c_in_message = None,
      c_in_workspace_size = 0,
      c_input = \<lparr>i_buf = [], i_cap = 0, i_size = 77, i_left = 77, i_state = Payload, i_overrun = False\<rparr>,
      c_out_message = None, c_out_workspace_size = 0, c_out_buf = [], c_out_size = 0,
      c_app = \<lparr>client_exit = None, client_lines = []\<rparr>, c_sys = demo_os, c_log = [], c_fault = False\<rparr>"

definition my_server_set :: my_server where
  "my_server_set = snd (my_server_init (replicate 128 0) (replicate 128 0) 4
     (my_server_struct\<lparr>s_sys := snd (sys_epoll_create1 echo_os)\<rparr>))"

definition my_server_ready :: my_server where
  "my_server_ready = snd (server_start my_server_set)"

definition my_client_set :: my_client where
  "my_client_set = snd (my_client_init (replicate 128 0) (replicate 128 0) 4
     (my_client_struct\<lparr>c_sys := snd (sys_epoll_create1 demo_os)\<rparr>))"

lemma my_epoll_fd:
  "sys_epoll_create1 (s_sys my_server_struct) = (4, snd (sys_epoll_create1 echo_os))"
  "sys_epoll_create1 (c_sys my_client_struct) = (4, snd (sys_epoll_create1 demo_os))"
  by (simp_all add: my_server_struct_def my_client_struct_def sys_epoll_create1_def echo_os_def demo_os_def sys_new_fd_def
      sys_try_def lowest_free_demo)

lemma my_set:
  "my_server_init (replicate 128 0) (replicate 128 0) 4 (my_server_struct\<lparr>s_sys := snd (sys_epoll_create1 echo_os)\<rparr>) =
     (0, my_server_set)"
  "server_start my_server_set = (0, my_server_ready)" "server_lucky my_server_ready"
  "my_client_init (replicate 128 0) (replicate 128 0) 4 (my_client_struct\<lparr>c_sys := snd (sys_epoll_create1 demo_os)\<rparr>) =
     (0, my_client_set)"
proof -
  show "my_server_init (replicate 128 0) (replicate 128 0) 4 (my_server_struct\<lparr>s_sys := snd (sys_epoll_create1 echo_os)\<rparr>) =
     (0, my_server_set)"
    by (simp add: my_server_set_def my_server_init_def server_init_def my_uri Let_def)
  have "fst (server_start my_server_set) = 0 \<and> server_lucky my_server_ready"
    by (simp add: my_server_ready_def my_server_set_def my_server_init_def server_init_def my_uri server_start_def
        my_server_struct_def sv_start_out_def sys_epoll_create1_def echo_unfold server_lucky_def Let_def)
  then show "server_start my_server_set = (0, my_server_ready)" "server_lucky my_server_ready"
    by (simp_all add: my_server_ready_def prod_eq_iff)
  show "my_client_init (replicate 128 0) (replicate 128 0) 4 (my_client_struct\<lparr>c_sys := snd (sys_epoll_create1 demo_os)\<rparr>) =
     (0, my_client_set)"
    by (simp add: my_client_set_def my_client_init_def client_init_def my_uri Let_def)
qed

definition my_demo_req :: "my_to_server \<Rightarrow> byte list" where
  "my_demo_req m = [if m = Foo_req then 1 else if m = Bar_ind then 2 else 3]"

definition my_demo_rsp :: "my_to_client \<Rightarrow> byte list" where
  "my_demo_rsp m = [if m = Foo_rsp then 1 else 2]"

lemma my_demo_ok:
  "my_codecs my_demo_server_codec my_demo_client_codec my_demo_req my_demo_rsp"
  "my_machines (replicate 128 0) (replicate 128 0) my_server_struct (replicate 128 0) (replicate 128 0) my_client_struct"
  by (auto simp: my_codecs_def my_demo_server_codec_def my_demo_client_codec_def codec_fits_def my_demo_req_def
      my_demo_rsp_def my_machines_def my_server_struct_def my_client_struct_def echo_os_def demo_os_def
      split: if_splits)

lemma main_lines: "my_server_main k mem buf evs s = (0, s') \<and> P \<and> server_lines (s_app s') = ls \<and> Q \<Longrightarrow>
    server_lines (s_app (snd (my_server_main k mem buf evs s))) = ls"
  by simp

lemma my_protocol_conversation_witness:
  "let d = k_fd (s_clients (server_process my_demo_server_codec (s_listener_fd my_server_ready) EPOLLIN []
         (my_server_say ''Server started.'' my_server_ready)) 0)
   in server_lines (s_app (snd (my_server_main my_demo_server_codec (replicate 128 0) (replicate 128 0)
     [(s_listener_fd my_server_ready, EPOLLIN, []), (d, EPOLLIN, [Chunk [1, 0], Chunk [0, 1, 1]]),
      (d, EPOLLIN, [Chunk [1, 0, 0, 1, 2, 1], Chunk [0, 0, 1, 2]]), (d, EPOLLIN, [Chunk [1, 0, 0, 1, 3]])] my_server_struct))) =
     [''Server started.'', ''Got FooReq. Sending FooRsp.'', ''Got BarInd.'', ''Got BarInd. Sending FieReq.'',
      ''Got FieRsp. Disconnecting the client and exiting.'']"
proof -
  let ?ks = my_demo_server_codec and ?kc = my_demo_client_codec and ?EVENT = EPOLLIN
  let ?s0 = "my_server_say ''Server started.'' my_server_ready" and ?c1 = "client_start ?kc my_client_set"
  let ?s1 = "server_process ?ks (s_listener_fd my_server_ready) ?EVENT [] ?s0"
  let ?d = "k_fd (s_clients ?s1 0)" and ?f = "c_server_fd ?c1"
  let ?as1 = "[Chunk [1, 0], Chunk [0, 1, 1]]" and ?as2 = "[Chunk [1, 0, 0, 1, 2, 1], Chunk [0, 0, 1, 2]]"
    and ?as3 = "[Chunk [1, 0, 0, 1, 3]]" and ?bs1 = "[Chunk [2, 0, 0], Chunk [1, 1]]" and ?bs2 = "[Chunk [2, 0, 0, 1, 2]]"
  let ?s2 = "server_process ?ks ?d ?EVENT ?as1 ?s1" and ?c2 = "client_process ?kc ?f ?EVENT ?bs1 ?c1"
  let ?s3 = "server_process ?ks ?d ?EVENT ?as2 ?s2" and ?c3 = "client_process ?kc ?f ?EVENT ?bs2 ?c2"
  note m = lucky_epoll_create(1) [OF my_demo_ok(2) my_epoll_fd, unfolded my_machines_def]
  have b: "frame (my_request my_demo_req Foo_req) = [1, 0, 0, 1, 1]" "frame (my_request my_demo_req Bar_ind) = [1, 0, 0, 1, 2]"
    "frame (my_request my_demo_req Fie_rsp) = [1, 0, 0, 1, 3]" "frame (my_response my_demo_rsp Foo_rsp) = [2, 0, 0, 1, 1]"
    "frame (my_response my_demo_rsp Fie_req) = [2, 0, 0, 1, 2]"
    by code_simp+
  obtain A where s1: "my_server_ok ?ks my_demo_req my_demo_rsp A [0] [] ?d 0 ?s1" "s_app ?s1 = server_line ''Server started.'' (s_app (my_server_struct\<lparr>s_sys := snd (sys_epoll_create1 echo_os)\<rparr>))"
    "sv_stream ?s1 0 = []"
    using my_server_started [OF my_demo_ok(1) my_set(1,2) _ _ _ _ my_set(3) refl] m by blast
  have c1: "my_client_ok ?kc my_demo_req my_demo_rsp ?c1" "tx (c_sys ?c1) ?f = [1, 0, 0, 1, 1]"
    using my_client_started [OF my_demo_ok(1) my_set(4) _ _ _ _ _ refl] m by (simp_all add: b)
  have s2: "my_server_ok ?ks my_demo_req my_demo_rsp A [0] [] ?d 0 ?s2" "bar_count (s_app ?s2) = 0"
    "sv_stream ?s2 0 = [2, 0, 0, 1, 1]"
    using my_server_first [OF s1(1) _ _ refl, of ?as1] s1(2,3) m by (simp_all add: b server_line_def)
  have c2: "my_client_ok ?kc my_demo_req my_demo_rsp ?c2" "c_server_fd ?c2 = ?f"
    "tx (c_sys ?c2) ?f = tx (c_sys ?c1) ?f @ [1, 0, 0, 1, 2, 1, 0, 0, 1, 2]"
    using my_client_first [OF c1(1) _ _ refl, of ?bs1] by (simp_all add: b)
  have s3: "sv_stream ?s3 0 = sv_stream ?s2 0 @ [2, 0, 0, 1, 2]"
    using my_server_second [OF s2(1,2) _ _ refl, of ?as2] by (simp add: b)
  have c3: "tx (c_sys ?c3) ?f = tx (c_sys ?c2) ?f @ [1, 0, 0, 1, 3]"
    using my_client_second [OF c2(1) _ _ refl, of ?bs2] by (simp add: b c2(2))
  have "server_lines (s_app (snd (my_server_main ?ks (replicate 128 0) (replicate 128 0) [(s_listener_fd my_server_ready, EPOLLIN, []), (?d, EPOLLIN, ?as1),
      (?d, EPOLLIN, ?as2), (?d, EPOLLIN, ?as3)] my_server_struct))) =
     [''Server started.'', ''Got FooReq. Sending FooRsp.'', ''Got BarInd.'', ''Got BarInd. Sending FieReq.'',
      ''Got FieRsp. Disconnecting the client and exiting.'']"
    by (rule my_protocol_conversation [OF my_demo_ok my_epoll_fd(1) _ my_set(1-3) my_epoll_fd(2) my_set(4) refl refl refl refl refl _ _ refl _ _ refl
          _ _ refl _ _ refl _ refl, where ?bs1.0 = ?bs1 and ?bs2.0 = ?bs2, THEN main_lines])
      (simp_all only: arrived.simps try_again.simps c1(2) s2(3) c2(3) s3 c3, simp_all)
  then show ?thesis unfolding Let_def .
qed

end
