(* ===== verification/Spec2Isabelle.thy ===== *)
theory Spec2Isabelle
  imports LinuxClientFindings LinuxServerFindings AsyncClientBehaviour AsyncServerFacts ChatAsyncClient MyConversation
begin

text \<open>
  A verification library for messi, a protocol for messages over TCP connections. From the
  messages of an application a generator fills the templates under
  \<^verbatim>\<open>messi/c_source/templates\<close> with names; the result is a client and a server in C that
  exchange frames (a type, a 24 bit size, a payload) and use the small library under
  \<^verbatim>\<open>lib\<close>. What is verified is the text of the templates and of the library. The names of an
  application's messages only occur as the domain of the callback table \<open>on_message\<close>.

  \<^bold>\<open>The parts and their theories.\<close>

  \<^item> \<open>Prelude\<close>: machine types, writing into byte buffers, linked lists in memory.
  \<^item> \<open>Messi\<close>: \<^verbatim>\<open>lib/include/messi.h\<close> and \<^verbatim>\<open>lib/src/messi.c\<close>: headers, disconnect reasons and
    \<open>messi_parse_tcp_uri\<close>, with \<open>atoi\<close> as the C library of Linux has it. An \<open>int\<close> of C is an
    \<open>int\<close> that has gone through \<open>c_int\<close> (32 bits) wherever it could leave that range.
  \<^item> \<open>Os\<close>: the system calls the code makes, on a state with the open descriptors and the armed
    timers. Which call fails, how much a \<open>write\<close> takes and whether \<open>malloc\<close> succeeds are
    arguments in the state, so a theorem holds for every behaviour of the system. What arrives on
    a socket is a list of pieces; \<open>EAGAIN\<close>, errors and the end of the stream are elements of it.
  \<^item> \<open>Input\<close>: the input buffer of a connection and the locale \<open>frame_receiver\<close>: what the reading
    loops of all clients and servers have in common, proved once and interpreted on each.
  \<^item> \<open>Codec\<close>: the generated code for protocol buffers (a git submodule) as a record of functions,
    an argument of everything that calls it.
  \<^item> \<open>LinuxClient\<close>: every function of \<^verbatim>\<open>templates/linux/client.c\<close>; \<open>LinuxClientFacts\<close>,
    \<open>LinuxClientPhases\<close>, \<open>LinuxClientBehaviour\<close> prove that it handles the byte stream frame by
    frame, that it implements a state machine of four phases and, used as intended, leaks no descriptor, and
    what its timers, \<open>send\<close>, \<open>start\<close> and \<open>init\<close> do. \<open>LinuxClientFindings\<close> shows in which uses it
    leaks a socket, writes behind its buffer or closes what is not its own. \<open>LinuxClientDemo\<close> has the concrete client of the witnesses.
  \<^item> \<open>LinuxServer\<close>: every function of \<^verbatim>\<open>templates/linux/server.c\<close>. Clients are structs in an
    array, linked into three lists by index; output items live on a heap.
    \<open>LinuxServerLists\<close>, \<open>LinuxServerQueue\<close>, \<open>LinuxServerFrame\<close>, \<open>LinuxServerInv\<close>,
    \<open>LinuxServerOutput\<close>, \<open>LinuxServerCalls\<close> and \<open>LinuxServerProcess\<close> build up the invariant
    (lists, queues, descriptors) operation by operation; \<open>LinuxServerSafe\<close> concludes that a
    started server stays safe; \<open>LinuxServerReceive\<close> and \<open>LinuxServerMessages\<close> treat the byte
    streams. \<open>LinuxServerDelivery\<close> shows that the output queues are unbounded FIFOs of bytes
    (locale \<open>byte_queues\<close>) and what a broadcast adds to each, \<open>LinuxServerLifecycle\<close> what the
    application is told about each client, and what the timers and pings do,
    \<open>LinuxServerInputs\<close> that the input of every client stays well formed in every state the
    server can reach, so that what is proved of the reading loop applies in all of them.
    \<open>LinuxServerFindings\<close> shows in which uses and on which failures the server does use freed memory. \<open>LinuxServerDemo\<close> has the concrete
    server of the witnesses.
  \<^item> \<open>EndToEnd\<close>: client and server together, what one application sends is what the other is told.
    \<open>Replies\<close> goes one step further: a message, the callback that is called for it and what that
    callback sends back, on the server and on the client; and how the first client is accepted.
  \<^item> \<open>AsyncClient\<close> and \<open>AsyncServer\<close>: every function of \<^verbatim>\<open>templates/async/client.c\<close> and
    \<^verbatim>\<open>templates/async/server.c\<close>. The framework they are written for (another project) is what calls
    their handlers; the calls they make to it are recorded in order, and what its \<open>read\<close> delivers
    is an argument. \<open>Poller\<close> has what their reading loops share. \<open>AsyncClientFacts\<close> and
    \<open>AsyncClientBehaviour\<close> treat the byte stream, the timers, and how a lost connection is reported
    and replaced. \<open>AsyncServerFacts\<close> shows that the server, which is not finished, never tells its
    application anything.
  \<^item> \<open>ChatServer\<close>, \<open>ChatClient\<close> and \<open>ChatAsyncClient\<close>: the programs of \<^verbatim>\<open>examples/chat\<close> in C, as
    applications of the models above: the server (\<^verbatim>\<open>server/linux/main.c\<close>) is safe and hands what
    somebody says to everybody, the clients (\<^verbatim>\<open>client/linux/main.c\<close>, \<^verbatim>\<open>client/async/client.c\<close> with
    its \<^verbatim>\<open>main.c\<close>) send the lines that their users type.
  \<^item> \<open>MyProtocol\<close>: the programs of \<^verbatim>\<open>examples/my_protocol\<close> in C. \<open>MyConversation\<close> starts the server
    and the client for linux, lets each read what the other has written, and shows that they have
    the conversation of the example's \<^verbatim>\<open>README.rst\<close>, print its lines and exit.

  \<^bold>\<open>State and effects.\<close> Each C struct is a record with the fields of the struct, followed by
  fields that are not in it: the state of the application, the system, the log of the
  callbacks made so far (for the specifications) and ghosts that record what is undefined in C
  (a write outside of a buffer, the use of freed memory or of \<open>NULL\<close>). A callback of the
  application is a function from its state to a new state and a list of calls into the library,
  so callbacks may do whatever an application can do. Results of C functions are integers as in
  the source; a \<open>NULL\<close> result is \<open>None\<close>.

  \<^bold>\<open>Loops.\<close> The reading loops end because every round takes a byte of what has arrived. Those of
  the async client and server take their bytes from the framework, so that they are partial
  functions (\<open>None\<close> is a loop that does not end); \<open>async_client_input_ends\<close> shows that the loop
  ends when the framework has finitely many bytes to give. Loops
  over linked lists run with a bound, the size of the array of clients or the number of items
  ever allocated; running out of it sets the ghost \<open>s_hang\<close>, and \<open>server_stays_safe\<close> shows that
  this never happens.

  \<^bold>\<open>Conditions.\<close> Some properties hold only when the library is used as intended, and their
  hypotheses say so. For the linux server (\<open>server_app_ok\<close>, \<open>request_for\<close>, \<open>server_reach\<close>):
  callbacks make requests for the client they are called for, no broadcast is made for a client
  that is disconnected, other calls refer to connected clients, and no \<open>write\<close> fails for good
  while a queue is written. For the linux client (\<open>client_app_ok\<close>, \<open>client_step\<close>): it is started
  only when it is down, it sends only on a connection, callbacks do not stop it, and the process
  opens no descriptors of its own in between. The findings show what happens otherwise.

  \<^bold>\<open>Examples.\<close> The \<open>main\<close> functions get the list of events that \<open>epoll_wait\<close> delivers as an
  argument; it fails after the last one. What the programs print is a list in the state of the
  application. A callback that calls \<open>exit\<close> leaves the exit code in that state, and the loop of
  \<open>main\<close> ends after the event in which it was called. Between two characters that the user of the
  async chat client types, the framework does whatever it has to, which is an argument.

  \<^bold>\<open>Not modelled.\<close> The generator and the Python client (other languages); the generated protocol
  code (a parameter); the two \<^verbatim>\<open>main.c\<close> that only start the async framework; the chat server for
  that framework, \<^verbatim>\<open>examples/chat/server/async\<close>, which does not fit the template it is built on
  (it passes arguments that \<open>NAME_server_init\<close> does not have).
\<close>

end
